(* ===== verification/Vgpu_Prelude.thy ===== *)
theory Vgpu_Prelude
  imports Main "HOL-Library.Word" "HOL-Library.Signed_Division"
begin

text \<open>
  Shared ground of the development: the machine integers of the driver (an x64 Windows
  kernel module), the NTSTATUS codes it returns, the page arithmetic of \<open>global.h\<close>,
  little-endian byte views of words, and the generic facts on lists that the components
  use.  Pointers are 64-bit words; \<open>NULL\<close> is 0.
\<close>

unbundle bit_operations_syntax

type_synonym u8 = "8 word"
type_synonym u32 = "32 word"
type_synonym u64 = "64 word"
type_synonym NTSTATUS = "32 word"

named_theorems frame_simps \<open>which parts of a state an operation leaves alone\<close>
named_theorems wire_simps \<open>sizes and fields of encoded structures\<close>

subsection \<open>NTSTATUS\<close>

text \<open>The status codes the driver returns; a status is a success when it is not negative as
  a signed 32-bit number.\<close>

definition STATUS_SUCCESS :: NTSTATUS where "STATUS_SUCCESS = 0"
definition STATUS_PENDING :: NTSTATUS where "STATUS_PENDING = 0x103"
definition STATUS_UNSUCCESSFUL :: NTSTATUS where "STATUS_UNSUCCESSFUL = 0xC0000001"
definition STATUS_INVALID_PARAMETER :: NTSTATUS where "STATUS_INVALID_PARAMETER = 0xC000000D"
definition STATUS_INSUFFICIENT_RESOURCES :: NTSTATUS where
  "STATUS_INSUFFICIENT_RESOURCES = 0xC000009A"
definition STATUS_NOT_SUPPORTED :: NTSTATUS where "STATUS_NOT_SUPPORTED = 0xC00000BB"
definition STATUS_CANCELLED :: NTSTATUS where "STATUS_CANCELLED = 0xC0000120"

definition NT_SUCCESS :: "NTSTATUS \<Rightarrow> bool" where
  "NT_SUCCESS s \<longleftrightarrow> 0 \<le> sint s"

lemmas status_defs = STATUS_SUCCESS_def STATUS_PENDING_def STATUS_UNSUCCESSFUL_def
  STATUS_INVALID_PARAMETER_def STATUS_INSUFFICIENT_RESOURCES_def STATUS_NOT_SUPPORTED_def
  STATUS_CANCELLED_def

lemma NT_SUCCESS_codes [simp]:
  "NT_SUCCESS STATUS_SUCCESS" "NT_SUCCESS STATUS_PENDING"
  "\<not> NT_SUCCESS STATUS_UNSUCCESSFUL" "\<not> NT_SUCCESS STATUS_INSUFFICIENT_RESOURCES"
  "\<not> NT_SUCCESS STATUS_NOT_SUPPORTED" "\<not> NT_SUCCESS STATUS_INVALID_PARAMETER"
  "\<not> NT_SUCCESS STATUS_CANCELLED"
  by (simp_all add: NT_SUCCESS_def status_defs)

lemma status_distinct [simp]:
  "STATUS_SUCCESS \<noteq> STATUS_UNSUCCESSFUL" "STATUS_UNSUCCESSFUL \<noteq> STATUS_SUCCESS"
  "STATUS_SUCCESS \<noteq> STATUS_INSUFFICIENT_RESOURCES" "STATUS_INSUFFICIENT_RESOURCES \<noteq> STATUS_SUCCESS"
  "STATUS_SUCCESS \<noteq> STATUS_NOT_SUPPORTED" "STATUS_NOT_SUPPORTED \<noteq> STATUS_SUCCESS"
  "STATUS_SUCCESS \<noteq> STATUS_PENDING" "STATUS_PENDING \<noteq> STATUS_SUCCESS"
  "STATUS_UNSUCCESSFUL \<noteq> STATUS_PENDING" "STATUS_PENDING \<noteq> STATUS_UNSUCCESSFUL"
  "STATUS_NOT_SUPPORTED \<noteq> STATUS_PENDING" "STATUS_PENDING \<noteq> STATUS_NOT_SUPPORTED"
  "STATUS_INSUFFICIENT_RESOURCES \<noteq> STATUS_PENDING"
  "STATUS_PENDING \<noteq> STATUS_INSUFFICIENT_RESOURCES"
  by (simp_all add: status_defs)

subsection \<open>Page arithmetic\<close>

text \<open>\<open>PAGE_SIZE\<close> of x64 Windows, and \<open>ROUND_UP\<close> of \<open>global.h\<close>, which is evaluated at
  the width of its first argument and so wraps near the top of that width.\<close>

abbreviation PAGE_SIZE :: "'a::len word" where "PAGE_SIZE \<equiv> 0x1000"

definition ROUND_UP :: "'a::len word \<Rightarrow> 'a word \<Rightarrow> 'a word" where
  "ROUND_UP x n = (x + n - 1) AND (- n)"

lemma and_minus_4096:
  fixes y :: "'a::len word"
  shows "y AND - 0x1000 = push_bit 12 (drop_bit 12 y)"
proof -
  have "- (0x1000 :: 'a word) = NOT (mask 12)"
    using minus_exp_eq_not_mask [of 12, where 'a = "'a word"] by simp
  then show ?thesis
    by (simp add: bit_eq_iff bit_simps) auto
qed

lemma unat_and_minus_4096:
  fixes y :: "'a::len word"
  shows "unat (y AND - 0x1000) = 4096 * (unat y div 4096)"
proof -
  have "y AND - 0x1000 = y - take_bit 12 y"
    unfolding and_minus_4096 using bits_ident [of 12 y] by (simp add: eq_diff_eq)
  moreover have t: "unat (take_bit 12 y) = unat y mod 4096"
  proof -
    have "unat (take_bit 12 y) = take_bit 12 (unat y)" by (rule unsigned_take_bit_eq)
    then show ?thesis by (simp only: take_bit_eq_mod) simp
  qed
  moreover have "unat (take_bit 12 y) \<le> unat y"
    unfolding t by simp
  ultimately show ?thesis
    by (metis minus_mod_eq_mult_div unat_sub word_le_nat_alt)
qed

text \<open>Rounding up to a page, with its wrap: the result is the next multiple of the page
  size as long as the sum fits, and 0 for the last \<open>PAGE_SIZE - 1\<close> values of the width.\<close>

lemma unat_ROUND_UP:
  fixes x :: "'a::len word"
  assumes "unat x + 4095 < 2 ^ LENGTH('a)"
  shows "unat (ROUND_UP x PAGE_SIZE) = 4096 * ((unat x + 4095) div 4096)"
proof -
  have "x + PAGE_SIZE - 1 = x + 4095" by simp
  moreover have "4095 < (2::nat) ^ LENGTH('a)" using assms by linarith
  then have "unat (4095 :: 'a word) = 4095"
    by (simp add: unat_numeral take_bit_nat_eq_self)
  then have "unat (x + 4095) = unat x + 4095"
    using assms by (simp add: unat_word_ariths)
  ultimately show ?thesis
    by (simp add: ROUND_UP_def unat_and_minus_4096 add.commute)
qed

lemma ROUND_UP_aligned: "unat (ROUND_UP x PAGE_SIZE) mod 4096 = 0"
  by (simp add: ROUND_UP_def unat_and_minus_4096)

lemma ROUND_UP_wraps_u32:
  fixes x :: u32
  assumes "2 ^ 32 \<le> unat x + 4095"
  shows "ROUND_UP x PAGE_SIZE = 0"
proof -
  have lt: "unat x < 2 ^ 32" using unsigned_less [of x] by simp
  have "unat (x + 4095) = (unat x + 4095) mod 2 ^ 32"
    by (simp add: unat_word_ariths)
  also have "\<dots> = unat x + 4095 - 2 ^ 32"
    using assms lt by (simp add: mod_if)
  finally have "unat (x + 4095) < 4096" using lt by simp
  then have "unat (ROUND_UP x PAGE_SIZE) = 0"
    by (simp add: ROUND_UP_def unat_and_minus_4096 add.commute)
  then show ?thesis by (simp add: unat_eq_0)
qed

lemma page_multiple: "(x :: nat) mod 4096 = 0 \<Longrightarrow> 4096 * (x div 4096) = x"
  using mult_div_mod_eq [of 4096 x] by simp

subsection \<open>Conversions between the widths\<close>

lemma unat_less_u32 [simp]: "unat (x :: u32) < 4294967296"
  using unsigned_less [of x] by simp

lemma unat_less_u64 [simp]: "unat (x :: u64) < 18446744073709551616"
  using unsigned_less [of x] by simp

lemma unat_ucast_u64_u32: "unat (ucast (x :: u64) :: u32) = unat x mod 2 ^ 32"
proof -
  have "unat (ucast x :: u32) = take_bit LENGTH(32) (unat x)" by (rule unsigned_ucast_eq)
  then show ?thesis by (simp only: take_bit_eq_mod) simp
qed

lemma unat_ucast_u32_u64: "unat (ucast (x :: u32) :: u64) = unat x"
proof -
  have "unat (ucast x :: u64) = take_bit LENGTH(64) (unat x)" by (rule unsigned_ucast_eq)
  moreover have "unat x < 2 ^ 64" by (rule less_trans [OF unat_less_u32]) simp
  ultimately show ?thesis by (simp only: take_bit_eq_mod) simp
qed

lemma unat_of_nat_u32: "n < 2 ^ 32 \<Longrightarrow> unat (of_nat n :: u32) = n"
  by (simp add: unsigned_of_nat take_bit_nat_eq_self)

lemma unat_plus_of_nat: "unat ((p :: u64) + of_nat n) = (unat p + n) mod 2 ^ 64"
  by (simp only: unat_word_ariths unat_of_nat mod_add_right_eq) simp

lemma sint_small: "unat (x :: u64) < 2 ^ 63 \<Longrightarrow> sint x = int (unat x)"
proof -
  assume "unat x < 2 ^ 63"
  then have "int (unat x) < int (2 ^ 63)" by (simp only: of_nat_less_iff)
  then have u: "uint x < 2 ^ 63" by (simp only: uint_nat) simp
  have "signed_take_bit (LENGTH(64) - Suc 0) (uint x) = uint x"
    using u order_trans [of "- (2 ^ 63)" 0 "uint x"] by (intro signed_take_bit_int_eq_self) simp_all
  then show ?thesis by (simp only: sint_uint uint_nat)
qed

lemma int_sdiv_4096: "int n sdiv 4096 = int (n div 4096)"
  by (cases "n = 0") (simp_all add: signed_divide_int_def zdiv_int)

subsection \<open>Little-endian views\<close>

text \<open>The bytes of a 32-bit and a 64-bit field in memory, and the reads of such fields at a
  byte offset.\<close>

definition le32 :: "u32 \<Rightarrow> u8 list" where
  "le32 x = [ucast x, ucast (drop_bit 8 x), ucast (drop_bit 16 x), ucast (drop_bit 24 x)]"

definition le64 :: "u64 \<Rightarrow> u8 list" where
  "le64 x = le32 (ucast x) @ le32 (ucast (drop_bit 32 x))"

definition rd32 :: "u8 list \<Rightarrow> nat \<Rightarrow> u32" where
  "rd32 bs i = ucast (bs ! i) OR push_bit 8 (ucast (bs ! (i + 1)))
     OR push_bit 16 (ucast (bs ! (i + 2))) OR push_bit 24 (ucast (bs ! (i + 3)))"

definition rd64 :: "u8 list \<Rightarrow> nat \<Rightarrow> u64" where
  "rd64 bs i = ucast (rd32 bs i) OR push_bit 32 (ucast (rd32 bs (i + 4)))"

lemma length_le32 [simp, wire_simps]: "length (le32 x) = 4"
  by (simp add: le32_def)

lemma length_le64 [simp, wire_simps]: "length (le64 x) = 8"
  by (simp add: le64_def)

lemma rd32_le32: "rd32 (le32 x) 0 = x"
proof (rule bit_word_eqI)
  fix n assume "n < LENGTH(32)"
  then consider "n < 8" | "8 \<le> n" "n < 16" | "16 \<le> n" "n < 24" | "24 \<le> n" "n < 32"
    by fastforce
  then show "bit (rd32 (le32 x) 0) n = bit x n"
    by cases (simp_all add: rd32_def le32_def bit_simps less_diff_conv2)
qed

lemma rd32_append_left [wire_simps]: "i + 4 \<le> length xs \<Longrightarrow> rd32 (xs @ ys) i = rd32 xs i"
  by (simp add: rd32_def nth_append)

lemma rd32_append_right [wire_simps]:
  assumes "length xs \<le> i"
  shows "rd32 (xs @ ys) i = rd32 ys (i - length xs)"
proof -
  obtain k where "i = length xs + k" using assms le_Suc_ex by blast
  then show ?thesis by (simp add: rd32_def nth_append)
qed

lemma rd64_append_left [wire_simps]: "i + 8 \<le> length xs \<Longrightarrow> rd64 (xs @ ys) i = rd64 xs i"
  by (simp add: rd64_def rd32_append_left)

lemma rd64_append_right [wire_simps]:
  assumes "length xs \<le> i"
  shows "rd64 (xs @ ys) i = rd64 ys (i - length xs)"
proof -
  obtain k where "i = length xs + k" using assms le_Suc_ex by blast
  then show ?thesis by (simp add: rd64_def rd32_append_right)
qed

lemma rd_Cons [wire_simps]:
  "0 < i \<Longrightarrow> rd32 (x # xs) i = rd32 xs (i - 1)" "0 < i \<Longrightarrow> rd64 (x # xs) i = rd64 xs (i - 1)"
  using rd32_append_right [of "[x]" i xs] rd64_append_right [of "[x]" i xs] by simp_all

lemma rd64_le64: "rd64 (le64 x) 0 = x"
proof (rule bit_word_eqI)
  fix n assume "n < LENGTH(64)"
  then consider "n < 32" | "32 \<le> n" "n < 64" by fastforce
  moreover have "rd32 (le64 x) 0 = ucast x" "rd32 (le64 x) 4 = ucast (drop_bit 32 x)"
    by (simp_all add: le64_def rd32_append_left rd32_append_right rd32_le32)
  ultimately show "bit (rd64 (le64 x) 0) n = bit x n"
    by cases (simp_all add: rd64_def bit_simps less_diff_conv2)
qed

text \<open>The same reads on a field that has other bytes behind it, the shape in which the
  fields of an encoded structure appear.\<close>

lemma rd32_le32_append [simp, wire_simps]:
  "rd32 (le32 x @ ys) 0 = x" "rd32 (le32 x) 0 = x"
  by (simp_all add: rd32_append_left rd32_le32)

lemma rd64_le64_append [simp, wire_simps]:
  "rd64 (le64 x @ ys) 0 = x" "rd64 (le64 x) 0 = x"
  by (simp_all add: rd64_append_left rd64_le64)

subsection \<open>Lists of entries\<close>

text \<open>The driver keeps its objects in intrusive \<open>LIST_ENTRY\<close> lists.  Writing through the
  pointer a search returned changes the first entry that matches; unlinking it removes that
  entry.\<close>

fun upd_first :: "('a \<Rightarrow> bool) \<Rightarrow> ('a \<Rightarrow> 'a) \<Rightarrow> 'a list \<Rightarrow> 'a list" where
  "upd_first P f [] = []"
| "upd_first P f (x # xs) = (if P x then f x # xs else x # upd_first P f xs)"

fun del_first :: "('a \<Rightarrow> bool) \<Rightarrow> 'a list \<Rightarrow> 'a list" where
  "del_first P [] = []"
| "del_first P (x # xs) = (if P x then xs else x # del_first P xs)"

lemma length_upd_first [simp]: "length (upd_first P f xs) = length xs"
  by (induction xs) auto

lemma map_upd_first: "(\<And>x. g (f x) = g x) \<Longrightarrow> map g (upd_first P f xs) = map g xs"
  by (induction xs) auto

lemma set_upd_first: "y \<in> set (upd_first P f xs) \<Longrightarrow> y \<in> set xs \<or> (\<exists>x \<in> set xs. P x \<and> y = f x)"
  by (induction xs) (auto split: if_splits)

lemma set_del_first: "y \<in> set (del_first P xs) \<Longrightarrow> y \<in> set xs"
  by (induction xs) (auto split: if_splits)

lemma del_first_idle [simp]: "\<forall>x \<in> set xs. \<not> P x \<Longrightarrow> del_first P xs = xs"
  by (induction xs) auto

lemma upd_first_idle [simp]: "\<forall>x \<in> set xs. \<not> P x \<Longrightarrow> upd_first P f xs = xs"
  by (induction xs) auto

lemma distinct_map_del_first: "distinct (map g xs) \<Longrightarrow> distinct (map g (del_first P xs))"
  by (induction xs) (auto dest: set_del_first)

end
