(* ===== verification/Vgpu_Global.thy ===== *)
theory Vgpu_Global
  imports Vgpu_Prelude
begin

text \<open>
  The data shared by the driver's parts, \<open>global.h\<close>: the device configuration, capability
  sets, memory descriptors, resources and contexts, and the two spin-lock wrappers with the
  IRQL discipline they implement.  A \<open>KEVENT\<close> is its signalled state; an intrusive list is
  the list of its entries, head first; a pointer that is only compared, stored or passed on
  is a 64-bit word.  \<open>VGPU_BUFFER\<close> is in \<open>Vgpu_Command\<close>, where the commands it carries are.
\<close>

subsection \<open>Data\<close>

text \<open>\<open>struct virtio_vgpu_config\<close> is packed: the field offsets are 0, 1, 2, 6 and 14.\<close>

record virtio_vgpu_config =
  cfg_staging :: u8
  cfg_num_queues :: u8
  cfg_num_capsets :: u32
  cfg_memory_size :: u64
  cfg_capabilities :: u64

definition decode_config :: "u8 list \<Rightarrow> virtio_vgpu_config" where
  "decode_config bs =
     \<lparr>cfg_staging = bs ! 0, cfg_num_queues = bs ! 1, cfg_num_capsets = rd32 bs 2,
      cfg_memory_size = rd64 bs 6, cfg_capabilities = rd64 bs 14\<rparr>"

definition encode_config :: "virtio_vgpu_config \<Rightarrow> u8 list" where
  "encode_config c = [cfg_staging c, cfg_num_queues c] @ le32 (cfg_num_capsets c)
     @ le64 (cfg_memory_size c) @ le64 (cfg_capabilities c)"

lemma decode_encode_config: "decode_config (encode_config c) = c"
  by (simp add: decode_config_def encode_config_def wire_simps)

record memory_descriptor =
  md_VirtualAddress :: u64
  md_PhysicalAddress :: u64

record virtio_gpu_drv_capset =
  cs_id :: u32
  cs_max_version :: u32
  cs_max_size :: u32

record capsets =
  cps_Initialized :: bool
  cps_NumCaps :: u32
  cps_Data :: "virtio_gpu_drv_capset list"
  cps_CapsetIdMask :: u64

record share_descriptor =
  sh_pMdl :: u64
  sh_Size :: u64
  sh_UserAdderss :: u64
  sh_KernelAddress :: u64

record vgpu_memory_buffer =
  mb_Size :: u64
  mb_Share :: share_descriptor
  mb_Memory :: memory_descriptor

record virgl_resource =
  vr_Id :: u32
  vr_StateEvent :: bool
  vr_bForBuffer :: bool
  vr_bForBlob :: bool
  vr_FenceId :: u64
  vr_Buffer :: vgpu_memory_buffer

text \<open>\<open>DeviceContext\<close> is left out: there is one device, whose context every operation gets.\<close>

record virgl_context =
  vc_Id :: u32
  vc_ResourceList :: "virgl_resource list"

subsection \<open>Spin locks\<close>

text \<open>The processor's interrupt level and one lock.  \<open>KeAcquireSpinLock\<close> raises to
  \<open>DISPATCH_LEVEL\<close> and reports the level before; the \<open>DpcLevel\<close> variants leave the level
  alone.  Acquiring a lock that is held does not return.\<close>

definition DISPATCH_LEVEL :: u8 where "DISPATCH_LEVEL = 2"

record spin_state =
  sp_irql :: u8
  sp_held :: bool

definition SpinLock :: "spin_state \<Rightarrow> (u8 \<times> spin_state) option" where
  "SpinLock s =
     (let savedIrql = sp_irql s
      in if sp_held s then None
         else if savedIrql < DISPATCH_LEVEL
         then Some (savedIrql, \<lparr>sp_irql = DISPATCH_LEVEL, sp_held = True\<rparr>)
         else Some (savedIrql, s\<lparr>sp_held := True\<rparr>))"

definition SpinUnLock :: "u8 \<Rightarrow> spin_state \<Rightarrow> spin_state" where
  "SpinUnLock irql s =
     (if irql < DISPATCH_LEVEL then \<lparr>sp_irql = irql, sp_held = False\<rparr>
      else s\<lparr>sp_held := False\<rparr>)"

text \<open>At any interrupt level, a free lock is acquired, the section runs at
  \<open>DISPATCH_LEVEL\<close> or above and never below the caller's level, and releasing with the saved
  level gives back the level and the lock the section started from.\<close>

theorem spin_lock_roundtrip:
  assumes "\<not> sp_held s"
  shows "\<exists>irql t. SpinLock s = Some (irql, t) \<and> sp_held t \<and> DISPATCH_LEVEL \<le> sp_irql t
           \<and> sp_irql s \<le> sp_irql t \<and> SpinUnLock irql t = s"
  using assms by (cases s) (auto simp: SpinLock_def SpinUnLock_def Let_def not_less)

theorem spin_lock_roundtrip_witness:
  "SpinLock \<lparr>sp_irql = 0, sp_held = False\<rparr> = Some (0, \<lparr>sp_irql = 2, sp_held = True\<rparr>)
   \<and> SpinUnLock 0 \<lparr>sp_irql = 2, sp_held = True\<rparr> = \<lparr>sp_irql = 0, sp_held = False\<rparr>"
proof -
  have "\<not> sp_held \<lparr>sp_irql = 0, sp_held = False\<rparr>" by simp
  from spin_lock_roundtrip [OF this] show ?thesis
    by (auto simp: SpinLock_def SpinUnLock_def DISPATCH_LEVEL_def)
qed

end
