(* ===== verification/Vgpu_Idr.thy ===== *)
theory Vgpu_Idr
  imports Vgpu_Prelude
begin

text \<open>
  The id allocators of \<open>idr.c\<close>: an array of two \<open>IDRANDOM\<close>, one for virgl resource ids
  (drawn at 4 bytes) and one for fence ids (drawn at 8 bytes).  An allocator is a counter
  and a list of ids given back.  The driver draws with \<open>GetIdFromIdrWithoutCache\<close> only; the
  cached pair \<open>GetIdFromIdr\<close>/\<open>PutIdToIdr\<close> is modelled and verified as well.  Each
  operation runs under the allocator's spin lock and is one step here.  The two contracts a
  client relies on are the locales \<open>id_source\<close> (ids are fresh while there is room) and
  \<open>id_pool\<close> (an id is never out twice), both interpreted on the code's model.
\<close>

subsection \<open>State and operations\<close>

record idrandom =
  idr_Id :: u64
  idr_FreeIdList :: "u64 list"
  idr_Initilaized :: bool

definition VIRGL_RESOURCE_ID_TYPE :: nat where "VIRGL_RESOURCE_ID_TYPE = 0"
definition FENCE_ID_TYPE :: nat where "FENCE_ID_TYPE = 1"
definition IDR_MAX_SIZE :: nat where "IDR_MAX_SIZE = 2"

lemmas idr_consts = VIRGL_RESOURCE_ID_TYPE_def FENCE_ID_TYPE_def IDR_MAX_SIZE_def

text \<open>The static array before the driver starts: zeroed memory.\<close>

definition Idrs_static :: "idrandom list" where
  "Idrs_static = replicate IDR_MAX_SIZE
     \<lparr>idr_Id = 0, idr_FreeIdList = [], idr_Initilaized = False\<rparr>"

text \<open>\<open>RtlCopyMemory(dst, src, Size)\<close> between an 8-byte \<open>LARGE_INTEGER\<close> and an integer of
  \<open>Size\<close> bytes keeps the \<open>Size\<close> low bytes.\<close>

definition copy_low :: "nat \<Rightarrow> u64 \<Rightarrow> u64" where
  "copy_low sz x = take_bit (8 * sz) x"

definition InitializeIdr :: "idrandom list \<Rightarrow> idrandom list" where
  "InitializeIdr idrs =
     map (\<lambda>_. \<lparr>idr_Id = 1, idr_FreeIdList = [], idr_Initilaized = True\<rparr>) idrs"

text \<open>The \<open>while (!IsListEmpty)\<close> loop of \<open>UnInitializeIdr\<close>; the second component counts the
  nodes handed back to the lookaside list.\<close>

fun drain_free_ids :: "u64 list \<Rightarrow> nat \<Rightarrow> u64 list \<times> nat" where
  "drain_free_ids [] freed = ([], freed)"
| "drain_free_ids (i # is) freed = drain_free_ids is (Suc freed)"

definition UnInitializeIdr :: "idrandom list \<Rightarrow> idrandom list" where
  "UnInitializeIdr idrs =
     map (\<lambda>d. d\<lparr>idr_FreeIdList := fst (drain_free_ids (idr_FreeIdList d) 0),
               idr_Initilaized := False\<rparr>) idrs"

definition GetIdFromIdrWithoutCache :: "idrandom list \<Rightarrow> nat \<Rightarrow> nat \<Rightarrow> u64 \<times> idrandom list" where
  "GetIdFromIdrWithoutCache idrs type sz =
     (let d = idrs ! type
      in (copy_low sz (idr_Id d), idrs[type := d\<lparr>idr_Id := idr_Id d + 1\<rparr>]))"

definition GetIdFromIdr :: "idrandom list \<Rightarrow> nat \<Rightarrow> nat \<Rightarrow> u64 \<times> idrandom list" where
  "GetIdFromIdr idrs type sz =
     (let d = idrs ! type
      in case idr_FreeIdList d of
           [] \<Rightarrow> (copy_low sz (idr_Id d), idrs[type := d\<lparr>idr_Id := idr_Id d + 1\<rparr>])
         | i # rest \<Rightarrow> (copy_low sz i, idrs[type := d\<lparr>idr_FreeIdList := rest\<rparr>]))"

definition PutIdToIdr :: "idrandom list \<Rightarrow> nat \<Rightarrow> u64 \<Rightarrow> nat \<Rightarrow> idrandom list" where
  "PutIdToIdr idrs type i sz =
     (let d = idrs ! type
      in idrs[type := d\<lparr>idr_FreeIdList := copy_low sz i # idr_FreeIdList d\<rparr>])"

subsection \<open>Contracts\<close>

text \<open>A source of fresh ids: while there is room, a draw returns an id that was not issued
  and records it as issued.\<close>

fun draw_many :: "('s \<Rightarrow> 'i \<times> 's) \<Rightarrow> nat \<Rightarrow> 's \<Rightarrow> 'i list \<times> 's" where
  "draw_many draw 0 s = ([], s)"
| "draw_many draw (Suc n) s =
     (let (i, s') = draw s; (is, s'') = draw_many draw n s' in (i # is, s''))"

locale id_source =
  fixes draw :: "'s \<Rightarrow> 'i \<times> 's"
    and issued :: "'s \<Rightarrow> 'i set"
    and room :: "'s \<Rightarrow> nat"
  assumes draw_fresh: "0 < room s \<Longrightarrow> draw s = (i, s') \<Longrightarrow> i \<notin> issued s"
    and draw_issued: "0 < room s \<Longrightarrow> draw s = (i, s') \<Longrightarrow> issued s' = insert i (issued s)"
    and draw_room: "0 < room s \<Longrightarrow> draw s = (i, s') \<Longrightarrow> room s' = room s - 1"
begin

lemma draws_fresh:
  assumes "n \<le> room s" and "draw_many draw n s = (is, s')"
  shows "distinct is \<and> set is \<inter> issued s = {} \<and> issued s' = issued s \<union> set is"
  using assms
proof (induction n arbitrary: s "is")
  case 0
  then show ?case by simp
next
  case (Suc n)
  obtain i t where d: "draw s = (i, t)" by (cases "draw s")
  from Suc.prems(2) d obtain js where js: "draw_many draw n t = (js, s')" and is_def: "is = i # js"
    by (auto split: prod.splits)
  from Suc.prems(1) have r: "0 < room s" by simp
  have "n \<le> room t" using Suc.prems(1) draw_room [OF r d] by simp
  from Suc.IH [OF this js]
  show ?case using draw_fresh [OF r d] draw_issued [OF r d] by (auto simp: is_def)
qed

end

text \<open>A pool of ids that are drawn and given back: the ids out at any time are distinct.  The
  client names the ids it holds; it draws one or gives one of its own back.\<close>

datatype 'i pool_op = PoolGet | PoolPut 'i

fun pool_run :: "('s \<Rightarrow> 'i \<times> 's) \<Rightarrow> ('i \<Rightarrow> 's \<Rightarrow> 's) \<Rightarrow> 'i pool_op list \<Rightarrow> 's \<Rightarrow> 'i list \<Rightarrow> 'i list \<times> 's"
  where
  "pool_run get put [] s held = (held, s)"
| "pool_run get put (PoolGet # ops) s held =
     (let (i, s') = get s in pool_run get put ops s' (i # held))"
| "pool_run get put (PoolPut i # ops) s held =
     (if i \<in> set held then pool_run get put ops (put i s) (remove1 i held)
      else pool_run get put ops s held)"

locale id_pool =
  fixes get :: "'s \<Rightarrow> 'i \<times> 's"
    and put :: "'i \<Rightarrow> 's \<Rightarrow> 's"
    and inv :: "'i set \<Rightarrow> 's \<Rightarrow> bool"
    and room :: "'s \<Rightarrow> nat"
  assumes get_inv: "inv L s \<Longrightarrow> 0 < room s \<Longrightarrow> get s = (i, s') \<Longrightarrow> i \<notin> L \<and> inv (insert i L) s'"
    and get_room: "get s = (i, s') \<Longrightarrow> room s - 1 \<le> room s'"
    and put_inv: "inv L s \<Longrightarrow> i \<in> L \<Longrightarrow> inv (L - {i}) (put i s)"
    and put_room: "room (put i s) = room s"
begin

lemma run_distinct:
  assumes "inv (set held) s" "distinct held" "length ops \<le> room s"
    and "pool_run get put ops s held = (held', s')"
  shows "distinct held' \<and> inv (set held') s'"
  using assms
proof (induction ops arbitrary: s held)
  case Nil
  then show ?case by simp
next
  case (Cons a ops)
  show ?case
  proof (cases a)
    case PoolGet
    obtain i t where g: "get s = (i, t)" by (cases "get s")
    have "0 < room s" using Cons.prems(3) by simp
    note gi = get_inv [OF Cons.prems(1) this g]
    have "length ops \<le> room t" using Cons.prems(3) get_room [OF g] by simp
    with Cons.prems(2,4) gi show ?thesis
      by (intro Cons.IH [of "i # held" t]) (simp_all add: PoolGet g)
  next
    case (PoolPut i)
    show ?thesis
    proof (cases "i \<in> set held")
      case True
      have "inv (set (remove1 i held)) (put i s)"
        using put_inv [OF Cons.prems(1) True] Cons.prems(2) by (simp add: set_remove1_eq)
      with Cons.prems True show ?thesis
        by (intro Cons.IH [of "remove1 i held" "put i s"])
          (simp_all add: PoolPut put_room distinct_remove1)
    next
      case False
      with Cons.prems show ?thesis
        by (intro Cons.IH [of held s]) (simp_all add: PoolPut)
    qed
  qed
qed

end

subsection \<open>The code's allocators meet the contracts\<close>

definition id_issued :: "nat \<Rightarrow> idrandom list \<Rightarrow> u64 set" where
  "id_issued type idrs = {i. unat i < unat (idr_Id (idrs ! type))}"

definition id_room :: "nat \<Rightarrow> nat \<Rightarrow> idrandom list \<Rightarrow> nat" where
  "id_room bound type idrs =
     (if type < length idrs then bound - unat (idr_Id (idrs ! type)) else 0)"

lemma unat_copy_low: "unat (copy_low sz x) = unat x mod 2 ^ (8 * sz)"
proof -
  have "unat (copy_low sz x) = take_bit (8 * sz) (unat x)"
    unfolding copy_low_def by (rule unsigned_take_bit_eq)
  then show ?thesis by (simp only: take_bit_eq_mod)
qed

lemma copy_low_idle: "unat x < 2 ^ (8 * sz) \<Longrightarrow> copy_low sz x = x"
  by (simp add: word_unat_eq_iff unat_copy_low)

lemma unat_Suc_u64: "unat (x :: u64) < 2 ^ 64 - 1 \<Longrightarrow> unat (x + 1) = Suc (unat x)"
  by (simp add: unat_word_ariths)

lemma insert_issued: "unat x < 2 ^ 64 - 1 \<Longrightarrow>
    {i :: u64. unat i < unat (x + 1)} = insert x {i. unat i < unat x}"
  by (auto simp: unat_Suc_u64 less_Suc_eq word_unat_eq_iff)

lemma id_source_model:
  assumes "bound \<le> 2 ^ (8 * sz)" and "bound \<le> 2 ^ 64 - 1"
  shows "id_source (\<lambda>s. GetIdFromIdrWithoutCache s type sz) (id_issued type) (id_room bound type)"
proof
  fix s i s'
  assume r: "0 < id_room bound type s" and d: "GetIdFromIdrWithoutCache s type sz = (i, s')"
  have t: "type < length s" and b: "unat (idr_Id (s ! type)) < bound"
    using r by (auto simp: id_room_def split: if_splits)
  from b assms(1) have "copy_low sz (idr_Id (s ! type)) = idr_Id (s ! type)"
    by (intro copy_low_idle) linarith
  with d have i: "i = idr_Id (s ! type)"
    and s': "s' = s[type := (s ! type)\<lparr>idr_Id := idr_Id (s ! type) + 1\<rparr>]"
    by (auto simp: GetIdFromIdrWithoutCache_def Let_def)
  have b64: "unat (idr_Id (s ! type)) < 2 ^ 64 - 1" using b assms(2) by linarith
  show "i \<notin> id_issued type s" by (simp add: i id_issued_def)
  show "id_issued type s' = insert i (id_issued type s)"
    using t by (simp add: id_issued_def i s' insert_issued [OF b64])
  show "id_room bound type s' = id_room bound type s - 1"
    using t by (simp add: id_room_def s' unat_Suc_u64 [OF b64])
qed

interpretation resource_ids: id_source
  "\<lambda>s. GetIdFromIdrWithoutCache s VIRGL_RESOURCE_ID_TYPE 4"
  "id_issued VIRGL_RESOURCE_ID_TYPE" "id_room (2 ^ 32) VIRGL_RESOURCE_ID_TYPE"
  by (rule id_source_model) simp_all

interpretation fence_ids: id_source
  "\<lambda>s. GetIdFromIdrWithoutCache s FENCE_ID_TYPE 8"
  "id_issued FENCE_ID_TYPE" "id_room (2 ^ 64 - 1) FENCE_ID_TYPE"
  by (rule id_source_model) simp_all

text \<open>The cached pair: the ids out and the ids on the free list are distinct, not 0 and
  below the counter.\<close>

definition id_pool_inv :: "nat \<Rightarrow> nat \<Rightarrow> u64 set \<Rightarrow> idrandom list \<Rightarrow> bool" where
  "id_pool_inv sz type L idrs \<longleftrightarrow>
     (let d = idrs ! type
      in type < length idrs \<and> 0 < unat (idr_Id d) \<and> unat (idr_Id d) \<le> 2 ^ (8 * sz)
         \<and> distinct (idr_FreeIdList d) \<and> L \<inter> set (idr_FreeIdList d) = {}
         \<and> (\<forall>i \<in> L \<union> set (idr_FreeIdList d). 0 < unat i \<and> unat i < unat (idr_Id d)))"

lemma id_pool_invD:
  assumes "id_pool_inv sz type L s" and "i \<in> L \<or> i \<in> set (idr_FreeIdList (s ! type))"
  shows "i \<noteq> 0" "unat i < 2 ^ (8 * sz)"
proof -
  have "0 < unat i \<and> unat i < unat (idr_Id (s ! type)) \<and> unat (idr_Id (s ! type)) \<le> 2 ^ (8 * sz)"
    using assms unfolding id_pool_inv_def Let_def by blast
  then show "i \<noteq> 0" "unat i < 2 ^ (8 * sz)" by auto
qed

lemma id_pool_get:
  assumes "bound \<le> 2 ^ (8 * sz)" "bound \<le> 2 ^ 64 - 1"
    and inv: "id_pool_inv sz type L s" and "0 < id_room bound type s"
    and g: "GetIdFromIdr s type sz = (i, s')"
  shows "i \<notin> L \<and> id_pool_inv sz type (insert i L) s'"
proof -
  let ?d = "s ! type"
  have t: "type < length s" using inv by (simp add: id_pool_inv_def Let_def)
  have b: "unat (idr_Id ?d) < bound"
    using assms(4) t by (simp add: id_room_def)
  have b64: "unat (idr_Id ?d) < 2 ^ 64 - 1" using b assms(2) by linarith
  show ?thesis
  proof (cases "idr_FreeIdList ?d")
    case Nil
    have "copy_low sz (idr_Id ?d) = idr_Id ?d"
      using b assms(1) by (intro copy_low_idle) linarith
    with g Nil have "i = idr_Id ?d" "s' = s[type := ?d\<lparr>idr_Id := idr_Id ?d + 1\<rparr>]"
      by (auto simp: GetIdFromIdr_def Let_def)
    with inv t Nil b assms(1) show ?thesis
      by (auto simp: id_pool_inv_def Let_def unat_Suc_u64 [OF b64] less_Suc_eq)
  next
    case (Cons j js)
    have "copy_low sz j = j"
      using inv Cons by (intro copy_low_idle id_pool_invD(2) [OF inv]) simp
    with g Cons have "i = j" "s' = s[type := ?d\<lparr>idr_FreeIdList := js\<rparr>]"
      by (auto simp: GetIdFromIdr_def Let_def)
    with inv t Cons show ?thesis by (auto simp: id_pool_inv_def Let_def)
  qed
qed

lemma id_pool_put:
  assumes inv: "id_pool_inv sz type L s" and "i \<in> L"
  shows "id_pool_inv sz type (L - {i}) (PutIdToIdr s type i sz)"
proof -
  have "copy_low sz i = i"
    using assms by (intro copy_low_idle id_pool_invD(2) [OF inv]) simp
  with assms show ?thesis by (auto simp: id_pool_inv_def PutIdToIdr_def Let_def)
qed

lemma id_pool_get_room: "GetIdFromIdr s type sz = (i, s') \<Longrightarrow> id_room bound type s - 1 \<le> id_room bound type s'"
proof -
  assume g: "GetIdFromIdr s type sz = (i, s')"
  have "unat (x + 1) \<le> Suc (unat x)" for x :: u64 by (simp add: unat_word_ariths)
  with g show ?thesis
    by (auto simp: GetIdFromIdr_def Let_def id_room_def split: list.splits
        intro: diff_le_mono2 le_trans)
qed

lemma id_pool_put_room: "id_room bound type (PutIdToIdr s type i sz) = id_room bound type s"
  by (simp add: PutIdToIdr_def Let_def id_room_def)

interpretation resource_pool: id_pool
  "\<lambda>s. GetIdFromIdr s VIRGL_RESOURCE_ID_TYPE 4" "\<lambda>i s. PutIdToIdr s VIRGL_RESOURCE_ID_TYPE i 4"
  "id_pool_inv 4 VIRGL_RESOURCE_ID_TYPE" "id_room (2 ^ 32) VIRGL_RESOURCE_ID_TYPE"
proof
  fix L s i s'
  assume "id_pool_inv 4 VIRGL_RESOURCE_ID_TYPE L s" "0 < id_room (2 ^ 32) VIRGL_RESOURCE_ID_TYPE s"
    "GetIdFromIdr s VIRGL_RESOURCE_ID_TYPE 4 = (i, s')"
  then show "i \<notin> L \<and> id_pool_inv 4 VIRGL_RESOURCE_ID_TYPE (insert i L) s'"
    by (intro id_pool_get [of "2 ^ 32"]) simp_all
qed (rule id_pool_get_room id_pool_put id_pool_put_room; assumption?)+

lemma InitializeIdr_nth:
  "type < length idrs \<Longrightarrow>
     InitializeIdr idrs ! type = \<lparr>idr_Id = 1, idr_FreeIdList = [], idr_Initilaized = True\<rparr>"
  by (simp add: InitializeIdr_def)

lemma length_idrs [simp]:
  "length (InitializeIdr idrs) = length idrs"
  "length (snd (GetIdFromIdrWithoutCache idrs type sz)) = length idrs"
  "length (UnInitializeIdr idrs) = length idrs"
  by (simp_all add: InitializeIdr_def GetIdFromIdrWithoutCache_def UnInitializeIdr_def Let_def)

lemma drain_free_ids_all: "drain_free_ids is n = ([], n + length is)"
  by (induction "is" arbitrary: n) auto

text \<open>Drawing from one allocator leaves the other alone.\<close>

lemma idr_frame [frame_simps]:
  "t \<noteq> type \<Longrightarrow> snd (GetIdFromIdrWithoutCache idrs type sz) ! t = idrs ! t"
  "t \<noteq> type \<Longrightarrow> snd (GetIdFromIdr idrs type sz) ! t = idrs ! t"
  "t \<noteq> type \<Longrightarrow> PutIdToIdr idrs type i sz ! t = idrs ! t"
  by (simp_all add: GetIdFromIdrWithoutCache_def GetIdFromIdr_def PutIdToIdr_def Let_def
      split: list.splits)

subsection \<open>Properties\<close>

text \<open>The resource ids the driver draws after \<open>InitializeIdr\<close> are pairwise distinct and
  never 0 (0 is reserved for virgl3d), as long as fewer than \<open>2 ^ 32\<close> are drawn.\<close>

theorem resource_ids_distinct:
  assumes "length idrs = IDR_MAX_SIZE" and "n < 2 ^ 32"
    and "draw_many (\<lambda>s. GetIdFromIdrWithoutCache s VIRGL_RESOURCE_ID_TYPE 4) n (InitializeIdr idrs)
         = (is, idrs')"
  shows "distinct is \<and> 0 \<notin> set is"
proof -
  let ?s = "InitializeIdr idrs"
  have z: "VIRGL_RESOURCE_ID_TYPE < length idrs" using assms(1) by (simp add: idr_consts)
  have "n \<le> id_room (2 ^ 32) VIRGL_RESOURCE_ID_TYPE ?s"
    using assms(2) z by (simp add: id_room_def InitializeIdr_nth)
  from resource_ids.draws_fresh [OF this assms(3)]
  have "distinct is" "set is \<inter> id_issued VIRGL_RESOURCE_ID_TYPE ?s = {}" by blast+
  moreover have "0 \<in> id_issued VIRGL_RESOURCE_ID_TYPE ?s"
    using z by (simp add: id_issued_def InitializeIdr_nth)
  ultimately show ?thesis by blast
qed

theorem resource_ids_distinct_witness:
  "draw_many (\<lambda>s. GetIdFromIdrWithoutCache s VIRGL_RESOURCE_ID_TYPE 4) 3 (InitializeIdr Idrs_static)
     = ([1, 2, 3], [\<lparr>idr_Id = 4, idr_FreeIdList = [], idr_Initilaized = True\<rparr>,
                    \<lparr>idr_Id = 1, idr_FreeIdList = [], idr_Initilaized = True\<rparr>])
   \<and> distinct [1, 2, 3 :: u64] \<and> 0 \<notin> set [1, 2, 3 :: u64]"
proof -
  have d: "draw_many (\<lambda>s. GetIdFromIdrWithoutCache s VIRGL_RESOURCE_ID_TYPE 4) 3 (InitializeIdr Idrs_static)
     = ([1, 2, 3], [\<lparr>idr_Id = 4, idr_FreeIdList = [], idr_Initilaized = True\<rparr>,
                    \<lparr>idr_Id = 1, idr_FreeIdList = [], idr_Initilaized = True\<rparr>])"
    by (simp add: numeral_3_eq_3 InitializeIdr_def Idrs_static_def idr_consts
        GetIdFromIdrWithoutCache_def copy_low_def numeral_2_eq_2 Let_def)
  have l: "length Idrs_static = IDR_MAX_SIZE" by (simp add: Idrs_static_def)
  show ?thesis using d resource_ids_distinct [OF l _ d] by simp
qed

text \<open>The counter has 64 bits but a resource id keeps 32 of them: from the
  \<open>2 ^ 32\<close>-th draw on the ids repeat, the first of them being the reserved 0.\<close>

theorem resource_id_wraps:
  fixes d :: idrandom
  shows "fst (GetIdFromIdrWithoutCache [d\<lparr>idr_Id := 2 ^ 32\<rparr>, e] VIRGL_RESOURCE_ID_TYPE 4) = 0
    \<and> fst (GetIdFromIdrWithoutCache [d\<lparr>idr_Id := x + 2 ^ 32\<rparr>, e] VIRGL_RESOURCE_ID_TYPE 4)
      = fst (GetIdFromIdrWithoutCache [d\<lparr>idr_Id := x\<rparr>, e] VIRGL_RESOURCE_ID_TYPE 4)"
proof -
  have "unat (copy_low 4 (x + 2 ^ 32)) = unat (copy_low 4 x)"
    by (simp add: unat_copy_low unat_word_ariths mod_mod_cancel)
  then have "copy_low 4 (x + 2 ^ 32) = copy_low 4 x" by (simp add: word_unat_eq_iff)
  moreover have "copy_low 4 (2 ^ 32) = 0" by (simp add: copy_low_def)
  ultimately show ?thesis
    by (simp add: GetIdFromIdrWithoutCache_def idr_consts)
qed

text \<open>With the cached allocator, whatever sequence of draws and returns a client makes
  (fewer than \<open>2 ^ 32\<close> of them), the ids it holds are pairwise distinct and not 0.\<close>

theorem cached_ids_never_shared:
  assumes "length idrs = IDR_MAX_SIZE" and "length ops < 2 ^ 32"
    and "pool_run (\<lambda>s. GetIdFromIdr s VIRGL_RESOURCE_ID_TYPE 4)
           (\<lambda>i s. PutIdToIdr s VIRGL_RESOURCE_ID_TYPE i 4) ops (InitializeIdr idrs) []
         = (held, idrs')"
  shows "distinct held \<and> 0 \<notin> set held"
proof -
  let ?s = "InitializeIdr idrs"
  have z: "VIRGL_RESOURCE_ID_TYPE < length idrs" using assms(1) by (simp add: idr_consts)
  have i: "id_pool_inv 4 VIRGL_RESOURCE_ID_TYPE (set []) ?s"
    using z by (simp add: id_pool_inv_def InitializeIdr_nth Let_def)
  have r: "length ops \<le> id_room (2 ^ 32) VIRGL_RESOURCE_ID_TYPE ?s"
    using assms(2) z by (simp add: id_room_def InitializeIdr_nth)
  from resource_pool.run_distinct [OF i _ r assms(3)]
  show ?thesis by (auto dest: id_pool_invD(1) [of _ _ _ _ 0])
qed

theorem cached_ids_never_shared_witness:
  "fst (pool_run (\<lambda>s. GetIdFromIdr s VIRGL_RESOURCE_ID_TYPE 4)
           (\<lambda>i s. PutIdToIdr s VIRGL_RESOURCE_ID_TYPE i 4)
           [PoolGet, PoolGet, PoolPut 1, PoolGet] (InitializeIdr Idrs_static) []) = [1, 2]
   \<and> distinct [1, 2 :: u64] \<and> 0 \<notin> set [1, 2 :: u64]"
proof -
  let ?run = "pool_run (\<lambda>s. GetIdFromIdr s VIRGL_RESOURCE_ID_TYPE 4)
           (\<lambda>i s. PutIdToIdr s VIRGL_RESOURCE_ID_TYPE i 4)
           [PoolGet, PoolGet, PoolPut 1, PoolGet] (InitializeIdr Idrs_static) []"
  have f: "fst ?run = [1, 2]"
    by (simp add: InitializeIdr_def Idrs_static_def idr_consts GetIdFromIdr_def PutIdToIdr_def
        copy_low_def numeral_2_eq_2 Let_def)
  obtain idrs' where r: "?run = ([1, 2], idrs')" using f by (metis prod.collapse)
  have l: "length Idrs_static = IDR_MAX_SIZE" by (simp add: Idrs_static_def)
  show ?thesis using f cached_ids_never_shared [OF l _ r] by simp
qed

text \<open>An id given back with \<open>PutIdToIdr\<close> is the next one \<open>GetIdFromIdr\<close> returns, and the
  pair leaves the allocators as they were.\<close>

theorem put_get_roundtrip:
  assumes "type < length idrs"
  shows "GetIdFromIdr (PutIdToIdr idrs type i sz) type sz = (copy_low sz i, idrs)"
  using assms by (simp add: GetIdFromIdr_def PutIdToIdr_def Let_def copy_low_def)

theorem put_get_roundtrip_witness:
  "GetIdFromIdr (PutIdToIdr (InitializeIdr Idrs_static) FENCE_ID_TYPE 9 8) FENCE_ID_TYPE 8
     = (9, InitializeIdr Idrs_static)"
proof -
  have "FENCE_ID_TYPE < length (InitializeIdr Idrs_static)"
    by (simp add: Idrs_static_def idr_consts)
  from put_get_roundtrip [OF this, of 9 8] show ?thesis by (simp add: copy_low_def)
qed

end
