(* ===== verification/Vgpu_Memory.thy ===== *)
theory Vgpu_Memory
  imports Vgpu_Global "HOL-Library.Multiset"
begin

text \<open>
  The allocator of the vgpu memory, \<open>memory.c\<close>: one contiguous block shared with the host,
  handed out in runs of pages that a bitmap records.  The bitmap searches are routines of
  the Windows kernel and so a parameter, the record \<open>rtl_bitmap_lib\<close>; \<open>rtl_ok\<close> states their
  documented behaviour, and \<open>rtl_first_fit\<close> is a concrete pair of functions that has it.
  Each operation runs under the allocator's spin lock and is one step here.

  \<open>mem_inv\<close> is the allocator's own invariant (the available size is what the bitmap says);
  \<open>mem_owned R\<close> adds that the regions \<open>R\<close> held by clients are page runs of the bitmap that
  no two of them share.  The contract of the clients is the locale \<open>region_allocator\<close>.
\<close>

subsection \<open>The bitmap routines\<close>

definition BITMAP_FAILED :: u32 where "BITMAP_FAILED = 0xFFFFFFFF"

record rtl_bitmap_lib =
  FindClearBits :: "bool list \<Rightarrow> u32 \<Rightarrow> u32 \<Rightarrow> u32"
  FindSetBits :: "bool list \<Rightarrow> u32 \<Rightarrow> u32 \<Rightarrow> u32"

definition all_bits :: "bool list \<Rightarrow> bool \<Rightarrow> nat \<Rightarrow> nat \<Rightarrow> bool" where
  "all_bits bm b i n \<longleftrightarrow> i + n \<le> length bm \<and> (\<forall>j \<in> {i..<i + n}. bm ! j = b)"

definition set_range :: "bool list \<Rightarrow> nat \<Rightarrow> nat \<Rightarrow> bool \<Rightarrow> bool list" where
  "set_range bm i n b = take i bm @ replicate n b @ drop (i + n) bm"

text \<open>What the kernel documents of a search for \<open>n > 0\<close> bits: it returns the start of a run
  of that many bits, or the failure value if the whole bitmap has none; the search for set
  bits starts at the hint, so a run of set bits that begins there is the one returned.\<close>

definition find_spec :: "(bool list \<Rightarrow> u32 \<Rightarrow> u32 \<Rightarrow> u32) \<Rightarrow> bool \<Rightarrow> bool" where
  "find_spec search b \<longleftrightarrow>
     (\<forall>bm n hint. length bm < 2 ^ 32 \<longrightarrow> 0 < n \<longrightarrow>
        (if search bm n hint = BITMAP_FAILED then \<forall>k. \<not> all_bits bm b k (unat n)
         else all_bits bm b (unat (search bm n hint)) (unat n)))"

definition starts_at_hint :: "(bool list \<Rightarrow> u32 \<Rightarrow> u32 \<Rightarrow> u32) \<Rightarrow> bool \<Rightarrow> bool" where
  "starts_at_hint search b \<longleftrightarrow>
     (\<forall>bm n hint. length bm < 2 ^ 32 \<longrightarrow> 0 < n \<longrightarrow> all_bits bm b (unat hint) (unat n) \<longrightarrow>
        search bm n hint = hint)"

definition rtl_ok :: "rtl_bitmap_lib \<Rightarrow> bool" where
  "rtl_ok rtl \<longleftrightarrow> find_spec (FindClearBits rtl) False \<and> find_spec (FindSetBits rtl) True
     \<and> starts_at_hint (FindSetBits rtl) True"

definition RtlFindClearBitsAndSet ::
  "rtl_bitmap_lib \<Rightarrow> bool list \<Rightarrow> u32 \<Rightarrow> u32 \<Rightarrow> u32 \<times> bool list" where
  "RtlFindClearBitsAndSet rtl bm n hint =
     (let i = FindClearBits rtl bm n hint
      in (i, if i = BITMAP_FAILED then bm else set_range bm (unat i) (unat n) True))"

definition RtlFindSetBitsAndClear ::
  "rtl_bitmap_lib \<Rightarrow> bool list \<Rightarrow> u32 \<Rightarrow> u32 \<Rightarrow> u32 \<times> bool list" where
  "RtlFindSetBitsAndClear rtl bm n hint =
     (let i = FindSetBits rtl bm n hint
      in (i, if i = BITMAP_FAILED then bm else set_range bm (unat i) (unat n) False))"

text \<open>A concrete pair: the first run from the hint on, else the first run of the bitmap.\<close>

definition first_fit :: "bool \<Rightarrow> bool list \<Rightarrow> u32 \<Rightarrow> u32 \<Rightarrow> u32" where
  "first_fit b bm n hint =
     (let ok = (\<lambda>i. list_all (\<lambda>j. bm ! j = b) [i..<i + unat n]);
          starts = [0..<Suc (length bm) - unat n]
      in case List.find ok (filter (\<lambda>i. unat hint \<le> i) starts) of
           Some i \<Rightarrow> of_nat i
         | None \<Rightarrow> (case List.find ok starts of Some i \<Rightarrow> of_nat i | None \<Rightarrow> BITMAP_FAILED))"

definition rtl_first_fit :: rtl_bitmap_lib where
  "rtl_first_fit = \<lparr>FindClearBits = first_fit False, FindSetBits = first_fit True\<rparr>"

subsection \<open>State and operations\<close>

record vgpu_memory =
  vm_bInitialize :: bool
  vm_VirtualAddress :: u64
  vm_PhysicalAddress :: u64
  vm_AvailableMemorySize :: u64
  vm_RegionBitmap :: "bool list"
  vm_RegionBitmapBuffer :: u64
  vm_LastFreeIndex :: u32

definition VgpuMemory_static :: vgpu_memory where
  "VgpuMemory_static =
     \<lparr>vm_bInitialize = False, vm_VirtualAddress = 0, vm_PhysicalAddress = 0,
      vm_AvailableMemorySize = 0, vm_RegionBitmap = [], vm_RegionBitmapBuffer = 0,
      vm_LastFreeIndex = 0\<rparr>"

text \<open>\<open>buffer\<close> is what \<open>ExAllocatePool2\<close> returns for the bitmap: \<open>Size / PAGE_SIZE / 8\<close> bytes, one
  bit for each page when the size is a multiple of 32K, which an \<open>ASSERT\<close> expects and the theorems
  suppose.  For other sizes the code's buffer is too short for the bitmap it initialises.\<close>

definition InitializeVgpuMemory ::
  "u64 \<Rightarrow> u64 \<Rightarrow> u64 \<Rightarrow> u64 \<Rightarrow> vgpu_memory \<Rightarrow> vgpu_memory" where
  "InitializeVgpuMemory buffer VitrualAddress PhysicalAddress sz m =
     (let m1 = m\<lparr>vm_RegionBitmapBuffer := buffer\<rparr>
      in if vm_RegionBitmapBuffer m1 = 0 then m1
         else m1\<lparr>vm_RegionBitmap := replicate (unat (ucast (sz div PAGE_SIZE) :: u32)) False,
                 vm_VirtualAddress := VitrualAddress,
                 vm_PhysicalAddress := PhysicalAddress,
                 vm_AvailableMemorySize := sz,
                 vm_bInitialize := True,
                 vm_LastFreeIndex := 0\<rparr>)"

definition UninitializeVgpuMemory :: "vgpu_memory \<Rightarrow> vgpu_memory" where
  "UninitializeVgpuMemory m = VgpuMemory_static"

definition AllocateVgpuMemory ::
  "rtl_bitmap_lib \<Rightarrow> u64 \<Rightarrow> vgpu_memory \<Rightarrow> memory_descriptor option \<times> vgpu_memory" where
  "AllocateVgpuMemory rtl sz m =
     (if vm_AvailableMemorySize m < sz then (None, m)
      else
        let page = ucast (sz div PAGE_SIZE) :: u32;
            (index, bm) = RtlFindClearBitsAndSet rtl (vm_RegionBitmap m) page (vm_LastFreeIndex m)
        in if index = BITMAP_FAILED then (None, m\<lparr>vm_RegionBitmap := bm\<rparr>)
           else
             let m' = m\<lparr>vm_RegionBitmap := bm, vm_LastFreeIndex := index + page,
                        vm_AvailableMemorySize := vm_AvailableMemorySize m - sz\<rparr>;
                 offset = (ucast index :: u64) * PAGE_SIZE
             in (Some \<lparr>md_VirtualAddress = vm_VirtualAddress m' + offset,
                       md_PhysicalAddress = vm_PhysicalAddress m' + offset\<rparr>, m'))"

text \<open>The hint of \<open>FreeVgpuMemory\<close> is a signed pointer difference divided by the page size
  (truncating), cut to 32 bits; that of \<open>ReallocVgpuMemory\<close> is an unsigned one.\<close>

definition FreeVgpuMemory :: "rtl_bitmap_lib \<Rightarrow> u64 \<Rightarrow> u64 \<Rightarrow> vgpu_memory \<Rightarrow> vgpu_memory" where
  "FreeVgpuMemory rtl VitrualAddress sz m =
     (let (index, bm) = RtlFindSetBitsAndClear rtl (vm_RegionBitmap m)
            (ucast (sz div PAGE_SIZE) :: u32)
            (word_of_int (sint (VitrualAddress - vm_VirtualAddress m) sdiv 4096))
      in if index = BITMAP_FAILED then m\<lparr>vm_RegionBitmap := bm\<rparr>
         else m\<lparr>vm_RegionBitmap := bm, vm_LastFreeIndex := index,
                vm_AvailableMemorySize := vm_AvailableMemorySize m + sz\<rparr>)"

definition ReallocVgpuMemory ::
  "rtl_bitmap_lib \<Rightarrow> u64 \<Rightarrow> u64 \<Rightarrow> u64 \<Rightarrow> vgpu_memory \<Rightarrow> bool \<times> vgpu_memory" where
  "ReallocVgpuMemory rtl VitrualAddress OriginSize TargetSize m =
     (if OriginSize = TargetSize then (False, m)
      else if OriginSize < TargetSize then (False, m)
      else
        let change = OriginSize - TargetSize;
            (index, bm) = RtlFindSetBitsAndClear rtl (vm_RegionBitmap m)
              (ucast (change div PAGE_SIZE) :: u32)
              (ucast ((VitrualAddress - vm_VirtualAddress m + TargetSize) div PAGE_SIZE))
        in if index = BITMAP_FAILED then (False, m\<lparr>vm_RegionBitmap := bm\<rparr>)
           else (True, m\<lparr>vm_RegionBitmap := bm, vm_LastFreeIndex := index,
                         vm_AvailableMemorySize := vm_AvailableMemorySize m + change\<rparr>))"

subsection \<open>Runs of bits\<close>

lemma all_bits_0: "all_bits bm b i 0 \<longleftrightarrow> i \<le> length bm"
  by (simp add: all_bits_def)

lemma all_bits_split:
  assumes "all_bits bm b i n"
  shows "bm = take i bm @ replicate n b @ drop (i + n) bm"
proof (rule nth_equalityI)
  show "length bm = length (take i bm @ replicate n b @ drop (i + n) bm)"
    using assms by (simp add: all_bits_def)
next
  fix j assume "j < length bm"
  with assms show "bm ! j = (take i bm @ replicate n b @ drop (i + n) bm) ! j"
    by (auto simp: all_bits_def nth_append not_less)
qed

lemma length_set_range: "all_bits bm b i n \<Longrightarrow> length (set_range bm i n c) = length bm"
  by (simp add: set_range_def all_bits_def)

lemma nth_set_range:
  "all_bits bm b i n \<Longrightarrow> k < length bm \<Longrightarrow>
     set_range bm i n c ! k = (if i \<le> k \<and> k < i + n then c else bm ! k)"
  by (auto simp: set_range_def all_bits_def nth_append not_less)

lemma set_range_0 [simp]: "set_range bm i 0 b = bm"
  by (simp add: set_range_def)

lemma set_range_same: "all_bits bm b i n \<Longrightarrow> set_range bm i n b = bm"
  using all_bits_split [of bm b i n] by (simp add: set_range_def)

lemma set_range_set_range:
  assumes "all_bits bm b i n"
  shows "set_range (set_range bm i n c) i n b = bm"
proof -
  have i: "i + n \<le> length bm" using assms by (simp add: all_bits_def)
  have "set_range (set_range bm i n c) i n b = set_range bm i n b"
    using i by (simp add: set_range_def)
  then show ?thesis using set_range_same [OF assms] by simp
qed

lemma count_replicate: "count_list (replicate n b) c = (if b = c then n else 0)"
  by (induction n) auto

lemma count_set_range:
  assumes "all_bits bm b i n"
  shows "count_list bm b = count_list (set_range bm i n (\<not> b)) b + n"
    and "count_list (set_range bm i n (\<not> b)) (\<not> b) = count_list bm (\<not> b) + n"
proof -
  have e: "count_list bm c = count_list (take i bm) c + count_list (replicate n b) c
             + count_list (drop (i + n) bm) c" for c
    by (subst all_bits_split [OF assms]) (simp add: count_list_append)
  show "count_list bm b = count_list (set_range bm i n (\<not> b)) b + n"
    by (simp add: e set_range_def count_list_append count_replicate)
  show "count_list (set_range bm i n (\<not> b)) (\<not> b) = count_list bm (\<not> b) + n"
    by (simp add: e set_range_def count_list_append count_replicate)
qed

lemma all_bits_count: "all_bits bm b i n \<Longrightarrow> n \<le> count_list bm b"
  using count_set_range(1) [of bm b i n] by simp

subsection \<open>Invariant and ownership\<close>

definition mem_inv :: "vgpu_memory \<Rightarrow> bool" where
  "mem_inv m \<longleftrightarrow> vm_bInitialize m \<and> length (vm_RegionBitmap m) < 2 ^ 32
     \<and> unat (vm_AvailableMemorySize m) = 4096 * count_list (vm_RegionBitmap m) False
     \<and> unat (vm_VirtualAddress m) + 4096 * length (vm_RegionBitmap m) \<le> 2 ^ 64"

text \<open>A region is a virtual address and a size in bytes.\<close>

type_synonym region = "u64 \<times> u64"

definition region_index :: "u64 \<Rightarrow> region \<Rightarrow> nat" where
  "region_index base r = unat (fst r - base) div 4096"

definition region_pages :: "u64 \<Rightarrow> region \<Rightarrow> nat set" where
  "region_pages base r = {region_index base r..<region_index base r + unat (snd r) div 4096}"

definition page_aligned :: "u64 \<Rightarrow> region \<Rightarrow> bool" where
  "page_aligned base r \<longleftrightarrow> unat (fst r - base) mod 4096 = 0 \<and> unat (snd r) mod 4096 = 0"

text \<open>How many regions hold page \<open>k\<close>; at most one may, and only a page whose bit is set.\<close>

definition holders :: "u64 \<Rightarrow> region multiset \<Rightarrow> nat \<Rightarrow> nat" where
  "holders base R k = size {# r \<in># R. k \<in> region_pages base r #}"

definition page_used :: "bool list \<Rightarrow> nat \<Rightarrow> bool" where
  "page_used bm k \<longleftrightarrow> k < length bm \<and> bm ! k"

definition mem_owned :: "region multiset \<Rightarrow> vgpu_memory \<Rightarrow> bool" where
  "mem_owned R m \<longleftrightarrow> mem_inv m \<and> (\<forall>r \<in># R. page_aligned (vm_VirtualAddress m) r)
     \<and> (\<forall>k. holders (vm_VirtualAddress m) R k \<le> of_bool (page_used (vm_RegionBitmap m) k))"

lemma holders_simps [simp]:
  "holders base {#} k = 0"
  "holders base (add_mset r R) k = of_bool (k \<in> region_pages base r) + holders base R k"
  "holders base (R + S) k = holders base R k + holders base S k"
  by (simp_all add: holders_def)

lemma holders_remove: "r \<in># R \<Longrightarrow>
    holders base R k = of_bool (k \<in> region_pages base r) + holders base (R - {#r#}) k"
  by (metis holders_simps(2) insert_DiffM)

lemma mem_owned_disjoint:
  assumes "mem_owned R m" and "{#r, s#} \<subseteq># R"
  shows "region_pages (vm_VirtualAddress m) r \<inter> region_pages (vm_VirtualAddress m) s = {}"
proof -
  obtain T where R: "R = {#r, s#} + T" using assms(2) by (metis subset_mset.le_iff_add)
  have False if "k \<in> region_pages (vm_VirtualAddress m) r" "k \<in> region_pages (vm_VirtualAddress m) s" for k
  proof -
    have "2 \<le> holders (vm_VirtualAddress m) R k" using that by (simp add: R)
    moreover have "holders (vm_VirtualAddress m) R k \<le> 1"
      using assms(1) by (auto simp: mem_owned_def split: if_splits intro: le_trans)
    ultimately show False by simp
  qed
  then show ?thesis by blast
qed

lemma mem_owned_used:
  assumes "mem_owned R m" and "r \<in># R" and "k \<in> region_pages (vm_VirtualAddress m) r"
  shows "page_used (vm_RegionBitmap m) k"
proof -
  have "1 \<le> holders (vm_VirtualAddress m) R k"
    using holders_remove [OF assms(2)] assms(3) by simp
  moreover have "holders (vm_VirtualAddress m) R k \<le> of_bool (page_used (vm_RegionBitmap m) k)"
    using assms(1) by (simp add: mem_owned_def)
  ultimately show ?thesis by (cases "page_used (vm_RegionBitmap m) k") simp_all
qed

lemma mem_owned_run:
  assumes "mem_owned R m" and "r \<in># R" and "0 < unat (snd r) div 4096"
  shows "all_bits (vm_RegionBitmap m) True (region_index (vm_VirtualAddress m) r) (unat (snd r) div 4096)"
proof -
  let ?i = "region_index (vm_VirtualAddress m) r" and ?n = "unat (snd r) div 4096"
  have u: "page_used (vm_RegionBitmap m) k" if "?i \<le> k" "k < ?i + ?n" for k
    using mem_owned_used [OF assms(1,2), of k] that by (simp add: region_pages_def)
  have "page_used (vm_RegionBitmap m) (?i + ?n - 1)"
    using assms(3) by (intro u) linarith+
  then have "?i + ?n \<le> length (vm_RegionBitmap m)"
    using assms(3) unfolding page_used_def by linarith
  with u show ?thesis by (auto simp: all_bits_def page_used_def)
qed

lemma mem_owned_inv: "mem_owned R m \<Longrightarrow> mem_inv m"
  by (simp add: mem_owned_def)

text \<open>A region without pages can join and leave the owners at will.\<close>

lemma mem_owned_empty_region:
  assumes "page_aligned (vm_VirtualAddress m) r" and "snd r = 0"
  shows "mem_owned (add_mset r R) m \<longleftrightarrow> mem_owned R m"
  using assms by (auto simp: mem_owned_def region_pages_def)

lemma mem_owned_remove: "mem_owned R m \<Longrightarrow> mem_owned (R - S) m"
  unfolding mem_owned_def holders_def
  by (meson diff_subset_eq_self in_diffD le_trans multiset_filter_mono size_mset_mono)

text \<open>\<open>mem_owned\<close> reads the base address, the bitmap, the initialised flag and the available
  size only.\<close>

lemma mem_owned_LastFreeIndex [simp]:
  "mem_owned R (m\<lparr>vm_LastFreeIndex := x\<rparr>) = mem_owned R m"
  by (simp add: mem_owned_def mem_inv_def)

subsection \<open>Page counts and page hints\<close>

lemma unat_page_count:
  "unat (sz :: u64) div 4096 < 2 ^ 32 \<Longrightarrow> unat (ucast (sz div PAGE_SIZE) :: u32) = unat sz div 4096"
  by (simp add: unat_ucast_u64_u32 unat_div)

lemma unat_offset:
  "unat (ucast (index :: u32) * PAGE_SIZE :: u64) = 4096 * unat index"
proof -
  have "unat index * 4096 < 2 ^ 64" using less_trans [OF unat_less_u32 [of index]] by simp
  then show ?thesis by (simp add: unat_word_ariths unat_ucast_u32_u64)
qed

lemma free_hint:
  assumes "unat (va - base :: u64) div 4096 < 2 ^ 32"
  shows "unat (word_of_int (sint (va - base) sdiv 4096) :: u32) = unat (va - base) div 4096"
proof -
  let ?d = "unat (va - base)"
  have "?d < 2 ^ 63" using assms by simp
  then have "sint (va - base) = int ?d" by (rule sint_small)
  then have "sint (va - base) sdiv 4096 = int (?d div 4096)"
    by (simp only: int_sdiv_4096)
  moreover have "unat (word_of_int (int (?d div 4096)) :: u32) = ?d div 4096"
    using assms by (simp only: of_int_of_nat_eq unat_of_nat) simp
  ultimately show ?thesis by presburger
qed

subsection \<open>Allocation\<close>

lemma mem_inv_count_le: "mem_inv m \<Longrightarrow> unat (vm_AvailableMemorySize m) \<le> 4096 * length (vm_RegionBitmap m)"
  by (simp add: mem_inv_def count_le_length)

lemma mem_inv_fits:
  assumes "mem_inv m" and "\<not> vm_AvailableMemorySize m < sz"
  shows "unat sz div 4096 < 2 ^ 32"
proof -
  have "unat sz \<le> unat (vm_AvailableMemorySize m)" using assms(2) by (simp add: not_less word_le_nat_alt)
  also have "\<dots> \<le> 4096 * length (vm_RegionBitmap m)" using assms(1) by (rule mem_inv_count_le)
  finally have "unat sz div 4096 \<le> length (vm_RegionBitmap m)"
    by (simp add: div_le_mono [of _ "4096 * length (vm_RegionBitmap m)" 4096, simplified])
  then show ?thesis using assms(1) by (simp add: mem_inv_def)
qed

text \<open>What a successful allocation did, as one obtain rule.\<close>

lemma alloc_SomeE:
  assumes "mem_inv m" and "find_spec (FindClearBits rtl) False"
    and "AllocateVgpuMemory rtl sz m = (Some d, m')"
  obtains index x where
    "md_VirtualAddress d = vm_VirtualAddress m + ucast (index :: u32) * PAGE_SIZE"
    "md_PhysicalAddress d = vm_PhysicalAddress m + ucast index * PAGE_SIZE"
    "m' = m\<lparr>vm_RegionBitmap := set_range (vm_RegionBitmap m) (unat index) (unat sz div 4096) True,
            vm_AvailableMemorySize := vm_AvailableMemorySize m - sz, vm_LastFreeIndex := x\<rparr>"
    "sz \<le> vm_AvailableMemorySize m"
    "0 < unat sz div 4096 \<longrightarrow> all_bits (vm_RegionBitmap m) False (unat index) (unat sz div 4096)"
proof -
  let ?bm = "vm_RegionBitmap m" and ?page = "ucast (sz div PAGE_SIZE) :: u32"
  let ?i = "FindClearBits rtl ?bm ?page (vm_LastFreeIndex m)"
  have le: "\<not> vm_AvailableMemorySize m < sz"
    using assms(3) by (auto simp: AllocateVgpuMemory_def split: if_splits)
  have n: "unat ?page = unat sz div 4096"
    by (rule unat_page_count [OF mem_inv_fits [OF assms(1) le]])
  have f: "?i \<noteq> BITMAP_FAILED"
    using assms(3) le
    by (auto simp: AllocateVgpuMemory_def RtlFindClearBitsAndSet_def Let_def split: if_splits)
  show thesis
  proof (rule that [of ?i "?i + ?page"])
    show "0 < unat sz div 4096 \<longrightarrow> all_bits ?bm False (unat ?i) (unat sz div 4096)"
    proof
      assume "0 < unat sz div 4096"
      then have "0 < ?page" using n by (simp add: word_less_nat_alt)
      moreover have "length ?bm < 2 ^ 32" using assms(1) by (simp add: mem_inv_def)
      ultimately show "all_bits ?bm False (unat ?i) (unat sz div 4096)"
        using assms(2) f n unfolding find_spec_def by (metis (no_types, lifting))
    qed
  qed (use assms(3) le f n in \<open>auto simp: AllocateVgpuMemory_def RtlFindClearBitsAndSet_def Let_def\<close>)
qed

lemma alloc_None_same: "AllocateVgpuMemory rtl sz m = (None, m') \<Longrightarrow> m' = m"
  by (auto simp: AllocateVgpuMemory_def RtlFindClearBitsAndSet_def Let_def split: if_splits)

lemma mem_inv_set_used:
  assumes "mem_inv m" and "unat sz mod 4096 = 0"
    and "all_bits (vm_RegionBitmap m) False i (unat sz div 4096)"
  shows "mem_inv (m\<lparr>vm_RegionBitmap := set_range (vm_RegionBitmap m) i (unat sz div 4096) True,
            vm_AvailableMemorySize := vm_AvailableMemorySize m - sz, vm_LastFreeIndex := x\<rparr>)"
proof -
  let ?bm = "vm_RegionBitmap m" and ?n = "unat sz div 4096"
  have c: "count_list ?bm False = count_list (set_range ?bm i ?n True) False + ?n"
    using count_set_range(1) [OF assms(3)] by simp
  have s: "unat sz = 4096 * ?n" using page_multiple [OF assms(2)] by (rule sym)
  have "unat (vm_AvailableMemorySize m) = 4096 * count_list ?bm False"
    using assms(1) by (simp add: mem_inv_def)
  then have a: "unat (vm_AvailableMemorySize m) = 4096 * count_list (set_range ?bm i ?n True) False + unat sz"
    using c s by simp
  then have "sz \<le> vm_AvailableMemorySize m" by (simp add: word_le_nat_alt)
  then have "unat (vm_AvailableMemorySize m - sz) = 4096 * count_list (set_range ?bm i ?n True) False"
    using a by (simp add: unat_sub)
  then show ?thesis using assms(1,3) by (simp add: mem_inv_def length_set_range)
qed

lemma alloc_region_index:
  "region_index base (base + ucast (index :: u32) * PAGE_SIZE, sz) = unat index"
  "page_aligned base (base + ucast index * PAGE_SIZE, sz) \<longleftrightarrow> unat sz mod 4096 = 0"
  by (simp_all add: region_index_def page_aligned_def unat_offset)

lemma alloc_owned:
  assumes "mem_owned R m" and "rtl_ok rtl" and "unat sz mod 4096 = 0"
    and "AllocateVgpuMemory rtl sz m = (Some d, m')"
  shows "mem_owned (add_mset (md_VirtualAddress d, sz) R) m'"
proof -
  let ?n = "unat sz div 4096" and ?bm = "vm_RegionBitmap m"
  have inv: "mem_inv m" and fs: "find_spec (FindClearBits rtl) False"
    using assms(1,2) by (simp_all add: mem_owned_def rtl_ok_def)
  obtain index x where
    va: "md_VirtualAddress d = vm_VirtualAddress m + ucast (index :: u32) * PAGE_SIZE"
    and m': "m' = m\<lparr>vm_RegionBitmap := set_range ?bm (unat index) ?n True,
            vm_AvailableMemorySize := vm_AvailableMemorySize m - sz, vm_LastFreeIndex := x\<rparr>"
    and run: "0 < ?n \<longrightarrow> all_bits ?bm False (unat index) ?n"
    by (rule alloc_SomeE [OF inv fs assms(4)], rule that, assumption, assumption, assumption)
  show ?thesis
  proof (cases "0 < ?n")
    case False
    with assms(3) have "unat sz = 0" by (metis add.right_neutral div_mult_mod_eq gr0I mult_is_0)
    then have "sz = 0" by (simp add: unat_eq_0)
    moreover have "m' = m\<lparr>vm_LastFreeIndex := x\<rparr>" using False \<open>sz = 0\<close> by (simp add: m')
    ultimately show ?thesis
      using assms(1) by (simp add: mem_owned_empty_region va alloc_region_index)
  next
    case True
    note ab = run [THEN mp, OF True]
    have "mem_inv m'" unfolding m' by (rule mem_inv_set_used [OF inv assms(3) ab])
    moreover have "holders (vm_VirtualAddress m) (add_mset (md_VirtualAddress d, sz) R) k
        \<le> of_bool (page_used (set_range ?bm (unat index) ?n True) k)" for k
    proof -
      have old: "holders (vm_VirtualAddress m) R k \<le> of_bool (page_used ?bm k)"
        using assms(1) by (simp add: mem_owned_def)
      show ?thesis
      proof (cases "unat index \<le> k \<and> k < unat index + ?n")
        case in_run: True
        then have "k < length ?bm" "\<not> ?bm ! k" using ab by (auto simp: all_bits_def)
        with in_run ab old show ?thesis
          by (simp add: va region_pages_def alloc_region_index page_used_def length_set_range nth_set_range)
      next
        case False
        then have "page_used (set_range ?bm (unat index) ?n True) k = page_used ?bm k"
          using ab by (auto simp: page_used_def length_set_range nth_set_range)
        with False old show ?thesis
          by (auto simp: va region_pages_def alloc_region_index)
      qed
    qed
    ultimately show ?thesis
      using assms(1,3) by (auto simp: mem_owned_def m' va alloc_region_index)
  qed
qed

subsection \<open>Release\<close>

text \<open>Clearing a run of set bits: the common part of \<open>FreeVgpuMemory\<close> and
  \<open>ReallocVgpuMemory\<close>.\<close>

lemma find_set_at:
  assumes "rtl_ok rtl" and "length bm < 2 ^ 32" and "0 < n"
    and "unat hint = i" and "unat (c :: u32) = n" and "all_bits bm True i n"
  shows "RtlFindSetBitsAndClear rtl bm c hint = (hint, set_range bm i n False) \<and> hint \<noteq> BITMAP_FAILED"
proof -
  have "0 < c" using assms(3,5) by (simp add: word_less_nat_alt)
  then have f: "FindSetBits rtl bm c hint = hint"
    using assms by (simp add: rtl_ok_def starts_at_hint_def)
  have "i + n < 2 ^ 32" using assms(2,6) by (simp add: all_bits_def)
  then have "unat hint \<noteq> unat BITMAP_FAILED"
    using assms(3,4) by (simp add: BITMAP_FAILED_def)
  then have "hint \<noteq> BITMAP_FAILED" by blast
  then show ?thesis using f assms(4,5) by (simp add: RtlFindSetBitsAndClear_def Let_def)
qed

lemma mem_inv_set_free:
  assumes "mem_inv m" and "unat sz mod 4096 = 0"
    and "all_bits (vm_RegionBitmap m) True i (unat sz div 4096)"
  shows "mem_inv (m\<lparr>vm_RegionBitmap := set_range (vm_RegionBitmap m) i (unat sz div 4096) False,
            vm_LastFreeIndex := x, vm_AvailableMemorySize := vm_AvailableMemorySize m + sz\<rparr>)"
proof -
  define n where "n = unat sz div 4096"
  let ?bm = "vm_RegionBitmap m"
  let ?bm' = "set_range ?bm i n False"
  have ab: "all_bits ?bm True i n" using assms(3) by (simp add: n_def)
  have c: "count_list ?bm' False = count_list ?bm False + n"
    using count_set_range(2) [OF ab] by simp
  have s: "unat sz = 4096 * n" unfolding n_def using page_multiple [OF assms(2)] by (rule sym)
  have a: "unat (vm_AvailableMemorySize m) = 4096 * count_list ?bm False" and l: "length ?bm < 2 ^ 32"
    using assms(1) by (simp_all add: mem_inv_def)
  have "count_list ?bm' False \<le> length ?bm"
    using count_le_length [of ?bm' False] length_set_range [OF ab] by simp
  with c l have "unat (vm_AvailableMemorySize m) + unat sz < 2 ^ 64" by (simp add: a s)
  then have "unat (vm_AvailableMemorySize m + sz) = 4096 * count_list ?bm' False"
    using c by (simp add: unat_word_ariths a s)
  then show ?thesis
    unfolding n_def [symmetric] using assms(1) ab by (simp add: mem_inv_def length_set_range)
qed

lemma region_bounds:
  assumes "mem_owned R m" and "r \<in># R" and "0 < unat (snd r) div 4096"
  shows "region_index (vm_VirtualAddress m) r + unat (snd r) div 4096 \<le> length (vm_RegionBitmap m)"
    and "length (vm_RegionBitmap m) < 2 ^ 32"
    and "unat (fst r - vm_VirtualAddress m) + unat (snd r) \<le> 4096 * length (vm_RegionBitmap m)"
proof -
  show le: "region_index (vm_VirtualAddress m) r + unat (snd r) div 4096 \<le> length (vm_RegionBitmap m)"
    using mem_owned_run [OF assms] by (simp add: all_bits_def)
  show "length (vm_RegionBitmap m) < 2 ^ 32" using assms(1) by (simp add: mem_owned_def mem_inv_def)
  have "page_aligned (vm_VirtualAddress m) r" using assms(1,2) by (simp add: mem_owned_def)
  then have "unat (fst r - vm_VirtualAddress m) mod 4096 = 0" "unat (snd r) mod 4096 = 0"
    by (simp_all add: page_aligned_def)
  from this [THEN page_multiple]
  have "unat (fst r - vm_VirtualAddress m) + unat (snd r)
      = 4096 * (region_index (vm_VirtualAddress m) r + unat (snd r) div 4096)"
    by (simp only: region_index_def add_mult_distrib2)
  then show "unat (fst r - vm_VirtualAddress m) + unat (snd r) \<le> 4096 * length (vm_RegionBitmap m)"
    using mult_le_mono2 [OF le, of 4096] by (simp only:)
qed

lemma free_owned_eq:
  assumes "mem_owned R m" and "rtl_ok rtl" and "r \<in># R" and "0 < unat (snd r) div 4096"
  shows "\<exists>x. FreeVgpuMemory rtl (fst r) (snd r) m =
    m\<lparr>vm_RegionBitmap := set_range (vm_RegionBitmap m) (region_index (vm_VirtualAddress m) r)
         (unat (snd r) div 4096) False,
      vm_LastFreeIndex := x, vm_AvailableMemorySize := vm_AvailableMemorySize m + snd r\<rparr>"
proof -
  let ?bm = "vm_RegionBitmap m" and ?i = "region_index (vm_VirtualAddress m) r"
  let ?n = "unat (snd r) div 4096"
  let ?hint = "word_of_int (sint (fst r - vm_VirtualAddress m) sdiv 4096) :: u32"
  note b = region_bounds [OF assms(1,3,4)]
  have "?i < 2 ^ 32" using b(1,2) by linarith
  then have h: "unat ?hint = ?i" unfolding region_index_def by (rule free_hint)
  have c: "unat (ucast (snd r div PAGE_SIZE) :: u32) = ?n"
    using b(1,2) by (intro unat_page_count) linarith
  from find_set_at [OF assms(2) b(2) assms(4) h c mem_owned_run [OF assms(1,3,4)]]
  show ?thesis by (auto simp: FreeVgpuMemory_def Let_def)
qed

text \<open>Giving up the pages of a run that one owner held.\<close>

lemma mem_owned_release:
  assumes "mem_owned R m" and "all_bits (vm_RegionBitmap m) True i (unat sz div 4096)"
    and "unat sz mod 4096 = 0" and "\<forall>s \<in># R'. page_aligned (vm_VirtualAddress m) s"
    and "\<And>k. holders (vm_VirtualAddress m) R' k + of_bool (i \<le> k \<and> k < i + unat sz div 4096)
              \<le> holders (vm_VirtualAddress m) R k"
  shows "mem_owned R' (m\<lparr>vm_RegionBitmap := set_range (vm_RegionBitmap m) i (unat sz div 4096) False,
            vm_LastFreeIndex := x, vm_AvailableMemorySize := vm_AvailableMemorySize m + sz\<rparr>)"
    (is "mem_owned R' ?m'")
proof -
  let ?bm = "vm_RegionBitmap m" and ?base = "vm_VirtualAddress m"
  have "mem_inv ?m'" by (rule mem_inv_set_free [OF mem_owned_inv [OF assms(1)] assms(3,2)])
  moreover have "holders ?base R' k \<le> of_bool (page_used (vm_RegionBitmap ?m') k)" for k
  proof -
    have old: "holders ?base R k \<le> of_bool (page_used ?bm k)"
      using assms(1) unfolding mem_owned_def by blast
    show ?thesis
    proof (cases "i \<le> k \<and> k < i + unat sz div 4096")
      case True
      then have "holders ?base R' k + 1 \<le> of_bool (page_used ?bm k)"
        using assms(5) [of k] old by simp
      also have "\<dots> \<le> 1" by simp
      finally show ?thesis by simp
    next
      case False
      then have "page_used (vm_RegionBitmap ?m') k = page_used ?bm k"
        using assms(2) by (auto simp: page_used_def length_set_range nth_set_range)
      with False show ?thesis using assms(5) [of k] old by simp
    qed
  qed
  ultimately show ?thesis using assms(4) by (simp add: mem_owned_def)
qed

lemma free_owned:
  assumes "mem_owned R m" and "rtl_ok rtl" and "r \<in># R"
  shows "mem_owned (R - {#r#}) (FreeVgpuMemory rtl (fst r) (snd r) m)"
proof (cases "0 < unat (snd r) div 4096")
  case True
  have al: "unat (snd r) mod 4096 = 0" and ral: "\<forall>s \<in># R. page_aligned (vm_VirtualAddress m) s"
    using assms(1,3) by (auto simp: mem_owned_def page_aligned_def)
  obtain x where eq: "FreeVgpuMemory rtl (fst r) (snd r) m =
    m\<lparr>vm_RegionBitmap := set_range (vm_RegionBitmap m) (region_index (vm_VirtualAddress m) r)
         (unat (snd r) div 4096) False,
      vm_LastFreeIndex := x, vm_AvailableMemorySize := vm_AvailableMemorySize m + snd r\<rparr>"
    using free_owned_eq [OF assms True] by blast
  show ?thesis
    unfolding eq
  proof (rule mem_owned_release [where R = R])
    show "all_bits (vm_RegionBitmap m) True (region_index (vm_VirtualAddress m) r) (unat (snd r) div 4096)"
      by (rule mem_owned_run [OF assms(1,3) True])
    show "\<forall>s \<in># R - {#r#}. page_aligned (vm_VirtualAddress m) s" using ral by (meson in_diffD)
  next
    fix k
    show "holders (vm_VirtualAddress m) (R - {#r#}) k
        + of_bool (region_index (vm_VirtualAddress m) r \<le> k
            \<and> k < region_index (vm_VirtualAddress m) r + unat (snd r) div 4096)
        \<le> holders (vm_VirtualAddress m) R k"
      using holders_remove [OF assms(3)] by (simp add: region_pages_def)
  qed (rule assms(1) al)+
next
  case False
  have "page_aligned (vm_VirtualAddress m) r" using assms(1,3) by (auto simp: mem_owned_def)
  with False have "unat (snd r) = 0"
    by (metis add.right_neutral div_mult_mod_eq gr0I mult_is_0 page_aligned_def)
  then have z: "snd r = 0" by (simp add: unat_eq_0)
  then have "\<exists>x. FreeVgpuMemory rtl (fst r) (snd r) m = m\<lparr>vm_LastFreeIndex := x\<rparr>"
    by (auto simp: FreeVgpuMemory_def RtlFindSetBitsAndClear_def Let_def
        intro: exI [of _ "vm_LastFreeIndex m"])
  with mem_owned_remove [OF assms(1), of "{#r#}"] show ?thesis by auto
qed

lemma realloc_owned:
  assumes own: "mem_owned R m" and rtl: "rtl_ok rtl" and r: "(va, orig) \<in># R"
    and t: "unat target mod 4096 = 0" and lt: "target < orig"
  shows "\<exists>m'. ReallocVgpuMemory rtl va orig target m = (True, m')
    \<and> mem_owned (add_mset (va, target) (R - {#(va, orig)#})) m'"
proof -
  let ?bm = "vm_RegionBitmap m" and ?base = "vm_VirtualAddress m"
  let ?i = "region_index ?base (va, orig)" and ?c = "orig - target"
  define a b where "a = unat orig div 4096" and "b = unat target div 4096"
  have al: "page_aligned ?base (va, orig)" using own r by (auto simp: mem_owned_def)
  have o4: "unat orig = 4096 * a" and t4: "unat target = 4096 * b"
    using al t page_multiple [of "unat orig"] page_multiple [of "unat target"]
    by (simp_all add: page_aligned_def a_def b_def)
  have c4: "unat ?c = 4096 * (a - b)" and ba: "b < a"
    using lt o4 t4 by (simp_all add: unat_sub word_le_nat_alt word_less_nat_alt diff_mult_distrib2)
  have n: "0 < unat (snd (va, orig)) div 4096" using ba by (simp add: o4)
  note bd = region_bounds [OF own r n]
  have run: "all_bits ?bm True ?i a"
    using mem_owned_run [OF own r n] by (simp add: a_def)
  then have tail: "all_bits ?bm True (?i + b) (a - b)"
    using ba by (auto simp: all_bits_def)
  let ?hint = "ucast ((va - ?base + target) div PAGE_SIZE) :: u32"
  have va4: "unat (va - ?base) = 4096 * ?i"
    using al page_multiple [of "unat (va - ?base)"] by (simp add: page_aligned_def region_index_def)
  have "?i + a \<le> length ?bm" "length ?bm < 2 ^ 32" using bd(1,2) by (simp_all add: a_def)
  then have sm: "?i + a < 2 ^ 32" by linarith
  have "unat (va - ?base + target) = 4096 * (?i + b)"
    using sm ba by (simp add: unat_word_ariths va4 t4)
  then have h: "unat ?hint = ?i + b"
    using sm ba by (subst unat_page_count) simp_all
  have cn: "unat (ucast (?c div PAGE_SIZE) :: u32) = a - b"
    using sm by (subst unat_page_count) (simp_all add: c4)
  have pos: "0 < a - b" using ba by simp
  from find_set_at [OF rtl bd(2) pos h cn tail]
  have eq: "ReallocVgpuMemory rtl va orig target m =
    (True, m\<lparr>vm_RegionBitmap := set_range ?bm (?i + b) (unat ?c div 4096) False,
      vm_LastFreeIndex := ?hint, vm_AvailableMemorySize := vm_AvailableMemorySize m + ?c\<rparr>)"
    using lt by (auto simp: ReallocVgpuMemory_def Let_def c4)
  moreover have "mem_owned (add_mset (va, target) (R - {#(va, orig)#}))
      (m\<lparr>vm_RegionBitmap := set_range ?bm (?i + b) (unat ?c div 4096) False,
      vm_LastFreeIndex := ?hint, vm_AvailableMemorySize := vm_AvailableMemorySize m + ?c\<rparr>)"
  proof (rule mem_owned_release [where R = R])
    show "all_bits ?bm True (?i + b) (unat ?c div 4096)" using tail by (simp add: c4)
    show "unat ?c mod 4096 = 0" by (simp add: c4)
    show "\<forall>s \<in># add_mset (va, target) (R - {#(va, orig)#}). page_aligned ?base s"
      using own al t by (auto simp: mem_owned_def page_aligned_def dest: in_diffD)
  next
    fix k
    show "holders ?base (add_mset (va, target) (R - {#(va, orig)#})) k
        + of_bool (?i + b \<le> k \<and> k < ?i + b + unat ?c div 4096) \<le> holders ?base R k"
      using holders_remove [OF r, of ?base k] ba
      by (auto simp: region_pages_def region_index_def c4 o4 t4)
  qed (rule own)
  ultimately show ?thesis by blast
qed

subsection \<open>Initialisation\<close>

lemma count_replicate_all: "count_list (replicate n b) b = n"
  by (simp add: count_replicate)

lemma whole_pages: "n mod 32768 = 0 \<Longrightarrow> n mod 4096 = (0::nat)"
  using mod_mod_cancel [of 4096 32768 n] by simp

lemma initialize_owned:
  assumes "buffer \<noteq> 0" and "unat sz mod 4096 = 0" and "unat sz div 4096 < 2 ^ 32"
    and "unat va + unat sz \<le> 2 ^ 64"
  shows "mem_owned {#} (InitializeVgpuMemory buffer va pa sz m)"
proof -
  have "4096 * (unat sz div 4096) = unat sz" using assms(2) by (rule page_multiple)
  then show ?thesis
    using assms
    by (simp add: mem_owned_def mem_inv_def InitializeVgpuMemory_def Let_def
        unat_page_count count_replicate_all)
qed

subsection \<open>The first-fit search meets the kernel's documentation\<close>

lemma filter_ge_upt: "filter (\<lambda>i. h \<le> i) [0..<m] = [h..<m]"
  by (induction m) auto

lemma first_fit_found:
  assumes "i + unat (n :: u32) \<le> length bm" "length bm < 2 ^ 32" "0 < n"
  shows "unat (of_nat i :: u32) = i \<and> (of_nat i :: u32) \<noteq> BITMAP_FAILED"
proof -
  have "0 < unat n" using assms(3) by (simp add: word_less_nat_alt)
  then have lt: "i < 2 ^ 32 - 1" using assms(1,2) by simp
  then have u: "unat (of_nat i :: u32) = i" by (simp add: unat_of_nat)
  with lt have "unat (of_nat i :: u32) \<noteq> unat BITMAP_FAILED" by (simp add: BITMAP_FAILED_def)
  with u show ?thesis by auto
qed

lemma first_fit_spec:
  assumes "length bm < 2 ^ 32" "0 < n"
  shows "if first_fit b bm n hint = BITMAP_FAILED then \<forall>k. \<not> all_bits bm b k (unat n)
         else all_bits bm b (unat (first_fit b bm n hint)) (unat n)"
proof -
  let ?ok = "\<lambda>i. list_all (\<lambda>j. bm ! j = b) [i..<i + unat n]"
  let ?starts = "[0..<Suc (length bm) - unat n]"
  have ab: "all_bits bm b i (unat n) \<longleftrightarrow> i \<in> set ?starts \<and> ?ok i" for i
    by (auto simp: all_bits_def list_all_iff)
  have found: "unat (of_nat i :: u32) = i \<and> (of_nat i :: u32) \<noteq> BITMAP_FAILED" if "i \<in> set ?starts" for i
    using that assms by (intro first_fit_found) auto
  have some: "i \<in> set ?starts \<and> ?ok i" if "List.find ?ok xs = Some i" "set xs \<subseteq> set ?starts" for i xs
    using that unfolding find_Some_iff by (meson nth_mem subsetD)
  show ?thesis
  proof (cases "List.find ?ok (filter (\<lambda>i. unat hint \<le> i) ?starts)")
    case (Some i)
    then have "i \<in> set ?starts \<and> ?ok i" by (rule some) auto
    with Some found [of i] ab [of i] show ?thesis by (simp add: first_fit_def Let_def)
  next
    case none: None
    show ?thesis
    proof (cases "List.find ?ok ?starts")
      case (Some i)
      then have "i \<in> set ?starts \<and> ?ok i" by (rule some) auto
      with none Some found [of i] ab [of i] show ?thesis by (simp add: first_fit_def Let_def)
    next
      case None
      then have "\<forall>k. \<not> all_bits bm b k (unat n)" unfolding ab by (auto simp: find_None_iff)
      with none None show ?thesis by (simp add: first_fit_def Let_def)
    qed
  qed
qed

lemma first_fit_hint:
  assumes "all_bits bm b (unat hint) (unat n)"
  shows "first_fit b bm n hint = hint"
proof -
  let ?ok = "\<lambda>i. list_all (\<lambda>j. bm ! j = b) [i..<i + unat n]"
  have "unat hint < Suc (length bm) - unat n" using assms by (auto simp: all_bits_def)
  then have "filter (\<lambda>i. unat hint \<le> i) [0..<Suc (length bm) - unat n]
      = unat hint # [Suc (unat hint)..<Suc (length bm) - unat n]"
    unfolding filter_ge_upt by (rule upt_conv_Cons)
  moreover have "?ok (unat hint)" using assms by (auto simp: all_bits_def list_all_iff)
  ultimately show ?thesis by (simp add: first_fit_def Let_def)
qed

lemma rtl_first_fit_ok: "rtl_ok rtl_first_fit"
  using first_fit_spec first_fit_hint
  by (simp add: rtl_ok_def rtl_first_fit_def find_spec_def starts_at_hint_def)

subsection \<open>The contract of the clients\<close>

text \<open>A client allocates regions and releases regions it holds; \<open>region_run\<close> is such a
  client, which may hold the same region twice only if the allocator gave it out twice.\<close>

datatype 'r region_op = RegionAlloc u64 | RegionFree 'r

fun region_run :: "(u64 \<Rightarrow> 's \<Rightarrow> 'r option \<times> 's) \<Rightarrow> ('r \<Rightarrow> 's \<Rightarrow> 's)
    \<Rightarrow> 'r region_op list \<Rightarrow> 's \<Rightarrow> 'r multiset \<Rightarrow> 'r multiset \<times> 's" where
  "region_run alloc release [] s held = (held, s)"
| "region_run alloc release (RegionAlloc sz # ops) s held =
     (case alloc sz s of
        (None, s') \<Rightarrow> region_run alloc release ops s' held
      | (Some r, s') \<Rightarrow> region_run alloc release ops s' (add_mset r held))"
| "region_run alloc release (RegionFree r # ops) s held =
     (if r \<in># held then region_run alloc release ops (release r s) (held - {#r#})
      else region_run alloc release ops s held)"

fun region_op_ok :: "'r region_op \<Rightarrow> bool" where
  "region_op_ok (RegionAlloc sz) \<longleftrightarrow> unat sz mod 4096 = 0"
| "region_op_ok (RegionFree r) \<longleftrightarrow> True"

locale region_allocator =
  fixes alloc :: "u64 \<Rightarrow> 's \<Rightarrow> 'r option \<times> 's"
    and release :: "'r \<Rightarrow> 's \<Rightarrow> 's"
    and inv :: "'r multiset \<Rightarrow> 's \<Rightarrow> bool"
    and pages :: "'s \<Rightarrow> 'r \<Rightarrow> nat set"
  assumes alloc_Some: "inv R s \<Longrightarrow> unat sz mod 4096 = 0 \<Longrightarrow> alloc sz s = (Some r, s')
      \<Longrightarrow> inv (add_mset r R) s'"
    and alloc_None: "inv R s \<Longrightarrow> alloc sz s = (None, s') \<Longrightarrow> s' = s"
    and release_inv: "inv R s \<Longrightarrow> r \<in># R \<Longrightarrow> inv (R - {#r#}) (release r s)"
    and disjoint: "inv R s \<Longrightarrow> {#r, q#} \<subseteq># R \<Longrightarrow> pages s r \<inter> pages s q = {}"
begin

lemma run_inv:
  assumes "inv held s" and "list_all region_op_ok ops"
    and "region_run alloc release ops s held = (held', s')"
  shows "inv held' s'"
  using assms
proof (induction ops arbitrary: s held)
  case Nil
  then show ?case by simp
next
  case (Cons a ops)
  show ?case
  proof (cases a)
    case (RegionAlloc sz)
    obtain x t where a: "alloc sz s = (x, t)" by (cases "alloc sz s")
    show ?thesis
    proof (cases x)
      case None
      then have "t = s" using alloc_None [OF Cons.prems(1)] a by simp
      with Cons None a RegionAlloc show ?thesis by simp
    next
      case (Some r)
      then have "inv (add_mset r held) t"
        using alloc_Some [OF Cons.prems(1), of sz r t] a Cons.prems(2) RegionAlloc by simp
      with Cons Some a RegionAlloc show ?thesis by simp
    qed
  next
    case (RegionFree r)
    show ?thesis
    proof (cases "r \<in># held")
      case True
      from Cons.prems True RegionFree show ?thesis
        by (intro Cons.IH [OF release_inv [OF Cons.prems(1) True]]) simp_all
    next
      case False
      with Cons RegionFree show ?thesis by simp
    qed
  qed
qed

lemma run_disjoint:
  assumes "inv {#} s" and "list_all region_op_ok ops"
    and "region_run alloc release ops s {#} = (held, s')" and "{#r, q#} \<subseteq># held"
  shows "pages s' r \<inter> pages s' q = {}"
  using disjoint [OF run_inv [OF assms(1-3)] assms(4)] .

end

text \<open>An allocator that can also give up the tail of a region.\<close>

locale shrinking_allocator = region_allocator alloc release inv pages
  for alloc :: "u64 \<Rightarrow> 's \<Rightarrow> 'r option \<times> 's" and release inv pages +
  fixes shrink :: "'r \<Rightarrow> u64 \<Rightarrow> 's \<Rightarrow> bool \<times> 's"
    and size_of :: "'r \<Rightarrow> u64"
    and resized :: "'r \<Rightarrow> u64 \<Rightarrow> 'r"
  assumes shrink_inv: "inv R s \<Longrightarrow> r \<in># R \<Longrightarrow> unat t mod 4096 = 0 \<Longrightarrow> t < size_of r
      \<Longrightarrow> \<exists>s'. shrink r t s = (True, s') \<and> inv (add_mset (resized r t) (R - {#r#})) s'"
begin

lemma shrink_then_release:
  assumes "inv R s" "r \<in># R" "unat t mod 4096 = 0" "t < size_of r"
  shows "inv (R - {#r#}) (release (resized r t) (snd (shrink r t s)))"
proof -
  obtain s' where s': "shrink r t s = (True, s')" "inv (add_mset (resized r t) (R - {#r#})) s'"
    using shrink_inv [OF assms] by blast
  from release_inv [OF s'(2), of "resized r t"] show ?thesis by (simp add: s'(1))
qed

end

text \<open>The code's operations as such an allocator, on the pair of the bitmap routines and the
  allocator's state.\<close>

definition alloc_region :: "u64 \<Rightarrow> rtl_bitmap_lib \<times> vgpu_memory \<Rightarrow> region option \<times> rtl_bitmap_lib \<times> vgpu_memory" where
  "alloc_region sz s =
     (case AllocateVgpuMemory (fst s) sz (snd s) of
        (None, m) \<Rightarrow> (None, fst s, m)
      | (Some d, m) \<Rightarrow> (Some (md_VirtualAddress d, sz), fst s, m))"

definition free_region :: "region \<Rightarrow> rtl_bitmap_lib \<times> vgpu_memory \<Rightarrow> rtl_bitmap_lib \<times> vgpu_memory" where
  "free_region r s = (fst s, FreeVgpuMemory (fst s) (fst r) (snd r) (snd s))"

definition shrink_region :: "region \<Rightarrow> u64 \<Rightarrow> rtl_bitmap_lib \<times> vgpu_memory \<Rightarrow> bool \<times> rtl_bitmap_lib \<times> vgpu_memory" where
  "shrink_region r t s =
     (let (ok, m) = ReallocVgpuMemory (fst s) (fst r) (snd r) t (snd s) in (ok, fst s, m))"

definition owned_by :: "region multiset \<Rightarrow> rtl_bitmap_lib \<times> vgpu_memory \<Rightarrow> bool" where
  "owned_by R s \<longleftrightarrow> rtl_ok (fst s) \<and> mem_owned R (snd s)"

definition pages_of :: "rtl_bitmap_lib \<times> vgpu_memory \<Rightarrow> region \<Rightarrow> nat set" where
  "pages_of s r = region_pages (vm_VirtualAddress (snd s)) r"

interpretation vgpu_regions: shrinking_allocator
  alloc_region free_region owned_by pages_of shrink_region snd "\<lambda>r t. (fst r, t)"
proof
  fix R s r s' and sz :: u64
  assume "owned_by R s" "unat sz mod 4096 = 0" "alloc_region sz s = (Some r, s')"
  then show "owned_by (add_mset r R) s'"
    by (auto simp: owned_by_def alloc_region_def intro: alloc_owned split: prod.splits option.splits)
next
  fix R s s' and sz :: u64
  assume "alloc_region sz s = (None, s')"
  then show "s' = s"
    using alloc_None_same [of "fst s" sz "snd s"]
    by (cases "AllocateVgpuMemory (fst s) sz (snd s)")
      (auto simp: alloc_region_def prod_eq_iff split: option.splits)
next
  fix R s r
  assume "owned_by R s" "r \<in># R"
  then show "owned_by (R - {#r#}) (free_region r s)"
    by (simp add: owned_by_def free_region_def free_owned)
next
  fix R s r q
  assume "owned_by R s" "{#r, q#} \<subseteq># R"
  then show "pages_of s r \<inter> pages_of s q = {}"
    unfolding owned_by_def pages_of_def by (blast dest: mem_owned_disjoint)
next
  fix R s r and t :: u64
  assume "owned_by R s" "r \<in># R" "unat t mod 4096 = 0" "t < snd r"
  then show "\<exists>s'. shrink_region r t s = (True, s') \<and> owned_by (add_mset (fst r, t) (R - {#r#})) s'"
    using realloc_owned [of R "snd s" "fst s" "fst r" "snd r" t]
    by (auto simp: owned_by_def shrink_region_def)
qed

subsection \<open>Properties\<close>

text \<open>C26: from an initialised allocator, whatever page-multiple regions clients allocate and
  release in whatever order, no two regions held at the same time share a page.  The block is a
  multiple of 32K, as the \<open>ASSERT\<close> of \<open>InitializeVgpuMemory\<close> expects.\<close>

theorem vgpu_regions_disjoint:
  assumes "rtl_ok rtl" and "buffer \<noteq> 0" and "unat sz mod 32768 = 0" and "unat sz div 4096 < 2 ^ 32"
    and "unat va + unat sz \<le> 2 ^ 64" and "list_all region_op_ok ops"
    and "region_run alloc_region free_region ops (rtl, InitializeVgpuMemory buffer va pa sz m) {#}
         = (held, s')"
    and "{#r, q#} \<subseteq># held"
  shows "pages_of s' r \<inter> pages_of s' q = {}"
proof (rule vgpu_regions.run_disjoint [OF _ assms(6-8)])
  show "owned_by {#} (rtl, InitializeVgpuMemory buffer va pa sz m)"
    using assms(1,2,4,5) whole_pages [OF assms(3)] by (simp add: owned_by_def initialize_owned)
qed

text \<open>A small allocator of eight pages at address 0x100000, on which the properties are
  exercised.\<close>

definition sample_memory :: vgpu_memory where
  "sample_memory = InitializeVgpuMemory 1 0x100000 0x200000 0x8000 VgpuMemory_static"

definition sample_state :: "bool list \<Rightarrow> u64 \<Rightarrow> u32 \<Rightarrow> vgpu_memory" where
  "sample_state bm free hint = \<lparr>vm_bInitialize = True, vm_VirtualAddress = 0x100000,
     vm_PhysicalAddress = 0x200000, vm_AvailableMemorySize = free, vm_RegionBitmap = bm,
     vm_RegionBitmapBuffer = 1, vm_LastFreeIndex = hint\<rparr>"

lemma sample_memory_state: "sample_memory = sample_state (replicate 8 False) 0x8000 0"
  by code_simp

text \<open>Four steps on it: two allocations, a release and a third allocation, which the first
  free run of three pages after the released page serves.\<close>

lemma sample_steps:
  "AllocateVgpuMemory rtl_first_fit 0x1000 sample_memory =
     (Some \<lparr>md_VirtualAddress = 0x100000, md_PhysicalAddress = 0x200000\<rparr>,
      sample_state [True, False, False, False, False, False, False, False] 0x7000 1)"
  "AllocateVgpuMemory rtl_first_fit 0x2000
      (sample_state [True, False, False, False, False, False, False, False] 0x7000 1) =
     (Some \<lparr>md_VirtualAddress = 0x101000, md_PhysicalAddress = 0x201000\<rparr>,
      sample_state [True, True, True, False, False, False, False, False] 0x5000 3)"
  "FreeVgpuMemory rtl_first_fit 0x100000 0x1000
      (sample_state [True, True, True, False, False, False, False, False] 0x5000 3) =
     sample_state [False, True, True, False, False, False, False, False] 0x6000 0"
  "AllocateVgpuMemory rtl_first_fit 0x3000
      (sample_state [False, True, True, False, False, False, False, False] 0x6000 0) =
     (Some \<lparr>md_VirtualAddress = 0x103000, md_PhysicalAddress = 0x203000\<rparr>,
      sample_state [False, True, True, True, True, True, False, False] 0x3000 6)"
  by code_simp+

lemma sample_memory_owned: "mem_owned {#} sample_memory"
  unfolding sample_memory_def by (rule initialize_owned) simp_all

definition sample_ops :: "region region_op list" where
  "sample_ops = [RegionAlloc 0x1000, RegionAlloc 0x2000, RegionFree (0x100000, 0x1000), RegionAlloc 0x3000]"

lemma sample_run:
  "region_run alloc_region free_region sample_ops (rtl_first_fit, sample_memory) {#}
   = ({#(0x103000, 0x3000), (0x101000, 0x2000)#}, rtl_first_fit,
      sample_state [False, True, True, True, True, True, False, False] 0x3000 6)"
  by (simp add: sample_ops_def alloc_region_def free_region_def sample_steps)

theorem vgpu_regions_disjoint_witness:
  "fst (region_run alloc_region free_region sample_ops (rtl_first_fit, sample_memory) {#})
     = {#(0x103000, 0x3000), (0x101000, 0x2000)#}
   \<and> region_pages 0x100000 (0x103000, 0x3000) \<inter> region_pages 0x100000 (0x101000, 0x2000) = {}"
  using vgpu_regions_disjoint [OF rtl_first_fit_ok _ _ _ _ _ sample_run [unfolded sample_memory_def],
      of "(0x103000, 0x3000)" "(0x101000, 0x2000)"] sample_run
  by (simp add: pages_of_def sample_ops_def sample_state_def)

lemma alloc_then_free:
  assumes "rtl_ok rtl" and "mem_owned R m" and "unat sz mod 4096 = 0" and "0 < sz"
    and "AllocateVgpuMemory rtl sz m = (Some d, m')"
  shows "\<exists>hint. FreeVgpuMemory rtl (md_VirtualAddress d) sz m' = m\<lparr>vm_LastFreeIndex := hint\<rparr>"
proof -
  have inv: "mem_inv m" and fs: "find_spec (FindClearBits rtl) False"
    using assms(1,2) by (simp_all add: mem_owned_def rtl_ok_def)
  have n: "0 < unat sz div 4096"
    using assms(3,4) page_multiple [of "unat sz"] by (auto simp: word_less_nat_alt)
  obtain index x where
    va: "md_VirtualAddress d = vm_VirtualAddress m + ucast (index :: u32) * PAGE_SIZE"
    and m': "m' = m\<lparr>vm_RegionBitmap := set_range (vm_RegionBitmap m) (unat index) (unat sz div 4096) True,
            vm_AvailableMemorySize := vm_AvailableMemorySize m - sz, vm_LastFreeIndex := x\<rparr>"
    and run: "0 < unat sz div 4096 \<longrightarrow> all_bits (vm_RegionBitmap m) False (unat index) (unat sz div 4096)"
    by (rule alloc_SomeE [OF inv fs assms(5)], rule that, assumption, assumption, assumption)
  have "mem_owned (add_mset (md_VirtualAddress d, sz) R) m'"
    by (rule alloc_owned [OF assms(2,1,3,5)])
  from free_owned_eq [OF this assms(1), of "(md_VirtualAddress d, sz)"] n
  obtain h where "FreeVgpuMemory rtl (md_VirtualAddress d) sz m' =
    m'\<lparr>vm_RegionBitmap := set_range (vm_RegionBitmap m')
         (region_index (vm_VirtualAddress m') (md_VirtualAddress d, sz)) (unat sz div 4096) False,
      vm_LastFreeIndex := h, vm_AvailableMemorySize := vm_AvailableMemorySize m' + sz\<rparr>"
    by auto
  then show ?thesis
    using run n
    by (auto simp: m' va alloc_region_index set_range_set_range intro!: exI [of _ h])
qed

text \<open>Releasing a region right after it was allocated gives back the bitmap and the
  available size (only the search hint differs).\<close>

theorem alloc_free_roundtrip:
  assumes "rtl_ok rtl" and "mem_owned R m" and "unat sz mod 4096 = 0" and "0 < sz"
    and "AllocateVgpuMemory rtl sz m = (Some d, m')"
  shows "\<exists>hint. FreeVgpuMemory rtl (md_VirtualAddress d) sz m' = m\<lparr>vm_LastFreeIndex := hint\<rparr>"
  using assms by (rule alloc_then_free)

text \<open>C36: an allocation of at least a page is refused exactly when the available size is too
  small or no run of that many free pages exists; nothing changes then.\<close>

theorem alloc_refused_iff:
  assumes "rtl_ok rtl" and "mem_inv m" and "unat sz mod 4096 = 0" and "0 < sz"
  shows "fst (AllocateVgpuMemory rtl sz m) = None
    \<longleftrightarrow> vm_AvailableMemorySize m < sz
        \<or> (\<forall>k. \<not> all_bits (vm_RegionBitmap m) False k (unat sz div 4096))"
proof (cases "vm_AvailableMemorySize m < sz")
  case True
  then show ?thesis by (simp add: AllocateVgpuMemory_def)
next
  case False
  let ?page = "ucast (sz div PAGE_SIZE) :: u32" and ?bm = "vm_RegionBitmap m"
  have n: "unat ?page = unat sz div 4096"
    by (rule unat_page_count [OF mem_inv_fits [OF assms(2) False]])
  have "0 < unat sz div 4096"
    using assms(3,4) page_multiple [of "unat sz"] by (auto simp: word_less_nat_alt)
  then have "0 < ?page" using n by (simp add: word_less_nat_alt)
  moreover have "length ?bm < 2 ^ 32" using assms(2) by (simp add: mem_inv_def)
  ultimately have "if FindClearBits rtl ?bm ?page (vm_LastFreeIndex m) = BITMAP_FAILED
      then \<forall>k. \<not> all_bits ?bm False k (unat ?page)
      else all_bits ?bm False (unat (FindClearBits rtl ?bm ?page (vm_LastFreeIndex m))) (unat ?page)"
    using assms(1) unfolding rtl_ok_def find_spec_def by blast
  with False show ?thesis
    by (auto simp: AllocateVgpuMemory_def RtlFindClearBitsAndSet_def Let_def n split: if_splits)
qed

text \<open>Giving up the tail of a held region succeeds, leaves the client with the front of
  it, and releasing that front leaves the other regions owned.\<close>

theorem realloc_shrinks:
  assumes "rtl_ok rtl" and "mem_owned R m" and "(va, orig) \<in># R" and "unat target mod 4096 = 0"
    and "target < orig"
  shows "\<exists>m'. ReallocVgpuMemory rtl va orig target m = (True, m')
    \<and> mem_owned (add_mset (va, target) (R - {#(va, orig)#})) m'
    \<and> mem_owned (R - {#(va, orig)#}) (FreeVgpuMemory rtl va target m')"
  using realloc_owned [OF assms(2,1,3-5)]
    vgpu_regions.shrink_then_release [of R "(rtl, m)" "(va, orig)" target] assms
  by (auto simp: owned_by_def shrink_region_def free_region_def)

theorem alloc_free_roundtrip_witness:
  "\<exists>hint. FreeVgpuMemory rtl_first_fit 0x100000 0x1000
      (sample_state [True, False, False, False, False, False, False, False] 0x7000 1)
    = sample_memory\<lparr>vm_LastFreeIndex := hint\<rparr>"
  using alloc_free_roundtrip [OF rtl_first_fit_ok sample_memory_owned _ _ sample_steps(1)] by simp

theorem alloc_refused_iff_witness:
  "fst (AllocateVgpuMemory rtl_first_fit 0x1000 sample_memory) \<noteq> None
   \<and> \<not> (vm_AvailableMemorySize sample_memory < 0x1000
        \<or> (\<forall>k. \<not> all_bits (vm_RegionBitmap sample_memory) False k (unat (0x1000 :: u64) div 4096)))"
  using alloc_refused_iff [where sz = "0x1000", OF rtl_first_fit_ok mem_owned_inv [OF sample_memory_owned]]
  by (simp add: sample_steps(1))

theorem realloc_shrinks_witness:
  "\<exists>m'. ReallocVgpuMemory rtl_first_fit 0x101000 0x2000 0x1000
       (sample_state [False, True, True, True, True, True, False, False] 0x3000 6) = (True, m')
     \<and> mem_owned {#(0x103000, 0x3000)#} (FreeVgpuMemory rtl_first_fit 0x101000 0x1000 m')"
proof -
  have "owned_by {#(0x103000, 0x3000), (0x101000, 0x2000)#} (rtl_first_fit,
      sample_state [False, True, True, True, True, True, False, False] 0x3000 6)"
    using vgpu_regions.run_inv [OF _ _ sample_run] rtl_first_fit_ok sample_memory_owned
    by (simp add: owned_by_def sample_ops_def)
  then have "mem_owned {#(0x103000, 0x3000), (0x101000, 0x2000)#}
      (sample_state [False, True, True, True, True, True, False, False] 0x3000 6)"
    by (simp add: owned_by_def)
  from realloc_shrinks [where va = "0x101000" and orig = "0x2000" and target = "0x1000", OF rtl_first_fit_ok this]
  show ?thesis by auto
qed

end
