(* ===== verification/Vgpu_Wire.thy ===== *)
theory Vgpu_Wire
  imports Vgpu_Prelude
begin

text \<open>
  The command protocol of \<open>command.h\<close>: the enumeration of control types, the packed
  structures of the commands and responses the driver uses, and their bytes.  Every
  structure is a record with the fields of the source in their order; \<open>zero_...\<close> is the
  structure in freshly allocated (zeroed) pool memory, which the builders of \<open>command.c\<close>
  fill in; \<open>encode_...\<close> is its memory image and \<open>decode_...\<close> what a reader of that memory
  sees through the structure's field offsets.  \<open>gpu_cmd\<close> joins the command structures:
  \<open>encode_cmd\<close> is the memory behind \<open>pBuf\<close> and \<open>cmd_hdr\<close> the cast of \<open>pBuf\<close> to the common
  header.
\<close>

unbundle bit_operations_syntax

subsection \<open>Control types\<close>

datatype virtio_gpu_ctrl_type =
    VIRTIO_GPU_UNDEFINED
  | VIRTIO_GPU_CMD_GET_DISPLAY_INFO
  | VIRTIO_GPU_CMD_RESOURCE_CREATE_2D
  | VIRTIO_GPU_CMD_RESOURCE_UNREF
  | VIRTIO_GPU_CMD_SET_SCANOUT
  | VIRTIO_GPU_CMD_RESOURCE_FLUSH
  | VIRTIO_GPU_CMD_TRANSFER_TO_HOST_2D
  | VIRTIO_GPU_CMD_RESOURCE_ATTACH_BACKING
  | VIRTIO_GPU_CMD_RESOURCE_DETACH_BACKING
  | VIRTIO_GPU_CMD_GET_CAPSET_INFO
  | VIRTIO_GPU_CMD_GET_CAPSET
  | VIRTIO_GPU_CMD_GET_EDID
  | VIRTIO_GPU_CMD_RESOURCE_ASSIGN_UUID
  | VIRTIO_GPU_CMD_RESOURCE_CREATE_BLOB
  | VIRTIO_GPU_CMD_SET_SCANOUT_BLOB
  | VIRTIO_GPU_CMD_CTX_CREATE
  | VIRTIO_GPU_CMD_CTX_DESTROY
  | VIRTIO_GPU_CMD_CTX_ATTACH_RESOURCE
  | VIRTIO_GPU_CMD_CTX_DETACH_RESOURCE
  | VIRTIO_GPU_CMD_RESOURCE_CREATE_3D
  | VIRTIO_GPU_CMD_TRANSFER_TO_HOST_3D
  | VIRTIO_GPU_CMD_TRANSFER_FROM_HOST_3D
  | VIRTIO_GPU_CMD_SUBMIT_3D
  | VIRTIO_GPU_CMD_RESOURCE_MAP_BLOB
  | VIRTIO_GPU_CMD_RESOURCE_UNMAP_BLOB
  | VIRTIO_GPU_CMD_UPDATE_CURSOR
  | VIRTIO_GPU_CMD_MOVE_CURSOR
  | VIRTIO_GPU_RESP_OK_NODATA
  | VIRTIO_GPU_RESP_OK_DISPLAY_INFO
  | VIRTIO_GPU_RESP_OK_CAPSET_INFO
  | VIRTIO_GPU_RESP_OK_CAPSET
  | VIRTIO_GPU_RESP_OK_EDID
  | VIRTIO_GPU_RESP_OK_RESOURCE_UUID
  | VIRTIO_GPU_RESP_OK_MAP_INFO
  | VIRTIO_GPU_RESP_ERR_UNSPEC
  | VIRTIO_GPU_RESP_ERR_OUT_OF_MEMORY
  | VIRTIO_GPU_RESP_ERR_INVALID_SCANOUT_ID
  | VIRTIO_GPU_RESP_ERR_INVALID_RESOURCE_ID
  | VIRTIO_GPU_RESP_ERR_INVALID_CONTEXT_ID
  | VIRTIO_GPU_RESP_ERR_INVALID_PARAMETER

text \<open>The value C gives each enumerator.\<close>

fun ctrl_type_code :: "virtio_gpu_ctrl_type \<Rightarrow> u32" where
  "ctrl_type_code VIRTIO_GPU_UNDEFINED = 0x0000"
| "ctrl_type_code VIRTIO_GPU_CMD_GET_DISPLAY_INFO = 0x0100"
| "ctrl_type_code VIRTIO_GPU_CMD_RESOURCE_CREATE_2D = 0x0101"
| "ctrl_type_code VIRTIO_GPU_CMD_RESOURCE_UNREF = 0x0102"
| "ctrl_type_code VIRTIO_GPU_CMD_SET_SCANOUT = 0x0103"
| "ctrl_type_code VIRTIO_GPU_CMD_RESOURCE_FLUSH = 0x0104"
| "ctrl_type_code VIRTIO_GPU_CMD_TRANSFER_TO_HOST_2D = 0x0105"
| "ctrl_type_code VIRTIO_GPU_CMD_RESOURCE_ATTACH_BACKING = 0x0106"
| "ctrl_type_code VIRTIO_GPU_CMD_RESOURCE_DETACH_BACKING = 0x0107"
| "ctrl_type_code VIRTIO_GPU_CMD_GET_CAPSET_INFO = 0x0108"
| "ctrl_type_code VIRTIO_GPU_CMD_GET_CAPSET = 0x0109"
| "ctrl_type_code VIRTIO_GPU_CMD_GET_EDID = 0x010A"
| "ctrl_type_code VIRTIO_GPU_CMD_RESOURCE_ASSIGN_UUID = 0x010B"
| "ctrl_type_code VIRTIO_GPU_CMD_RESOURCE_CREATE_BLOB = 0x010C"
| "ctrl_type_code VIRTIO_GPU_CMD_SET_SCANOUT_BLOB = 0x010D"
| "ctrl_type_code VIRTIO_GPU_CMD_CTX_CREATE = 0x0200"
| "ctrl_type_code VIRTIO_GPU_CMD_CTX_DESTROY = 0x0201"
| "ctrl_type_code VIRTIO_GPU_CMD_CTX_ATTACH_RESOURCE = 0x0202"
| "ctrl_type_code VIRTIO_GPU_CMD_CTX_DETACH_RESOURCE = 0x0203"
| "ctrl_type_code VIRTIO_GPU_CMD_RESOURCE_CREATE_3D = 0x0204"
| "ctrl_type_code VIRTIO_GPU_CMD_TRANSFER_TO_HOST_3D = 0x0205"
| "ctrl_type_code VIRTIO_GPU_CMD_TRANSFER_FROM_HOST_3D = 0x0206"
| "ctrl_type_code VIRTIO_GPU_CMD_SUBMIT_3D = 0x0207"
| "ctrl_type_code VIRTIO_GPU_CMD_RESOURCE_MAP_BLOB = 0x0208"
| "ctrl_type_code VIRTIO_GPU_CMD_RESOURCE_UNMAP_BLOB = 0x0209"
| "ctrl_type_code VIRTIO_GPU_CMD_UPDATE_CURSOR = 0x0300"
| "ctrl_type_code VIRTIO_GPU_CMD_MOVE_CURSOR = 0x0301"
| "ctrl_type_code VIRTIO_GPU_RESP_OK_NODATA = 0x1100"
| "ctrl_type_code VIRTIO_GPU_RESP_OK_DISPLAY_INFO = 0x1101"
| "ctrl_type_code VIRTIO_GPU_RESP_OK_CAPSET_INFO = 0x1102"
| "ctrl_type_code VIRTIO_GPU_RESP_OK_CAPSET = 0x1103"
| "ctrl_type_code VIRTIO_GPU_RESP_OK_EDID = 0x1104"
| "ctrl_type_code VIRTIO_GPU_RESP_OK_RESOURCE_UUID = 0x1105"
| "ctrl_type_code VIRTIO_GPU_RESP_OK_MAP_INFO = 0x1106"
| "ctrl_type_code VIRTIO_GPU_RESP_ERR_UNSPEC = 0x1200"
| "ctrl_type_code VIRTIO_GPU_RESP_ERR_OUT_OF_MEMORY = 0x1201"
| "ctrl_type_code VIRTIO_GPU_RESP_ERR_INVALID_SCANOUT_ID = 0x1202"
| "ctrl_type_code VIRTIO_GPU_RESP_ERR_INVALID_RESOURCE_ID = 0x1203"
| "ctrl_type_code VIRTIO_GPU_RESP_ERR_INVALID_CONTEXT_ID = 0x1204"
| "ctrl_type_code VIRTIO_GPU_RESP_ERR_INVALID_PARAMETER = 0x1205"

definition all_ctrl_types :: "virtio_gpu_ctrl_type list" where
  "all_ctrl_types =
     [VIRTIO_GPU_UNDEFINED,
      VIRTIO_GPU_CMD_GET_DISPLAY_INFO,
      VIRTIO_GPU_CMD_RESOURCE_CREATE_2D,
      VIRTIO_GPU_CMD_RESOURCE_UNREF,
      VIRTIO_GPU_CMD_SET_SCANOUT,
      VIRTIO_GPU_CMD_RESOURCE_FLUSH,
      VIRTIO_GPU_CMD_TRANSFER_TO_HOST_2D,
      VIRTIO_GPU_CMD_RESOURCE_ATTACH_BACKING,
      VIRTIO_GPU_CMD_RESOURCE_DETACH_BACKING,
      VIRTIO_GPU_CMD_GET_CAPSET_INFO,
      VIRTIO_GPU_CMD_GET_CAPSET,
      VIRTIO_GPU_CMD_GET_EDID,
      VIRTIO_GPU_CMD_RESOURCE_ASSIGN_UUID,
      VIRTIO_GPU_CMD_RESOURCE_CREATE_BLOB,
      VIRTIO_GPU_CMD_SET_SCANOUT_BLOB,
      VIRTIO_GPU_CMD_CTX_CREATE,
      VIRTIO_GPU_CMD_CTX_DESTROY,
      VIRTIO_GPU_CMD_CTX_ATTACH_RESOURCE,
      VIRTIO_GPU_CMD_CTX_DETACH_RESOURCE,
      VIRTIO_GPU_CMD_RESOURCE_CREATE_3D,
      VIRTIO_GPU_CMD_TRANSFER_TO_HOST_3D,
      VIRTIO_GPU_CMD_TRANSFER_FROM_HOST_3D,
      VIRTIO_GPU_CMD_SUBMIT_3D,
      VIRTIO_GPU_CMD_RESOURCE_MAP_BLOB,
      VIRTIO_GPU_CMD_RESOURCE_UNMAP_BLOB,
      VIRTIO_GPU_CMD_UPDATE_CURSOR,
      VIRTIO_GPU_CMD_MOVE_CURSOR,
      VIRTIO_GPU_RESP_OK_NODATA,
      VIRTIO_GPU_RESP_OK_DISPLAY_INFO,
      VIRTIO_GPU_RESP_OK_CAPSET_INFO,
      VIRTIO_GPU_RESP_OK_CAPSET,
      VIRTIO_GPU_RESP_OK_EDID,
      VIRTIO_GPU_RESP_OK_RESOURCE_UUID,
      VIRTIO_GPU_RESP_OK_MAP_INFO,
      VIRTIO_GPU_RESP_ERR_UNSPEC,
      VIRTIO_GPU_RESP_ERR_OUT_OF_MEMORY,
      VIRTIO_GPU_RESP_ERR_INVALID_SCANOUT_ID,
      VIRTIO_GPU_RESP_ERR_INVALID_RESOURCE_ID,
      VIRTIO_GPU_RESP_ERR_INVALID_CONTEXT_ID,
      VIRTIO_GPU_RESP_ERR_INVALID_PARAMETER]"

text \<open>The enumerator a \<open>switch\<close> on a header's type field selects.\<close>

definition ctrl_type_of :: "u32 \<Rightarrow> virtio_gpu_ctrl_type option" where
  "ctrl_type_of c = List.find (\<lambda>t. ctrl_type_code t = c) all_ctrl_types"

lemma ctrl_type_of_code [simp]: "ctrl_type_of (ctrl_type_code t) = Some t"
  by (cases t) (simp_all add: ctrl_type_of_def all_ctrl_types_def)

lemma ctrl_type_code_inject [simp]: "ctrl_type_code s = ctrl_type_code t \<longleftrightarrow> s = t"
  by (metis ctrl_type_of_code option.inject)

definition VIRTIO_GPU_FLAG_FENCE :: u32 where "VIRTIO_GPU_FLAG_FENCE = 1"

subsection \<open>The common header\<close>

text \<open>The last field is the padding of three bytes.\<close>

record virtio_gpu_ctrl_hdr =
  hdr_type :: u32
  hdr_flags :: u32
  hdr_fence_id :: u64
  hdr_ctx_id :: u32
  hdr_ring_idx :: u8
  hdr_padding :: "u8 \<times> u8 \<times> u8"

definition zero_hdr :: virtio_gpu_ctrl_hdr where
  "zero_hdr = \<lparr>hdr_type = 0, hdr_flags = 0, hdr_fence_id = 0, hdr_ctx_id = 0, hdr_ring_idx = 0,
     hdr_padding = (0, 0, 0)\<rparr>"

definition encode_hdr :: "virtio_gpu_ctrl_hdr \<Rightarrow> u8 list" where
  "encode_hdr h = le32 (hdr_type h) @ le32 (hdr_flags h) @ le64 (hdr_fence_id h)
     @ le32 (hdr_ctx_id h)
     @ (case hdr_padding h of (p, q, r) \<Rightarrow> [hdr_ring_idx h, p, q, r])"

definition decode_hdr :: "u8 list \<Rightarrow> virtio_gpu_ctrl_hdr" where
  "decode_hdr bs = \<lparr>hdr_type = rd32 bs 0, hdr_flags = rd32 bs 4, hdr_fence_id = rd64 bs 8,
     hdr_ctx_id = rd32 bs 16, hdr_ring_idx = bs ! 20, hdr_padding = (bs ! 21, bs ! 22, bs ! 23)\<rparr>"

lemma length_encode_hdr [simp, wire_simps]: "length (encode_hdr h) = 24"
  by (simp add: encode_hdr_def split: prod.splits)

lemma decode_encode_hdr [simp, wire_simps]: "decode_hdr (encode_hdr h @ ys) = h"
  by (cases "hdr_padding h") (simp add: decode_hdr_def encode_hdr_def wire_simps nth_append)

lemma decode_encode_hdr_only [simp]: "decode_hdr (encode_hdr h) = h"
  using decode_encode_hdr [of h "[]"] by simp

subsection \<open>Command and response structures\<close>

record virtio_gpu_box =
  bx_x :: u32
  bx_y :: u32
  bx_z :: u32
  bx_w :: u32
  bx_h :: u32
  bx_d :: u32

definition zero_box :: virtio_gpu_box where
  "zero_box =
    \<lparr>bx_x = 0, bx_y = 0, bx_z = 0, bx_w = 0, bx_h = 0, bx_d = 0\<rparr>"

definition encode_box :: "virtio_gpu_box \<Rightarrow> u8 list" where
  "encode_box c =
     le32 (bx_x c) @ le32 (bx_y c) @ le32 (bx_z c) @ le32 (bx_w c) @ le32 (bx_h c) @
     le32 (bx_d c)"

definition decode_box :: "u8 list \<Rightarrow> virtio_gpu_box" where
  "decode_box bs =
    \<lparr>bx_x = rd32 bs 0, bx_y = rd32 bs 4, bx_z = rd32 bs 8, bx_w = rd32 bs 12,
     bx_h = rd32 bs 16, bx_d = rd32 bs 20\<rparr>"

lemma length_encode_box [simp, wire_simps]:
  "length (encode_box c) = 24"
  by (simp add: encode_box_def)

lemma decode_encode_box [simp, wire_simps]:
  "decode_box (encode_box c @ ys) = c"
  by (simp add: decode_box_def encode_box_def wire_simps)

record virtio_gpu_rect =
  rc_x :: u32
  rc_y :: u32
  rc_width :: u32
  rc_height :: u32

definition zero_rect :: virtio_gpu_rect where
  "zero_rect =
    \<lparr>rc_x = 0, rc_y = 0, rc_width = 0, rc_height = 0\<rparr>"

definition encode_rect :: "virtio_gpu_rect \<Rightarrow> u8 list" where
  "encode_rect c =
     le32 (rc_x c) @ le32 (rc_y c) @ le32 (rc_width c) @ le32 (rc_height c)"

definition decode_rect :: "u8 list \<Rightarrow> virtio_gpu_rect" where
  "decode_rect bs =
    \<lparr>rc_x = rd32 bs 0, rc_y = rd32 bs 4, rc_width = rd32 bs 8, rc_height = rd32 bs 12\<rparr>"

lemma length_encode_rect [simp, wire_simps]:
  "length (encode_rect c) = 16"
  by (simp add: encode_rect_def)

lemma decode_encode_rect [simp, wire_simps]:
  "decode_rect (encode_rect c @ ys) = c"
  by (simp add: decode_rect_def encode_rect_def wire_simps)

record virtio_gpu_get_capset_info =
  gci_hdr :: virtio_gpu_ctrl_hdr
  gci_capset_index :: u32
  gci_padding :: u32

definition zero_get_capset_info :: virtio_gpu_get_capset_info where
  "zero_get_capset_info =
    \<lparr>gci_hdr = zero_hdr, gci_capset_index = 0, gci_padding = 0\<rparr>"

definition encode_get_capset_info :: "virtio_gpu_get_capset_info \<Rightarrow> u8 list" where
  "encode_get_capset_info c =
     encode_hdr (gci_hdr c) @ le32 (gci_capset_index c) @ le32 (gci_padding c)"

definition decode_get_capset_info :: "u8 list \<Rightarrow> virtio_gpu_get_capset_info" where
  "decode_get_capset_info bs =
    \<lparr>gci_hdr = decode_hdr bs, gci_capset_index = rd32 bs 24, gci_padding = rd32 bs 28\<rparr>"

lemma length_encode_get_capset_info [simp, wire_simps]:
  "length (encode_get_capset_info c) = 32"
  by (simp add: encode_get_capset_info_def)

lemma decode_encode_get_capset_info [simp, wire_simps]:
  "decode_get_capset_info (encode_get_capset_info c) = c"
  by (simp add: decode_get_capset_info_def encode_get_capset_info_def wire_simps)

record virtio_gpu_resp_capset_info =
  rci_hdr :: virtio_gpu_ctrl_hdr
  rci_capset_id :: u32
  rci_capset_max_version :: u32
  rci_capset_max_size :: u32
  rci_padding :: u32

definition encode_resp_capset_info :: "virtio_gpu_resp_capset_info \<Rightarrow> u8 list" where
  "encode_resp_capset_info c =
     encode_hdr (rci_hdr c) @ le32 (rci_capset_id c) @ le32 (rci_capset_max_version c) @
     le32 (rci_capset_max_size c) @ le32 (rci_padding c)"

definition decode_resp_capset_info :: "u8 list \<Rightarrow> virtio_gpu_resp_capset_info" where
  "decode_resp_capset_info bs =
    \<lparr>rci_hdr = decode_hdr bs, rci_capset_id = rd32 bs 24,
     rci_capset_max_version = rd32 bs 28, rci_capset_max_size = rd32 bs 32,
     rci_padding = rd32 bs 36\<rparr>"

lemma length_encode_resp_capset_info [simp, wire_simps]:
  "length (encode_resp_capset_info c) = 40"
  by (simp add: encode_resp_capset_info_def)

lemma decode_encode_resp_capset_info [simp, wire_simps]:
  "decode_resp_capset_info (encode_resp_capset_info c) = c"
  by (simp add: decode_resp_capset_info_def encode_resp_capset_info_def wire_simps)

text \<open>\<open>debug_name\<close> is an array of 64 characters: its bytes are the list, cut or filled up with
  zeros to that length.\<close>

record virtio_gpu_ctx_create =
  cc_hdr :: virtio_gpu_ctrl_hdr
  cc_nlen :: u32
  cc_context_init :: u32
  cc_debug_name :: "u8 list"

definition zero_ctx_create :: virtio_gpu_ctx_create where
  "zero_ctx_create = \<lparr>cc_hdr = zero_hdr, cc_nlen = 0, cc_context_init = 0,
     cc_debug_name = replicate 64 0\<rparr>"

definition encode_ctx_create :: "virtio_gpu_ctx_create \<Rightarrow> u8 list" where
  "encode_ctx_create c = encode_hdr (cc_hdr c) @ le32 (cc_nlen c) @ le32 (cc_context_init c)
     @ take 64 (cc_debug_name c @ replicate 64 0)"

definition decode_ctx_create :: "u8 list \<Rightarrow> virtio_gpu_ctx_create" where
  "decode_ctx_create bs = \<lparr>cc_hdr = decode_hdr bs, cc_nlen = rd32 bs 24,
     cc_context_init = rd32 bs 28, cc_debug_name = take 64 (drop 32 bs)\<rparr>"

lemma length_encode_ctx_create [simp, wire_simps]: "length (encode_ctx_create c) = 96"
  by (simp add: encode_ctx_create_def)

lemma decode_encode_ctx_create [simp, wire_simps]:
  "length (cc_debug_name c) = 64 \<Longrightarrow> decode_ctx_create (encode_ctx_create c) = c"
  by (simp add: decode_ctx_create_def encode_ctx_create_def wire_simps)

record virtio_gpu_resource_create_3d =
  c3_hdr :: virtio_gpu_ctrl_hdr
  c3_resource_id :: u32
  c3_target :: u32
  c3_format :: u32
  c3_bind :: u32
  c3_width :: u32
  c3_height :: u32
  c3_depth :: u32
  c3_array_size :: u32
  c3_last_level :: u32
  c3_nr_samples :: u32
  c3_flags :: u32
  c3_padding :: u32

definition zero_resource_create_3d :: virtio_gpu_resource_create_3d where
  "zero_resource_create_3d =
    \<lparr>c3_hdr = zero_hdr, c3_resource_id = 0, c3_target = 0, c3_format = 0, c3_bind = 0,
     c3_width = 0, c3_height = 0, c3_depth = 0, c3_array_size = 0, c3_last_level = 0,
     c3_nr_samples = 0, c3_flags = 0, c3_padding = 0\<rparr>"

definition encode_resource_create_3d :: "virtio_gpu_resource_create_3d \<Rightarrow> u8 list" where
  "encode_resource_create_3d c =
     encode_hdr (c3_hdr c) @ le32 (c3_resource_id c) @ le32 (c3_target c) @
     le32 (c3_format c) @ le32 (c3_bind c) @ le32 (c3_width c) @ le32 (c3_height c) @
     le32 (c3_depth c) @ le32 (c3_array_size c) @ le32 (c3_last_level c) @
     le32 (c3_nr_samples c) @ le32 (c3_flags c) @ le32 (c3_padding c)"

definition decode_resource_create_3d :: "u8 list \<Rightarrow> virtio_gpu_resource_create_3d" where
  "decode_resource_create_3d bs =
    \<lparr>c3_hdr = decode_hdr bs, c3_resource_id = rd32 bs 24, c3_target = rd32 bs 28,
     c3_format = rd32 bs 32, c3_bind = rd32 bs 36, c3_width = rd32 bs 40,
     c3_height = rd32 bs 44, c3_depth = rd32 bs 48, c3_array_size = rd32 bs 52,
     c3_last_level = rd32 bs 56, c3_nr_samples = rd32 bs 60, c3_flags = rd32 bs 64,
     c3_padding = rd32 bs 68\<rparr>"

lemma length_encode_resource_create_3d [simp, wire_simps]:
  "length (encode_resource_create_3d c) = 72"
  by (simp add: encode_resource_create_3d_def)

lemma decode_encode_resource_create_3d [simp, wire_simps]:
  "decode_resource_create_3d (encode_resource_create_3d c) = c"
  by (simp add: decode_resource_create_3d_def encode_resource_create_3d_def wire_simps)

record virtio_gpu_resource_create_2d =
  c2_hdr :: virtio_gpu_ctrl_hdr
  c2_resource_id :: u32
  c2_format :: u32
  c2_width :: u32
  c2_height :: u32

definition zero_resource_create_2d :: virtio_gpu_resource_create_2d where
  "zero_resource_create_2d =
    \<lparr>c2_hdr = zero_hdr, c2_resource_id = 0, c2_format = 0, c2_width = 0, c2_height = 0\<rparr>"

definition encode_resource_create_2d :: "virtio_gpu_resource_create_2d \<Rightarrow> u8 list" where
  "encode_resource_create_2d c =
     encode_hdr (c2_hdr c) @ le32 (c2_resource_id c) @ le32 (c2_format c) @
     le32 (c2_width c) @ le32 (c2_height c)"

definition decode_resource_create_2d :: "u8 list \<Rightarrow> virtio_gpu_resource_create_2d" where
  "decode_resource_create_2d bs =
    \<lparr>c2_hdr = decode_hdr bs, c2_resource_id = rd32 bs 24, c2_format = rd32 bs 28,
     c2_width = rd32 bs 32, c2_height = rd32 bs 36\<rparr>"

lemma length_encode_resource_create_2d [simp, wire_simps]:
  "length (encode_resource_create_2d c) = 40"
  by (simp add: encode_resource_create_2d_def)

lemma decode_encode_resource_create_2d [simp, wire_simps]:
  "decode_resource_create_2d (encode_resource_create_2d c) = c"
  by (simp add: decode_resource_create_2d_def encode_resource_create_2d_def wire_simps)

record virtio_gpu_resource_attach_backing =
  ab_hdr :: virtio_gpu_ctrl_hdr
  ab_resource_id :: u32
  ab_nr_entries :: u32
  ab_gpa :: u64
  ab_size :: u32

definition zero_resource_attach_backing :: virtio_gpu_resource_attach_backing where
  "zero_resource_attach_backing =
    \<lparr>ab_hdr = zero_hdr, ab_resource_id = 0, ab_nr_entries = 0, ab_gpa = 0, ab_size = 0\<rparr>"

definition encode_resource_attach_backing :: "virtio_gpu_resource_attach_backing \<Rightarrow> u8 list" where
  "encode_resource_attach_backing c =
     encode_hdr (ab_hdr c) @ le32 (ab_resource_id c) @ le32 (ab_nr_entries c) @
     le64 (ab_gpa c) @ le32 (ab_size c)"

definition decode_resource_attach_backing :: "u8 list \<Rightarrow> virtio_gpu_resource_attach_backing" where
  "decode_resource_attach_backing bs =
    \<lparr>ab_hdr = decode_hdr bs, ab_resource_id = rd32 bs 24, ab_nr_entries = rd32 bs 28,
     ab_gpa = rd64 bs 32, ab_size = rd32 bs 40\<rparr>"

lemma length_encode_resource_attach_backing [simp, wire_simps]:
  "length (encode_resource_attach_backing c) = 44"
  by (simp add: encode_resource_attach_backing_def)

lemma decode_encode_resource_attach_backing [simp, wire_simps]:
  "decode_resource_attach_backing (encode_resource_attach_backing c) = c"
  by (simp add: decode_resource_attach_backing_def encode_resource_attach_backing_def wire_simps)

record virtio_gpu_resource_detach_backing =
  db_hdr :: virtio_gpu_ctrl_hdr
  db_resource_id :: u32
  db_padding :: u32

definition zero_resource_detach_backing :: virtio_gpu_resource_detach_backing where
  "zero_resource_detach_backing =
    \<lparr>db_hdr = zero_hdr, db_resource_id = 0, db_padding = 0\<rparr>"

definition encode_resource_detach_backing :: "virtio_gpu_resource_detach_backing \<Rightarrow> u8 list" where
  "encode_resource_detach_backing c =
     encode_hdr (db_hdr c) @ le32 (db_resource_id c) @ le32 (db_padding c)"

definition decode_resource_detach_backing :: "u8 list \<Rightarrow> virtio_gpu_resource_detach_backing" where
  "decode_resource_detach_backing bs =
    \<lparr>db_hdr = decode_hdr bs, db_resource_id = rd32 bs 24, db_padding = rd32 bs 28\<rparr>"

lemma length_encode_resource_detach_backing [simp, wire_simps]:
  "length (encode_resource_detach_backing c) = 32"
  by (simp add: encode_resource_detach_backing_def)

lemma decode_encode_resource_detach_backing [simp, wire_simps]:
  "decode_resource_detach_backing (encode_resource_detach_backing c) = c"
  by (simp add: decode_resource_detach_backing_def encode_resource_detach_backing_def wire_simps)

record virtio_gpu_ctx_resource =
  cr_hdr :: virtio_gpu_ctrl_hdr
  cr_resource_id :: u32
  cr_padding :: u32

definition zero_ctx_resource :: virtio_gpu_ctx_resource where
  "zero_ctx_resource =
    \<lparr>cr_hdr = zero_hdr, cr_resource_id = 0, cr_padding = 0\<rparr>"

definition encode_ctx_resource :: "virtio_gpu_ctx_resource \<Rightarrow> u8 list" where
  "encode_ctx_resource c =
     encode_hdr (cr_hdr c) @ le32 (cr_resource_id c) @ le32 (cr_padding c)"

definition decode_ctx_resource :: "u8 list \<Rightarrow> virtio_gpu_ctx_resource" where
  "decode_ctx_resource bs =
    \<lparr>cr_hdr = decode_hdr bs, cr_resource_id = rd32 bs 24, cr_padding = rd32 bs 28\<rparr>"

lemma length_encode_ctx_resource [simp, wire_simps]:
  "length (encode_ctx_resource c) = 32"
  by (simp add: encode_ctx_resource_def)

lemma decode_encode_ctx_resource [simp, wire_simps]:
  "decode_ctx_resource (encode_ctx_resource c) = c"
  by (simp add: decode_ctx_resource_def encode_ctx_resource_def wire_simps)

record virtio_gpu_resource_unref =
  ru_hdr :: virtio_gpu_ctrl_hdr
  ru_resource_id :: u32
  ru_padding :: u32

definition zero_resource_unref :: virtio_gpu_resource_unref where
  "zero_resource_unref =
    \<lparr>ru_hdr = zero_hdr, ru_resource_id = 0, ru_padding = 0\<rparr>"

definition encode_resource_unref :: "virtio_gpu_resource_unref \<Rightarrow> u8 list" where
  "encode_resource_unref c =
     encode_hdr (ru_hdr c) @ le32 (ru_resource_id c) @ le32 (ru_padding c)"

definition decode_resource_unref :: "u8 list \<Rightarrow> virtio_gpu_resource_unref" where
  "decode_resource_unref bs =
    \<lparr>ru_hdr = decode_hdr bs, ru_resource_id = rd32 bs 24, ru_padding = rd32 bs 28\<rparr>"

lemma length_encode_resource_unref [simp, wire_simps]:
  "length (encode_resource_unref c) = 32"
  by (simp add: encode_resource_unref_def)

lemma decode_encode_resource_unref [simp, wire_simps]:
  "decode_resource_unref (encode_resource_unref c) = c"
  by (simp add: decode_resource_unref_def encode_resource_unref_def wire_simps)

record virtio_gpu_ctx_destroy =
  cd_hdr :: virtio_gpu_ctrl_hdr

definition zero_ctx_destroy :: virtio_gpu_ctx_destroy where
  "zero_ctx_destroy =
    \<lparr>cd_hdr = zero_hdr\<rparr>"

definition encode_ctx_destroy :: "virtio_gpu_ctx_destroy \<Rightarrow> u8 list" where
  "encode_ctx_destroy c =
     encode_hdr (cd_hdr c)"

definition decode_ctx_destroy :: "u8 list \<Rightarrow> virtio_gpu_ctx_destroy" where
  "decode_ctx_destroy bs =
    \<lparr>cd_hdr = decode_hdr bs\<rparr>"

lemma length_encode_ctx_destroy [simp, wire_simps]:
  "length (encode_ctx_destroy c) = 24"
  by (simp add: encode_ctx_destroy_def)

lemma decode_encode_ctx_destroy [simp, wire_simps]:
  "decode_ctx_destroy (encode_ctx_destroy c) = c"
  by (simp add: decode_ctx_destroy_def encode_ctx_destroy_def wire_simps)

record virtio_gpu_get_capset =
  gc_hdr :: virtio_gpu_ctrl_hdr
  gc_capset_id :: u32
  gc_capset_version :: u32

definition zero_get_capset :: virtio_gpu_get_capset where
  "zero_get_capset =
    \<lparr>gc_hdr = zero_hdr, gc_capset_id = 0, gc_capset_version = 0\<rparr>"

definition encode_get_capset :: "virtio_gpu_get_capset \<Rightarrow> u8 list" where
  "encode_get_capset c =
     encode_hdr (gc_hdr c) @ le32 (gc_capset_id c) @ le32 (gc_capset_version c)"

definition decode_get_capset :: "u8 list \<Rightarrow> virtio_gpu_get_capset" where
  "decode_get_capset bs =
    \<lparr>gc_hdr = decode_hdr bs, gc_capset_id = rd32 bs 24, gc_capset_version = rd32 bs 28\<rparr>"

lemma length_encode_get_capset [simp, wire_simps]:
  "length (encode_get_capset c) = 32"
  by (simp add: encode_get_capset_def)

lemma decode_encode_get_capset [simp, wire_simps]:
  "decode_get_capset (encode_get_capset c) = c"
  by (simp add: decode_get_capset_def encode_get_capset_def wire_simps)

record virtio_gpu_transfer_host_3d =
  t3_hdr :: virtio_gpu_ctrl_hdr
  t3_box :: virtio_gpu_box
  t3_offset :: u64
  t3_resource_id :: u32
  t3_level :: u32
  t3_stride :: u32
  t3_layer_stride :: u32

definition zero_transfer_host_3d :: virtio_gpu_transfer_host_3d where
  "zero_transfer_host_3d =
    \<lparr>t3_hdr = zero_hdr, t3_box = zero_box, t3_offset = 0, t3_resource_id = 0, t3_level = 0,
     t3_stride = 0, t3_layer_stride = 0\<rparr>"

definition encode_transfer_host_3d :: "virtio_gpu_transfer_host_3d \<Rightarrow> u8 list" where
  "encode_transfer_host_3d c =
     encode_hdr (t3_hdr c) @ encode_box (t3_box c) @ le64 (t3_offset c) @
     le32 (t3_resource_id c) @ le32 (t3_level c) @ le32 (t3_stride c) @
     le32 (t3_layer_stride c)"

definition decode_transfer_host_3d :: "u8 list \<Rightarrow> virtio_gpu_transfer_host_3d" where
  "decode_transfer_host_3d bs =
    \<lparr>t3_hdr = decode_hdr bs, t3_box = decode_box (drop 24 bs), t3_offset = rd64 bs 48,
     t3_resource_id = rd32 bs 56, t3_level = rd32 bs 60, t3_stride = rd32 bs 64,
     t3_layer_stride = rd32 bs 68\<rparr>"

lemma length_encode_transfer_host_3d [simp, wire_simps]:
  "length (encode_transfer_host_3d c) = 72"
  by (simp add: encode_transfer_host_3d_def)

lemma decode_encode_transfer_host_3d [simp, wire_simps]:
  "decode_transfer_host_3d (encode_transfer_host_3d c) = c"
  by (simp add: decode_transfer_host_3d_def encode_transfer_host_3d_def wire_simps)

record virtio_gpu_transfer_to_host_2d =
  t2_hdr :: virtio_gpu_ctrl_hdr
  t2_r :: virtio_gpu_rect
  t2_offset :: u64
  t2_resource_id :: u32
  t2_padding :: u32

definition zero_transfer_to_host_2d :: virtio_gpu_transfer_to_host_2d where
  "zero_transfer_to_host_2d =
    \<lparr>t2_hdr = zero_hdr, t2_r = zero_rect, t2_offset = 0, t2_resource_id = 0, t2_padding = 0\<rparr>"

definition encode_transfer_to_host_2d :: "virtio_gpu_transfer_to_host_2d \<Rightarrow> u8 list" where
  "encode_transfer_to_host_2d c =
     encode_hdr (t2_hdr c) @ encode_rect (t2_r c) @ le64 (t2_offset c) @
     le32 (t2_resource_id c) @ le32 (t2_padding c)"

definition decode_transfer_to_host_2d :: "u8 list \<Rightarrow> virtio_gpu_transfer_to_host_2d" where
  "decode_transfer_to_host_2d bs =
    \<lparr>t2_hdr = decode_hdr bs, t2_r = decode_rect (drop 24 bs), t2_offset = rd64 bs 40,
     t2_resource_id = rd32 bs 48, t2_padding = rd32 bs 52\<rparr>"

lemma length_encode_transfer_to_host_2d [simp, wire_simps]:
  "length (encode_transfer_to_host_2d c) = 56"
  by (simp add: encode_transfer_to_host_2d_def)

lemma decode_encode_transfer_to_host_2d [simp, wire_simps]:
  "decode_transfer_to_host_2d (encode_transfer_to_host_2d c) = c"
  by (simp add: decode_transfer_to_host_2d_def encode_transfer_to_host_2d_def wire_simps)

record virtio_gpu_cmd_submit =
  sb_hdr :: virtio_gpu_ctrl_hdr
  sb_size :: u32
  sb_padding :: u32

definition zero_cmd_submit :: virtio_gpu_cmd_submit where
  "zero_cmd_submit =
    \<lparr>sb_hdr = zero_hdr, sb_size = 0, sb_padding = 0\<rparr>"

definition encode_cmd_submit :: "virtio_gpu_cmd_submit \<Rightarrow> u8 list" where
  "encode_cmd_submit c =
     encode_hdr (sb_hdr c) @ le32 (sb_size c) @ le32 (sb_padding c)"

definition decode_cmd_submit :: "u8 list \<Rightarrow> virtio_gpu_cmd_submit" where
  "decode_cmd_submit bs =
    \<lparr>sb_hdr = decode_hdr bs, sb_size = rd32 bs 24, sb_padding = rd32 bs 28\<rparr>"

lemma length_encode_cmd_submit [simp, wire_simps]:
  "length (encode_cmd_submit c) = 32"
  by (simp add: encode_cmd_submit_def)

lemma decode_encode_cmd_submit [simp, wire_simps]:
  "decode_cmd_submit (encode_cmd_submit c) = c"
  by (simp add: decode_cmd_submit_def encode_cmd_submit_def wire_simps)

record virtio_gpu_resource_create_blob =
  cb_hdr :: virtio_gpu_ctrl_hdr
  cb_resource_id :: u32
  cb_blob_mem :: u32
  cb_blob_flags :: u32
  cb_nr_entries :: u32
  cb_blob_id :: u64
  cb_size :: u64
  cb_format :: u32
  cb_bind :: u32
  cb_target :: u32
  cb_width :: u32
  cb_height :: u32
  cb_depth :: u32
  cb_array_size :: u32
  cb_last_level :: u32
  cb_nr_samples :: u32
  cb_flags :: u32

definition zero_resource_create_blob :: virtio_gpu_resource_create_blob where
  "zero_resource_create_blob =
    \<lparr>cb_hdr = zero_hdr, cb_resource_id = 0, cb_blob_mem = 0, cb_blob_flags = 0,
     cb_nr_entries = 0, cb_blob_id = 0, cb_size = 0, cb_format = 0, cb_bind = 0,
     cb_target = 0, cb_width = 0, cb_height = 0, cb_depth = 0, cb_array_size = 0,
     cb_last_level = 0, cb_nr_samples = 0, cb_flags = 0\<rparr>"

definition encode_resource_create_blob :: "virtio_gpu_resource_create_blob \<Rightarrow> u8 list" where
  "encode_resource_create_blob c =
     encode_hdr (cb_hdr c) @ le32 (cb_resource_id c) @ le32 (cb_blob_mem c) @
     le32 (cb_blob_flags c) @ le32 (cb_nr_entries c) @ le64 (cb_blob_id c) @
     le64 (cb_size c) @ le32 (cb_format c) @ le32 (cb_bind c) @ le32 (cb_target c) @
     le32 (cb_width c) @ le32 (cb_height c) @ le32 (cb_depth c) @ le32 (cb_array_size c) @
     le32 (cb_last_level c) @ le32 (cb_nr_samples c) @ le32 (cb_flags c)"

definition decode_resource_create_blob :: "u8 list \<Rightarrow> virtio_gpu_resource_create_blob" where
  "decode_resource_create_blob bs =
    \<lparr>cb_hdr = decode_hdr bs, cb_resource_id = rd32 bs 24, cb_blob_mem = rd32 bs 28,
     cb_blob_flags = rd32 bs 32, cb_nr_entries = rd32 bs 36, cb_blob_id = rd64 bs 40,
     cb_size = rd64 bs 48, cb_format = rd32 bs 56, cb_bind = rd32 bs 60,
     cb_target = rd32 bs 64, cb_width = rd32 bs 68, cb_height = rd32 bs 72,
     cb_depth = rd32 bs 76, cb_array_size = rd32 bs 80, cb_last_level = rd32 bs 84,
     cb_nr_samples = rd32 bs 88, cb_flags = rd32 bs 92\<rparr>"

lemma length_encode_resource_create_blob [simp, wire_simps]:
  "length (encode_resource_create_blob c) = 96"
  by (simp add: encode_resource_create_blob_def)

lemma decode_encode_resource_create_blob [simp, wire_simps]:
  "decode_resource_create_blob (encode_resource_create_blob c) = c"
  by (simp add: decode_resource_create_blob_def encode_resource_create_blob_def wire_simps)

record virtio_gpu_resource_map_blob =
  mp_hdr :: virtio_gpu_ctrl_hdr
  mp_resource_id :: u32
  mp_padding :: u32

definition zero_resource_map_blob :: virtio_gpu_resource_map_blob where
  "zero_resource_map_blob =
    \<lparr>mp_hdr = zero_hdr, mp_resource_id = 0, mp_padding = 0\<rparr>"

definition encode_resource_map_blob :: "virtio_gpu_resource_map_blob \<Rightarrow> u8 list" where
  "encode_resource_map_blob c =
     encode_hdr (mp_hdr c) @ le32 (mp_resource_id c) @ le32 (mp_padding c)"

definition decode_resource_map_blob :: "u8 list \<Rightarrow> virtio_gpu_resource_map_blob" where
  "decode_resource_map_blob bs =
    \<lparr>mp_hdr = decode_hdr bs, mp_resource_id = rd32 bs 24, mp_padding = rd32 bs 28\<rparr>"

lemma length_encode_resource_map_blob [simp, wire_simps]:
  "length (encode_resource_map_blob c) = 32"
  by (simp add: encode_resource_map_blob_def)

lemma decode_encode_resource_map_blob [simp, wire_simps]:
  "decode_resource_map_blob (encode_resource_map_blob c) = c"
  by (simp add: decode_resource_map_blob_def encode_resource_map_blob_def wire_simps)

record virtio_gpu_resp_map_info =
  rmi_hdr :: virtio_gpu_ctrl_hdr
  rmi_map_info :: u32
  rmi_gpa :: u64
  rmi_size :: u64
  rmi_padding :: u32

definition encode_resp_map_info :: "virtio_gpu_resp_map_info \<Rightarrow> u8 list" where
  "encode_resp_map_info c =
     encode_hdr (rmi_hdr c) @ le32 (rmi_map_info c) @ le64 (rmi_gpa c) @
     le64 (rmi_size c) @ le32 (rmi_padding c)"

definition decode_resp_map_info :: "u8 list \<Rightarrow> virtio_gpu_resp_map_info" where
  "decode_resp_map_info bs =
    \<lparr>rmi_hdr = decode_hdr bs, rmi_map_info = rd32 bs 24, rmi_gpa = rd64 bs 28,
     rmi_size = rd64 bs 36, rmi_padding = rd32 bs 44\<rparr>"

lemma length_encode_resp_map_info [simp, wire_simps]:
  "length (encode_resp_map_info c) = 48"
  by (simp add: encode_resp_map_info_def)

lemma decode_encode_resp_map_info [simp, wire_simps]:
  "decode_resp_map_info (encode_resp_map_info c) = c"
  by (simp add: decode_resp_map_info_def encode_resp_map_info_def wire_simps)

record virtio_gpu_resource_unmap_blob =
  ub_hdr :: virtio_gpu_ctrl_hdr
  ub_resource_id :: u32
  ub_padding :: u32

definition zero_resource_unmap_blob :: virtio_gpu_resource_unmap_blob where
  "zero_resource_unmap_blob =
    \<lparr>ub_hdr = zero_hdr, ub_resource_id = 0, ub_padding = 0\<rparr>"

definition encode_resource_unmap_blob :: "virtio_gpu_resource_unmap_blob \<Rightarrow> u8 list" where
  "encode_resource_unmap_blob c =
     encode_hdr (ub_hdr c) @ le32 (ub_resource_id c) @ le32 (ub_padding c)"

definition decode_resource_unmap_blob :: "u8 list \<Rightarrow> virtio_gpu_resource_unmap_blob" where
  "decode_resource_unmap_blob bs =
    \<lparr>ub_hdr = decode_hdr bs, ub_resource_id = rd32 bs 24, ub_padding = rd32 bs 28\<rparr>"

lemma length_encode_resource_unmap_blob [simp, wire_simps]:
  "length (encode_resource_unmap_blob c) = 32"
  by (simp add: encode_resource_unmap_blob_def)

lemma decode_encode_resource_unmap_blob [simp, wire_simps]:
  "decode_resource_unmap_blob (encode_resource_unmap_blob c) = c"
  by (simp add: decode_resource_unmap_blob_def encode_resource_unmap_blob_def wire_simps)

subsection \<open>Commands\<close>

datatype gpu_cmd =
    Cmd_get_capset_info virtio_gpu_get_capset_info
  | Cmd_get_capset virtio_gpu_get_capset
  | Cmd_ctx_create virtio_gpu_ctx_create
  | Cmd_ctx_destroy virtio_gpu_ctx_destroy
  | Cmd_resource_create_2d virtio_gpu_resource_create_2d
  | Cmd_resource_create_3d virtio_gpu_resource_create_3d
  | Cmd_resource_create_blob virtio_gpu_resource_create_blob
  | Cmd_resource_map_blob virtio_gpu_resource_map_blob
  | Cmd_resource_unmap_blob virtio_gpu_resource_unmap_blob
  | Cmd_resource_attach_backing virtio_gpu_resource_attach_backing
  | Cmd_resource_detach_backing virtio_gpu_resource_detach_backing
  | Cmd_ctx_resource virtio_gpu_ctx_resource
  | Cmd_resource_unref virtio_gpu_resource_unref
  | Cmd_transfer_to_host_2d virtio_gpu_transfer_to_host_2d
  | Cmd_transfer_host_3d virtio_gpu_transfer_host_3d
  | Cmd_cmd_submit virtio_gpu_cmd_submit

fun cmd_hdr :: "gpu_cmd \<Rightarrow> virtio_gpu_ctrl_hdr" where
  "cmd_hdr (Cmd_get_capset_info c) = gci_hdr c"
| "cmd_hdr (Cmd_get_capset c) = gc_hdr c"
| "cmd_hdr (Cmd_ctx_create c) = cc_hdr c"
| "cmd_hdr (Cmd_ctx_destroy c) = cd_hdr c"
| "cmd_hdr (Cmd_resource_create_2d c) = c2_hdr c"
| "cmd_hdr (Cmd_resource_create_3d c) = c3_hdr c"
| "cmd_hdr (Cmd_resource_create_blob c) = cb_hdr c"
| "cmd_hdr (Cmd_resource_map_blob c) = mp_hdr c"
| "cmd_hdr (Cmd_resource_unmap_blob c) = ub_hdr c"
| "cmd_hdr (Cmd_resource_attach_backing c) = ab_hdr c"
| "cmd_hdr (Cmd_resource_detach_backing c) = db_hdr c"
| "cmd_hdr (Cmd_ctx_resource c) = cr_hdr c"
| "cmd_hdr (Cmd_resource_unref c) = ru_hdr c"
| "cmd_hdr (Cmd_transfer_to_host_2d c) = t2_hdr c"
| "cmd_hdr (Cmd_transfer_host_3d c) = t3_hdr c"
| "cmd_hdr (Cmd_cmd_submit c) = sb_hdr c"

fun encode_cmd :: "gpu_cmd \<Rightarrow> u8 list" where
  "encode_cmd (Cmd_get_capset_info c) = encode_get_capset_info c"
| "encode_cmd (Cmd_get_capset c) = encode_get_capset c"
| "encode_cmd (Cmd_ctx_create c) = encode_ctx_create c"
| "encode_cmd (Cmd_ctx_destroy c) = encode_ctx_destroy c"
| "encode_cmd (Cmd_resource_create_2d c) = encode_resource_create_2d c"
| "encode_cmd (Cmd_resource_create_3d c) = encode_resource_create_3d c"
| "encode_cmd (Cmd_resource_create_blob c) = encode_resource_create_blob c"
| "encode_cmd (Cmd_resource_map_blob c) = encode_resource_map_blob c"
| "encode_cmd (Cmd_resource_unmap_blob c) = encode_resource_unmap_blob c"
| "encode_cmd (Cmd_resource_attach_backing c) = encode_resource_attach_backing c"
| "encode_cmd (Cmd_resource_detach_backing c) = encode_resource_detach_backing c"
| "encode_cmd (Cmd_ctx_resource c) = encode_ctx_resource c"
| "encode_cmd (Cmd_resource_unref c) = encode_resource_unref c"
| "encode_cmd (Cmd_transfer_to_host_2d c) = encode_transfer_to_host_2d c"
| "encode_cmd (Cmd_transfer_host_3d c) = encode_transfer_host_3d c"
| "encode_cmd (Cmd_cmd_submit c) = encode_cmd_submit c"

text \<open>The \<open>sizeof\<close> of the structure behind a command.\<close>

fun cmd_sizeof :: "gpu_cmd \<Rightarrow> u64" where
  "cmd_sizeof (Cmd_get_capset_info c) = 32"
| "cmd_sizeof (Cmd_get_capset c) = 32"
| "cmd_sizeof (Cmd_ctx_create c) = 96"
| "cmd_sizeof (Cmd_ctx_destroy c) = 24"
| "cmd_sizeof (Cmd_resource_create_2d c) = 40"
| "cmd_sizeof (Cmd_resource_create_3d c) = 72"
| "cmd_sizeof (Cmd_resource_create_blob c) = 96"
| "cmd_sizeof (Cmd_resource_map_blob c) = 32"
| "cmd_sizeof (Cmd_resource_unmap_blob c) = 32"
| "cmd_sizeof (Cmd_resource_attach_backing c) = 44"
| "cmd_sizeof (Cmd_resource_detach_backing c) = 32"
| "cmd_sizeof (Cmd_ctx_resource c) = 32"
| "cmd_sizeof (Cmd_resource_unref c) = 32"
| "cmd_sizeof (Cmd_transfer_to_host_2d c) = 56"
| "cmd_sizeof (Cmd_transfer_host_3d c) = 72"
| "cmd_sizeof (Cmd_cmd_submit c) = 32"

text \<open>The control types under which each structure is sent; \<open>debug_name\<close> has its 64 bytes.\<close>

fun cmd_types :: "gpu_cmd \<Rightarrow> virtio_gpu_ctrl_type list" where
  "cmd_types (Cmd_get_capset_info c) = [VIRTIO_GPU_CMD_GET_CAPSET_INFO]"
| "cmd_types (Cmd_get_capset c) = [VIRTIO_GPU_CMD_GET_CAPSET]"
| "cmd_types (Cmd_ctx_create c) = [VIRTIO_GPU_CMD_CTX_CREATE]"
| "cmd_types (Cmd_ctx_destroy c) = [VIRTIO_GPU_CMD_CTX_DESTROY]"
| "cmd_types (Cmd_resource_create_2d c) = [VIRTIO_GPU_CMD_RESOURCE_CREATE_2D]"
| "cmd_types (Cmd_resource_create_3d c) = [VIRTIO_GPU_CMD_RESOURCE_CREATE_3D]"
| "cmd_types (Cmd_resource_create_blob c) = [VIRTIO_GPU_CMD_RESOURCE_CREATE_BLOB]"
| "cmd_types (Cmd_resource_map_blob c) = [VIRTIO_GPU_CMD_RESOURCE_MAP_BLOB]"
| "cmd_types (Cmd_resource_unmap_blob c) = [VIRTIO_GPU_CMD_RESOURCE_UNMAP_BLOB]"
| "cmd_types (Cmd_resource_attach_backing c) = [VIRTIO_GPU_CMD_RESOURCE_ATTACH_BACKING]"
| "cmd_types (Cmd_resource_detach_backing c) = [VIRTIO_GPU_CMD_RESOURCE_DETACH_BACKING]"
| "cmd_types (Cmd_ctx_resource c) =
     [VIRTIO_GPU_CMD_CTX_ATTACH_RESOURCE, VIRTIO_GPU_CMD_CTX_DETACH_RESOURCE]"
| "cmd_types (Cmd_resource_unref c) = [VIRTIO_GPU_CMD_RESOURCE_UNREF]"
| "cmd_types (Cmd_transfer_to_host_2d c) = [VIRTIO_GPU_CMD_TRANSFER_TO_HOST_2D]"
| "cmd_types (Cmd_transfer_host_3d c) =
     [VIRTIO_GPU_CMD_TRANSFER_TO_HOST_3D, VIRTIO_GPU_CMD_TRANSFER_FROM_HOST_3D]"
| "cmd_types (Cmd_cmd_submit c) = [VIRTIO_GPU_CMD_SUBMIT_3D]"

fun cmd_name_ok :: "gpu_cmd \<Rightarrow> bool" where
  "cmd_name_ok (Cmd_ctx_create c) \<longleftrightarrow> length (cc_debug_name c) = 64"
| "cmd_name_ok _ \<longleftrightarrow> True"

definition cmd_wf :: "gpu_cmd \<Rightarrow> bool" where
  "cmd_wf c \<longleftrightarrow> hdr_type (cmd_hdr c) \<in> ctrl_type_code ` set (cmd_types c) \<and> cmd_name_ok c"

lemma length_encode_cmd: "length (encode_cmd c) = unat (cmd_sizeof c)"
  by (cases c) simp_all

lemmas encode_defs =
  encode_get_capset_info_def
  encode_get_capset_def
  encode_ctx_create_def
  encode_ctx_destroy_def
  encode_resource_create_2d_def
  encode_resource_create_3d_def
  encode_resource_create_blob_def
  encode_resource_map_blob_def
  encode_resource_unmap_blob_def
  encode_resource_attach_backing_def
  encode_resource_detach_backing_def
  encode_ctx_resource_def
  encode_resource_unref_def
  encode_transfer_to_host_2d_def
  encode_transfer_host_3d_def
  encode_cmd_submit_def

lemma decode_hdr_encode_cmd: "decode_hdr (encode_cmd c) = cmd_hdr c"
  by (cases c) (simp_all add: encode_defs)

text \<open>The response to \<open>GET_CAPSET\<close> has a flexible array behind its header.\<close>

record virtio_gpu_resp_capset =
  rcs_hdr :: virtio_gpu_ctrl_hdr
  rcs_capset_data :: "u8 list"

definition encode_resp_capset :: "virtio_gpu_resp_capset \<Rightarrow> u8 list" where
  "encode_resp_capset r = encode_hdr (rcs_hdr r) @ rcs_capset_data r"

definition decode_resp_capset :: "u8 list \<Rightarrow> virtio_gpu_resp_capset" where
  "decode_resp_capset bs = \<lparr>rcs_hdr = decode_hdr bs, rcs_capset_data = drop 24 bs\<rparr>"

lemma decode_encode_resp_capset [simp]: "decode_resp_capset (encode_resp_capset r) = r"
  by (simp add: decode_resp_capset_def encode_resp_capset_def)

end
