(* ===== verification/Vgpu_Ioctl.thy ===== *)
theory Vgpu_Ioctl
  imports Vgpu_Prelude
begin

text \<open>
  The interface to user mode, \<open>ioctl.h\<close>: the control codes, the flags and parameters, and
  the structures a request carries, each a record with its bytes at the offsets the x64
  compiler gives them (all fields are naturally aligned, no structure has a hole).  A
  handler reads its request through \<open>decode_...\<close>; \<open>encode_...\<close> is what a client or a handler
  writes.
\<close>

unbundle bit_operations_syntax

subsection \<open>Control codes\<close>

text \<open>\<open>CTL_CODE\<close> and its arguments are macros of the Windows headers.\<close>

definition FILE_DEVICE_UNKNOWN :: u32 where "FILE_DEVICE_UNKNOWN = 0x22"
definition METHOD_IN_DIRECT :: u32 where "METHOD_IN_DIRECT = 1"
definition METHOD_OUT_DIRECT :: u32 where "METHOD_OUT_DIRECT = 2"
definition FILE_ANY_ACCESS :: u32 where "FILE_ANY_ACCESS = 0"

definition CTL_CODE :: "u32 \<Rightarrow> u32 \<Rightarrow> u32 \<Rightarrow> u32 \<Rightarrow> u32" where
  "CTL_CODE DeviceType Function Method Access =
     push_bit 16 DeviceType OR push_bit 14 Access OR push_bit 2 Function OR Method"

definition IOCTL_VIRTIO_VGPU_CONTEXT_INIT :: u32 where
  "IOCTL_VIRTIO_VGPU_CONTEXT_INIT =
     CTL_CODE FILE_DEVICE_UNKNOWN 0x800 METHOD_OUT_DIRECT FILE_ANY_ACCESS"

definition IOCTL_VIRTIO_VGPU_DESTROY_CONTEXT :: u32 where
  "IOCTL_VIRTIO_VGPU_DESTROY_CONTEXT =
     CTL_CODE FILE_DEVICE_UNKNOWN 0x801 METHOD_IN_DIRECT FILE_ANY_ACCESS"

definition IOCTL_VIRTIO_VGPU_MAP :: u32 where
  "IOCTL_VIRTIO_VGPU_MAP =
     CTL_CODE FILE_DEVICE_UNKNOWN 0x802 METHOD_OUT_DIRECT FILE_ANY_ACCESS"

definition IOCTL_VIRTIO_VGPU_EXECBUFFER :: u32 where
  "IOCTL_VIRTIO_VGPU_EXECBUFFER =
     CTL_CODE FILE_DEVICE_UNKNOWN 0x803 METHOD_IN_DIRECT FILE_ANY_ACCESS"

definition IOCTL_VIRTIO_VGPU_GETPARAM :: u32 where
  "IOCTL_VIRTIO_VGPU_GETPARAM =
     CTL_CODE FILE_DEVICE_UNKNOWN 0x804 METHOD_OUT_DIRECT FILE_ANY_ACCESS"

definition IOCTL_VIRTIO_VGPU_GET_CAPS :: u32 where
  "IOCTL_VIRTIO_VGPU_GET_CAPS =
     CTL_CODE FILE_DEVICE_UNKNOWN 0x805 METHOD_OUT_DIRECT FILE_ANY_ACCESS"

definition IOCTL_VIRTIO_VGPU_RESOURCE_CREATE :: u32 where
  "IOCTL_VIRTIO_VGPU_RESOURCE_CREATE =
     CTL_CODE FILE_DEVICE_UNKNOWN 0x806 METHOD_OUT_DIRECT FILE_ANY_ACCESS"

definition IOCTL_VIRTIO_VGPU_RESOURCE_CLOSE :: u32 where
  "IOCTL_VIRTIO_VGPU_RESOURCE_CLOSE =
     CTL_CODE FILE_DEVICE_UNKNOWN 0x807 METHOD_IN_DIRECT FILE_ANY_ACCESS"

definition IOCTL_VIRTIO_VGPU_TRANSFER_FROM_HOST :: u32 where
  "IOCTL_VIRTIO_VGPU_TRANSFER_FROM_HOST =
     CTL_CODE FILE_DEVICE_UNKNOWN 0x808 METHOD_IN_DIRECT FILE_ANY_ACCESS"

definition IOCTL_VIRTIO_VGPU_TRANSFER_TO_HOST :: u32 where
  "IOCTL_VIRTIO_VGPU_TRANSFER_TO_HOST =
     CTL_CODE FILE_DEVICE_UNKNOWN 0x809 METHOD_IN_DIRECT FILE_ANY_ACCESS"

definition IOCTL_VIRTIO_VGPU_WAIT :: u32 where
  "IOCTL_VIRTIO_VGPU_WAIT =
     CTL_CODE FILE_DEVICE_UNKNOWN 0x810 METHOD_OUT_DIRECT FILE_ANY_ACCESS"

definition IOCTL_VIRTIO_VGPU_BLOB_RESOURCE_CREATE :: u32 where
  "IOCTL_VIRTIO_VGPU_BLOB_RESOURCE_CREATE =
     CTL_CODE FILE_DEVICE_UNKNOWN 0x811 METHOD_OUT_DIRECT FILE_ANY_ACCESS"

definition ioctl_codes :: "u32 list" where
  "ioctl_codes =
     [IOCTL_VIRTIO_VGPU_CONTEXT_INIT,
      IOCTL_VIRTIO_VGPU_DESTROY_CONTEXT,
      IOCTL_VIRTIO_VGPU_MAP,
      IOCTL_VIRTIO_VGPU_EXECBUFFER,
      IOCTL_VIRTIO_VGPU_GETPARAM,
      IOCTL_VIRTIO_VGPU_GET_CAPS,
      IOCTL_VIRTIO_VGPU_RESOURCE_CREATE,
      IOCTL_VIRTIO_VGPU_RESOURCE_CLOSE,
      IOCTL_VIRTIO_VGPU_TRANSFER_FROM_HOST,
      IOCTL_VIRTIO_VGPU_TRANSFER_TO_HOST,
      IOCTL_VIRTIO_VGPU_WAIT,
      IOCTL_VIRTIO_VGPU_BLOB_RESOURCE_CREATE]"

lemmas ctl_code_defs = CTL_CODE_def FILE_DEVICE_UNKNOWN_def METHOD_IN_DIRECT_def
  METHOD_OUT_DIRECT_def FILE_ANY_ACCESS_def

lemmas ioctl_code_defs =
  IOCTL_VIRTIO_VGPU_CONTEXT_INIT_def
  IOCTL_VIRTIO_VGPU_DESTROY_CONTEXT_def
  IOCTL_VIRTIO_VGPU_MAP_def
  IOCTL_VIRTIO_VGPU_EXECBUFFER_def
  IOCTL_VIRTIO_VGPU_GETPARAM_def
  IOCTL_VIRTIO_VGPU_GET_CAPS_def
  IOCTL_VIRTIO_VGPU_RESOURCE_CREATE_def
  IOCTL_VIRTIO_VGPU_RESOURCE_CLOSE_def
  IOCTL_VIRTIO_VGPU_TRANSFER_FROM_HOST_def
  IOCTL_VIRTIO_VGPU_TRANSFER_TO_HOST_def
  IOCTL_VIRTIO_VGPU_WAIT_def
  IOCTL_VIRTIO_VGPU_BLOB_RESOURCE_CREATE_def

subsection \<open>Flags and parameters\<close>

definition VIRTGPU_PARAM_SUPPORTED_CAPSET_IDs :: u64 where
  "VIRTGPU_PARAM_SUPPORTED_CAPSET_IDs = 7"

definition VIRTGPU_EXECBUF_FENCE_FD_IN :: u32 where "VIRTGPU_EXECBUF_FENCE_FD_IN = 1"
definition VIRTGPU_EXECBUF_FENCE_FD_OUT :: u32 where "VIRTGPU_EXECBUF_FENCE_FD_OUT = 2"
definition VIRTGPU_WAIT_NOWAIT :: u32 where "VIRTGPU_WAIT_NOWAIT = 1"
definition MAX_CAPSET_ID :: u64 where "MAX_CAPSET_ID = 63"
definition VIRTGPU_CONTEXT_PARAM_CAPSET_ID :: u64 where "VIRTGPU_CONTEXT_PARAM_CAPSET_ID = 1"

subsection \<open>Structures of the requests\<close>

record drm_virtgpu_get_caps =
  dgc_cap_set_id :: u32
  dgc_cap_set_ver :: u32

definition encode_drm_get_caps :: "drm_virtgpu_get_caps \<Rightarrow> u8 list" where
  "encode_drm_get_caps c =
     le32 (dgc_cap_set_id c) @ le32 (dgc_cap_set_ver c)"

definition decode_drm_get_caps :: "u8 list \<Rightarrow> drm_virtgpu_get_caps" where
  "decode_drm_get_caps bs =
    \<lparr>dgc_cap_set_id = rd32 bs 0, dgc_cap_set_ver = rd32 bs 4\<rparr>"

lemma length_encode_drm_get_caps [simp, wire_simps]:
  "length (encode_drm_get_caps c) = 8"
  by (simp add: encode_drm_get_caps_def)

lemma decode_encode_drm_get_caps [simp, wire_simps]:
  "decode_drm_get_caps (encode_drm_get_caps c) = c"
  by (simp add: decode_drm_get_caps_def encode_drm_get_caps_def wire_simps)

record drm_virtgpu_resource_create =
  drc_target :: u32
  drc_format :: u32
  drc_bind :: u32
  drc_width :: u32
  drc_height :: u32
  drc_depth :: u32
  drc_array_size :: u32
  drc_last_level :: u32
  drc_nr_samples :: u32
  drc_flags :: u32
  drc_bo_handle :: u32
  drc_res_handle :: u32
  drc_size :: u32
  drc_stride :: u32

definition encode_drm_resource_create :: "drm_virtgpu_resource_create \<Rightarrow> u8 list" where
  "encode_drm_resource_create c =
     le32 (drc_target c) @ le32 (drc_format c) @ le32 (drc_bind c) @ le32 (drc_width c) @
     le32 (drc_height c) @ le32 (drc_depth c) @ le32 (drc_array_size c) @
     le32 (drc_last_level c) @ le32 (drc_nr_samples c) @ le32 (drc_flags c) @
     le32 (drc_bo_handle c) @ le32 (drc_res_handle c) @ le32 (drc_size c) @
     le32 (drc_stride c)"

definition decode_drm_resource_create :: "u8 list \<Rightarrow> drm_virtgpu_resource_create" where
  "decode_drm_resource_create bs =
    \<lparr>drc_target = rd32 bs 0, drc_format = rd32 bs 4, drc_bind = rd32 bs 8,
     drc_width = rd32 bs 12, drc_height = rd32 bs 16, drc_depth = rd32 bs 20,
     drc_array_size = rd32 bs 24, drc_last_level = rd32 bs 28, drc_nr_samples = rd32 bs 32,
     drc_flags = rd32 bs 36, drc_bo_handle = rd32 bs 40, drc_res_handle = rd32 bs 44,
     drc_size = rd32 bs 48, drc_stride = rd32 bs 52\<rparr>"

lemma length_encode_drm_resource_create [simp, wire_simps]:
  "length (encode_drm_resource_create c) = 56"
  by (simp add: encode_drm_resource_create_def)

lemma decode_encode_drm_resource_create [simp, wire_simps]:
  "decode_drm_resource_create (encode_drm_resource_create c) = c"
  by (simp add: decode_drm_resource_create_def encode_drm_resource_create_def wire_simps)

record drm_virtgpu_resource_create_resp =
  drr_bo_handle :: u32
  drr_res_handle :: u32

definition encode_drm_resource_create_resp :: "drm_virtgpu_resource_create_resp \<Rightarrow> u8 list" where
  "encode_drm_resource_create_resp c =
     le32 (drr_bo_handle c) @ le32 (drr_res_handle c)"

definition decode_drm_resource_create_resp :: "u8 list \<Rightarrow> drm_virtgpu_resource_create_resp" where
  "decode_drm_resource_create_resp bs =
    \<lparr>drr_bo_handle = rd32 bs 0, drr_res_handle = rd32 bs 4\<rparr>"

lemma length_encode_drm_resource_create_resp [simp, wire_simps]:
  "length (encode_drm_resource_create_resp c) = 8"
  by (simp add: encode_drm_resource_create_resp_def)

lemma decode_encode_drm_resource_create_resp [simp, wire_simps]:
  "decode_drm_resource_create_resp (encode_drm_resource_create_resp c) = c"
  by (simp add: decode_drm_resource_create_resp_def encode_drm_resource_create_resp_def wire_simps)

record drm_virtgpu_resource_create_blob =
  dcb_blob_mem :: u32
  dcb_blob_flags :: u32
  dcb_bo_handle :: u32
  dcb_res_handle :: u32
  dcb_size :: u64
  dcb_blob_id :: u64
  dcb_format :: u32
  dcb_bind :: u32
  dcb_target :: u32
  dcb_width :: u32
  dcb_height :: u32
  dcb_depth :: u32
  dcb_array_size :: u32
  dcb_last_level :: u32
  dcb_nr_samples :: u32
  dcb_flags :: u32

definition encode_drm_resource_create_blob :: "drm_virtgpu_resource_create_blob \<Rightarrow> u8 list" where
  "encode_drm_resource_create_blob c =
     le32 (dcb_blob_mem c) @ le32 (dcb_blob_flags c) @ le32 (dcb_bo_handle c) @
     le32 (dcb_res_handle c) @ le64 (dcb_size c) @ le64 (dcb_blob_id c) @
     le32 (dcb_format c) @ le32 (dcb_bind c) @ le32 (dcb_target c) @ le32 (dcb_width c) @
     le32 (dcb_height c) @ le32 (dcb_depth c) @ le32 (dcb_array_size c) @
     le32 (dcb_last_level c) @ le32 (dcb_nr_samples c) @ le32 (dcb_flags c)"

definition decode_drm_resource_create_blob :: "u8 list \<Rightarrow> drm_virtgpu_resource_create_blob" where
  "decode_drm_resource_create_blob bs =
    \<lparr>dcb_blob_mem = rd32 bs 0, dcb_blob_flags = rd32 bs 4, dcb_bo_handle = rd32 bs 8,
     dcb_res_handle = rd32 bs 12, dcb_size = rd64 bs 16, dcb_blob_id = rd64 bs 24,
     dcb_format = rd32 bs 32, dcb_bind = rd32 bs 36, dcb_target = rd32 bs 40,
     dcb_width = rd32 bs 44, dcb_height = rd32 bs 48, dcb_depth = rd32 bs 52,
     dcb_array_size = rd32 bs 56, dcb_last_level = rd32 bs 60, dcb_nr_samples = rd32 bs 64,
     dcb_flags = rd32 bs 68\<rparr>"

lemma length_encode_drm_resource_create_blob [simp, wire_simps]:
  "length (encode_drm_resource_create_blob c) = 72"
  by (simp add: encode_drm_resource_create_blob_def)

lemma decode_encode_drm_resource_create_blob [simp, wire_simps]:
  "decode_drm_resource_create_blob (encode_drm_resource_create_blob c) = c"
  by (simp add: decode_drm_resource_create_blob_def encode_drm_resource_create_blob_def wire_simps)

record drm_virtgpu_execbuffer =
  deb_flags :: u32
  deb_size :: u32
  deb_command :: u64
  deb_bo_handles :: u64
  deb_num_bo_handles :: u32
  deb_ring_idx :: u32
  deb_in_fence_fd :: u64
  deb_out_fence_fd :: u64

definition encode_drm_execbuffer :: "drm_virtgpu_execbuffer \<Rightarrow> u8 list" where
  "encode_drm_execbuffer c =
     le32 (deb_flags c) @ le32 (deb_size c) @ le64 (deb_command c) @
     le64 (deb_bo_handles c) @ le32 (deb_num_bo_handles c) @ le32 (deb_ring_idx c) @
     le64 (deb_in_fence_fd c) @ le64 (deb_out_fence_fd c)"

definition decode_drm_execbuffer :: "u8 list \<Rightarrow> drm_virtgpu_execbuffer" where
  "decode_drm_execbuffer bs =
    \<lparr>deb_flags = rd32 bs 0, deb_size = rd32 bs 4, deb_command = rd64 bs 8,
     deb_bo_handles = rd64 bs 16, deb_num_bo_handles = rd32 bs 24,
     deb_ring_idx = rd32 bs 28, deb_in_fence_fd = rd64 bs 32, deb_out_fence_fd = rd64 bs 40\<rparr>"

lemma length_encode_drm_execbuffer [simp, wire_simps]:
  "length (encode_drm_execbuffer c) = 48"
  by (simp add: encode_drm_execbuffer_def)

lemma decode_encode_drm_execbuffer [simp, wire_simps]:
  "decode_drm_execbuffer (encode_drm_execbuffer c) = c"
  by (simp add: decode_drm_execbuffer_def encode_drm_execbuffer_def wire_simps)

record drm_gem_close =
  dcl_handle :: u32
  dcl_pad :: u32

definition encode_drm_gem_close :: "drm_gem_close \<Rightarrow> u8 list" where
  "encode_drm_gem_close c =
     le32 (dcl_handle c) @ le32 (dcl_pad c)"

definition decode_drm_gem_close :: "u8 list \<Rightarrow> drm_gem_close" where
  "decode_drm_gem_close bs =
    \<lparr>dcl_handle = rd32 bs 0, dcl_pad = rd32 bs 4\<rparr>"

lemma length_encode_drm_gem_close [simp, wire_simps]:
  "length (encode_drm_gem_close c) = 8"
  by (simp add: encode_drm_gem_close_def)

lemma decode_encode_drm_gem_close [simp, wire_simps]:
  "decode_drm_gem_close (encode_drm_gem_close c) = c"
  by (simp add: decode_drm_gem_close_def encode_drm_gem_close_def wire_simps)

record drm_virtgpu_3d_wait =
  dwt_handle :: u32
  dwt_flags :: u32

definition encode_drm_3d_wait :: "drm_virtgpu_3d_wait \<Rightarrow> u8 list" where
  "encode_drm_3d_wait c =
     le32 (dwt_handle c) @ le32 (dwt_flags c)"

definition decode_drm_3d_wait :: "u8 list \<Rightarrow> drm_virtgpu_3d_wait" where
  "decode_drm_3d_wait bs =
    \<lparr>dwt_handle = rd32 bs 0, dwt_flags = rd32 bs 4\<rparr>"

lemma length_encode_drm_3d_wait [simp, wire_simps]:
  "length (encode_drm_3d_wait c) = 8"
  by (simp add: encode_drm_3d_wait_def)

lemma decode_encode_drm_3d_wait [simp, wire_simps]:
  "decode_drm_3d_wait (encode_drm_3d_wait c) = c"
  by (simp add: decode_drm_3d_wait_def encode_drm_3d_wait_def wire_simps)

record drm_virtgpu_map =
  dmp_offset :: u64
  dmp_handle :: u32
  dmp_pad :: u32

definition encode_drm_map :: "drm_virtgpu_map \<Rightarrow> u8 list" where
  "encode_drm_map c =
     le64 (dmp_offset c) @ le32 (dmp_handle c) @ le32 (dmp_pad c)"

definition decode_drm_map :: "u8 list \<Rightarrow> drm_virtgpu_map" where
  "decode_drm_map bs =
    \<lparr>dmp_offset = rd64 bs 0, dmp_handle = rd32 bs 8, dmp_pad = rd32 bs 12\<rparr>"

lemma length_encode_drm_map [simp, wire_simps]:
  "length (encode_drm_map c) = 16"
  by (simp add: encode_drm_map_def)

lemma decode_encode_drm_map [simp, wire_simps]:
  "decode_drm_map (encode_drm_map c) = c"
  by (simp add: decode_drm_map_def encode_drm_map_def wire_simps)

record drm_virtgpu_3d_box =
  dbx_x :: u32
  dbx_y :: u32
  dbx_z :: u32
  dbx_w :: u32
  dbx_h :: u32
  dbx_d :: u32

definition encode_dbox :: "drm_virtgpu_3d_box \<Rightarrow> u8 list" where
  "encode_dbox c =
     le32 (dbx_x c) @ le32 (dbx_y c) @ le32 (dbx_z c) @ le32 (dbx_w c) @ le32 (dbx_h c) @
     le32 (dbx_d c)"

definition decode_dbox :: "u8 list \<Rightarrow> drm_virtgpu_3d_box" where
  "decode_dbox bs =
    \<lparr>dbx_x = rd32 bs 0, dbx_y = rd32 bs 4, dbx_z = rd32 bs 8, dbx_w = rd32 bs 12,
     dbx_h = rd32 bs 16, dbx_d = rd32 bs 20\<rparr>"

lemma length_encode_dbox [simp, wire_simps]:
  "length (encode_dbox c) = 24"
  by (simp add: encode_dbox_def)

lemma decode_encode_dbox [simp, wire_simps]:
  "decode_dbox (encode_dbox c @ ys) = c"
  by (simp add: decode_dbox_def encode_dbox_def wire_simps)

record drm_virtgpu_3d_transfer =
  dtr_bo_handle :: u32
  dtr_box :: drm_virtgpu_3d_box
  dtr_level :: u32
  dtr_offset :: u32
  dtr_stride :: u32
  dtr_layer_stride :: u32
  dtr_pad :: u32

definition encode_drm_3d_transfer :: "drm_virtgpu_3d_transfer \<Rightarrow> u8 list" where
  "encode_drm_3d_transfer c =
     le32 (dtr_bo_handle c) @ encode_dbox (dtr_box c) @ le32 (dtr_level c) @
     le32 (dtr_offset c) @ le32 (dtr_stride c) @ le32 (dtr_layer_stride c) @
     le32 (dtr_pad c)"

definition decode_drm_3d_transfer :: "u8 list \<Rightarrow> drm_virtgpu_3d_transfer" where
  "decode_drm_3d_transfer bs =
    \<lparr>dtr_bo_handle = rd32 bs 0, dtr_box = decode_dbox (drop 4 bs), dtr_level = rd32 bs 28,
     dtr_offset = rd32 bs 32, dtr_stride = rd32 bs 36, dtr_layer_stride = rd32 bs 40,
     dtr_pad = rd32 bs 44\<rparr>"

lemma length_encode_drm_3d_transfer [simp, wire_simps]:
  "length (encode_drm_3d_transfer c) = 48"
  by (simp add: encode_drm_3d_transfer_def)

lemma decode_encode_drm_3d_transfer [simp, wire_simps]:
  "decode_drm_3d_transfer (encode_drm_3d_transfer c) = c"
  by (simp add: decode_drm_3d_transfer_def encode_drm_3d_transfer_def wire_simps)

record drm_virtgpu_context_set_param =
  dsp_param :: u64
  dsp_value :: u64

definition encode_drm_context_set_param :: "drm_virtgpu_context_set_param \<Rightarrow> u8 list" where
  "encode_drm_context_set_param c =
     le64 (dsp_param c) @ le64 (dsp_value c)"

definition decode_drm_context_set_param :: "u8 list \<Rightarrow> drm_virtgpu_context_set_param" where
  "decode_drm_context_set_param bs =
    \<lparr>dsp_param = rd64 bs 0, dsp_value = rd64 bs 8\<rparr>"

lemma length_encode_drm_context_set_param [simp, wire_simps]:
  "length (encode_drm_context_set_param c) = 16"
  by (simp add: encode_drm_context_set_param_def)

lemma decode_encode_drm_context_set_param [simp, wire_simps]:
  "decode_drm_context_set_param (encode_drm_context_set_param c) = c"
  by (simp add: decode_drm_context_set_param_def encode_drm_context_set_param_def wire_simps)

record drm_virtgpu_context_init =
  dci_num_params :: u32
  dci_pad :: u32
  dci_ctx_set_params :: u64

definition encode_drm_context_init :: "drm_virtgpu_context_init \<Rightarrow> u8 list" where
  "encode_drm_context_init c =
     le32 (dci_num_params c) @ le32 (dci_pad c) @ le64 (dci_ctx_set_params c)"

definition decode_drm_context_init :: "u8 list \<Rightarrow> drm_virtgpu_context_init" where
  "decode_drm_context_init bs =
    \<lparr>dci_num_params = rd32 bs 0, dci_pad = rd32 bs 4, dci_ctx_set_params = rd64 bs 8\<rparr>"

lemma length_encode_drm_context_init [simp, wire_simps]:
  "length (encode_drm_context_init c) = 16"
  by (simp add: encode_drm_context_init_def)

lemma decode_encode_drm_context_init [simp, wire_simps]:
  "decode_drm_context_init (encode_drm_context_init c) = c"
  by (simp add: decode_drm_context_init_def encode_drm_context_init_def wire_simps)

text \<open>A user array of context parameters, read element by element, and one of 32-bit handles.\<close>

definition decode_set_params :: "nat \<Rightarrow> u8 list \<Rightarrow> drm_virtgpu_context_set_param list" where
  "decode_set_params n bs = map (\<lambda>i. decode_drm_context_set_param (drop (16 * i) bs)) [0..<n]"

definition decode_handles :: "nat \<Rightarrow> u8 list \<Rightarrow> u32 list" where
  "decode_handles n bs = map (\<lambda>i. rd32 bs (4 * i)) [0..<n]"

lemma length_decode_handles [simp]: "length (decode_handles n bs) = n"
  by (simp add: decode_handles_def)

lemma rd32_concat_le32:
  "i < length hs \<Longrightarrow> rd32 (concat (map le32 hs)) (4 * i) = hs ! i"
proof (induction hs arbitrary: i)
  case Nil
  then show ?case by simp
next
  case (Cons h hs)
  then show ?case by (cases i) (simp_all add: rd32_append_right)
qed

lemma decode_handles_le32: "decode_handles (length hs) (concat (map le32 hs)) = hs"
  by (rule nth_equalityI) (simp_all add: decode_handles_def rd32_concat_le32)

subsection \<open>Properties\<close>

text \<open>The twelve control codes are pairwise distinct, so the dispatch of a code selects
  one operation.\<close>

theorem ioctl_codes_distinct: "distinct ioctl_codes \<and> length ioctl_codes = 12"
  by (simp add: ioctl_codes_def ioctl_code_defs ctl_code_defs)

text \<open>What a client writes as a request is what the handler reads, field for field, at the
  size the handler checks for: the create request, the blob request, the execution request,
  the transfer request and the array of buffer handles.\<close>

theorem request_bytes_roundtrip:
  "length (encode_drm_resource_create c) = 56
   \<and> decode_drm_resource_create (encode_drm_resource_create c) = c
   \<and> length (encode_drm_resource_create_blob b) = 72
   \<and> decode_drm_resource_create_blob (encode_drm_resource_create_blob b) = b
   \<and> length (encode_drm_execbuffer e) = 48
   \<and> decode_drm_execbuffer (encode_drm_execbuffer e) = e
   \<and> length (encode_drm_3d_transfer t) = 48
   \<and> decode_drm_3d_transfer (encode_drm_3d_transfer t) = t
   \<and> decode_handles (length hs) (concat (map le32 hs)) = hs"
  by (simp add: decode_handles_le32)

end
