(* ===== verification/Vgpu_Command.thy ===== *)
theory Vgpu_Command
  imports Vgpu_Global Vgpu_Wire "HOL-Library.Multiset"
begin

unbundle bit_operations_syntax

text \<open>
  The command path of \<open>command.c\<close>: allocating a command buffer, describing it by a
  scatter-gather list, filling in a command and pushing it to a virtqueue.

  The kernel and the virtio library are a parameter, the record \<open>kernel\<close>: what the pool and
  the lookaside list return at the n-th allocation, the physical address of a virtual one,
  the result of \<open>virtqueue_add_buf\<close>, and the host's answers to the two synchronous queries.
  The state, \<open>device\<close>, holds what the device has been given: per queue the buffers it has not
  returned, oldest first, the live pool blocks of command buffers, the number of
  \<open>VGPU_BUFFER\<close> taken from the lookaside list, and the log of what was pushed.  An access
  for which C defines no result (an array index out of range, freeing a block that is not
  live) is recorded in \<open>dv_faults\<close>; the code's \<open>ASSERT\<close>s are compiled out of the driver and
  check nothing here.
\<close>

subsection \<open>State\<close>

definition COMMAND_QUEUE :: nat where "COMMAND_QUEUE = 0"
definition CONTROL_QUEUE :: nat where "CONTROL_QUEUE = 1"
definition SGLIST_SIZE :: u32 where "SGLIST_SIZE = 4"

lemma queue_bounds [simp]: "COMMAND_QUEUE < 2" "CONTROL_QUEUE < 2"
  by (simp_all add: COMMAND_QUEUE_def CONTROL_QUEUE_def)

text \<open>\<open>struct VirtIOBufferDescriptor\<close>.\<close>

record sg_entry =
  sg_physAddr :: u64
  sg_length :: u32

text \<open>\<open>VGPU_BUFFER\<close>; \<open>bf_cmd\<close> is the command behind \<open>pBuf\<close>, and the array behind
  \<open>ResourceIds\<close> is its content, \<open>None\<close> for \<open>NULL\<close>.\<close>

record vgpu_buffer =
  bf_pBuf :: u64
  bf_cmd :: gpu_cmd
  bf_pRespBuf :: u64
  bf_Event :: bool
  bf_Request :: u64
  bf_pDataBuf :: u64
  bf_DataBufSize :: u64
  bf_ResourceIds :: "u32 list option"
  bf_ResourceIdsCount :: u64
  bf_FenceObject :: u64

record kernel =
  kn_pool :: "nat \<Rightarrow> u64 \<Rightarrow> u64"
  kn_lookaside :: "nat \<Rightarrow> vgpu_buffer"
  kn_phys :: "u64 \<Rightarrow> u64"
  kn_add_buf :: "nat \<Rightarrow> vgpu_buffer list \<Rightarrow> sg_entry list \<Rightarrow> u32 \<Rightarrow> u32 \<Rightarrow> int"
  kn_capset_info :: "u32 \<Rightarrow> virtio_gpu_resp_capset_info option"
  kn_capset :: "u32 \<Rightarrow> u32 \<Rightarrow> u8 list option"

datatype queue_event =
    QAdd nat gpu_cmd "sg_entry list" u32 u32
  | QKick nat
  | QEnableCb nat
  | QDisableCb nat

datatype fault =
    Fault_queue_index nat
  | Fault_sg_index nat
  | Fault_capset_index nat
  | Fault_pool_free u64
  | Fault_stale_address u64
  | Fault_overrun u64

record device =
  dv_VirtQueues :: "vgpu_buffer list list"
  dv_pool :: "u64 list"
  dv_lookaside :: nat
  dv_allocs :: nat
  dv_log :: "queue_event list"
  dv_faults :: "fault list"
  g_Capsets :: capsets

subsection \<open>Buffers and queues\<close>

definition PushQueue ::
  "kernel \<Rightarrow> nat \<Rightarrow> sg_entry list \<Rightarrow> u32 \<Rightarrow> u32 \<Rightarrow> vgpu_buffer \<Rightarrow> device
     \<Rightarrow> NTSTATUS \<times> device" where
  "PushQueue k QueueIndex sg out_num in_num opaque d =
     (if QueueIndex < length (dv_VirtQueues d) then
        let ret = kn_add_buf k QueueIndex (dv_VirtQueues d ! QueueIndex) sg out_num in_num
        in if ret = 0 then
             (STATUS_SUCCESS,
              d\<lparr>dv_VirtQueues := (dv_VirtQueues d)[QueueIndex := dv_VirtQueues d ! QueueIndex @ [opaque]],
                dv_log := dv_log d @ [QAdd QueueIndex (bf_cmd opaque) sg out_num in_num, QKick QueueIndex]\<rparr>)
           else (STATUS_UNSUCCESSFUL, d)
      else (STATUS_UNSUCCESSFUL, d\<lparr>dv_faults := dv_faults d @ [Fault_queue_index QueueIndex]\<rparr>))"

text \<open>A buffer from the lookaside list keeps whatever its last user left in it; only the
  fields assigned here and by the caller are fresh.  The new \<open>pBuf\<close> is zeroed memory.\<close>

definition AllocateCommandBuffer ::
  "kernel \<Rightarrow> u64 \<Rightarrow> u64 \<Rightarrow> bool \<Rightarrow> u64 \<Rightarrow> device \<Rightarrow> vgpu_buffer \<times> device" where
  "AllocateCommandBuffer k CmdSize RespSize bSync Request d =
     (let n = dv_allocs d;
          pBuf = kn_pool k n (CmdSize + RespSize);
          b0 = (kn_lookaside k n)\<lparr>bf_pBuf := pBuf\<rparr>;
          b1 = (if 0 < RespSize then b0\<lparr>bf_pRespBuf := bf_pBuf b0 + CmdSize\<rparr> else b0);
          b2 = (if bSync then b1\<lparr>bf_Event := False\<rparr> else b1);
          b3 = (if Request \<noteq> 0 then b2\<lparr>bf_Request := Request\<rparr> else b2)
      in (b3, d\<lparr>dv_allocs := Suc n, dv_lookaside := Suc (dv_lookaside d), dv_pool := pBuf # dv_pool d\<rparr>))"

definition FreeCommandBuffer :: "vgpu_buffer \<Rightarrow> device \<Rightarrow> device" where
  "FreeCommandBuffer b d =
     (let d1 = (if bf_pBuf b = 0 then d
                else if bf_pBuf b \<in> set (dv_pool d) then d\<lparr>dv_pool := remove1 (bf_pBuf b) (dv_pool d)\<rparr>
                else d\<lparr>dv_faults := dv_faults d @ [Fault_pool_free (bf_pBuf b)]\<rparr>)
      in d1\<lparr>dv_lookaside := dv_lookaside d1 - 1\<rparr>)"

text \<open>The size of one element and what remains after it.\<close>

lemma unat_chunk: "unat (ucast (ucast (min sz PAGE_SIZE) :: u32) :: u64) = min (unat (sz :: u64)) 4096"
proof -
  have "unat (min sz PAGE_SIZE) = min (unat sz) 4096" by (simp add: min_def word_le_nat_alt)
  then show ?thesis by (simp add: unat_ucast_u32_u64 unat_ucast_u64_u32 min_def)
qed

lemma unat_rest: "unat ((sz :: u64) - ucast (ucast (min sz PAGE_SIZE) :: u32)) = unat sz - 4096"
proof -
  have "ucast (ucast (min sz PAGE_SIZE) :: u32) \<le> sz"
    by (simp add: word_le_nat_alt unat_chunk)
  then show ?thesis by (simp add: unat_sub unat_chunk)
qed

text \<open>The loop of \<open>BuildSGElement\<close>: it returns the count and the elements written to
  \<open>pSgList[0]\<close>, \<open>pSgList[1]\<close>, and so on.\<close>

function BuildSG_loop ::
  "kernel \<Rightarrow> u64 \<Rightarrow> u64 \<Rightarrow> u64 \<Rightarrow> u32 \<Rightarrow> sg_entry list \<Rightarrow> u32 \<times> sg_entry list" where
  "BuildSG_loop k MaxSgCount pBuf sz sgCount sgs =
     (if sz = 0 then (sgCount, sgs)
      else if MaxSgCount < ucast sgCount then (0, sgs)
      else
        let len = (ucast (min sz PAGE_SIZE) :: u32)
        in BuildSG_loop k MaxSgCount (pBuf + ucast len) (sz - ucast len) (sgCount + 1)
             (sgs @ [\<lparr>sg_physAddr = kn_phys k pBuf, sg_length = len\<rparr>]))"
  by pat_completeness auto

termination
proof (relation "measure (\<lambda>(k, m, p, sz, c, sgs). unat sz)")
  fix k m p c sgs and sz :: u64 and x :: u32
  assume "sz \<noteq> 0" "x = ucast (min sz PAGE_SIZE)"
  then show "((k, m, p + ucast x, sz - ucast x, c + 1, sgs @ [\<lparr>sg_physAddr = kn_phys k p, sg_length = x\<rparr>]),
      k, m, p, sz, c, sgs) \<in> measure (\<lambda>(k, m, p, sz, c, sgs). unat sz)"
    by (simp add: unat_rest unat_gt_0)
qed simp

declare BuildSG_loop.simps [simp del]

definition BuildSGElement :: "kernel \<Rightarrow> u64 \<Rightarrow> u64 \<Rightarrow> u64 \<Rightarrow> u32 \<times> sg_entry list" where
  "BuildSGElement k MaxSgCount pBuf sz = BuildSG_loop k MaxSgCount pBuf sz 0 []"

text \<open>Every sender has the frame below: allocate, fill in the command, describe it (and the
  response, behind it in the array \<open>sg[SGLIST_SIZE]\<close>), push.  An element written past the
  array's end is a fault.\<close>

definition check_sg :: "nat \<Rightarrow> device \<Rightarrow> device" where
  "check_sg n d =
     (if n \<le> unat SGLIST_SIZE then d else d\<lparr>dv_faults := dv_faults d @ [Fault_sg_index (n - 1)]\<rparr>)"

definition send_command ::
  "kernel \<Rightarrow> nat \<Rightarrow> gpu_cmd \<Rightarrow> u64 \<Rightarrow> bool \<Rightarrow> device
     \<Rightarrow> NTSTATUS \<times> vgpu_buffer \<times> device" where
  "send_command k QueueIndex cmd RespSize bSync d =
     (let (b, d1) = AllocateCommandBuffer k (cmd_sizeof cmd) RespSize bSync 0 d;
          buffer = b\<lparr>bf_cmd := cmd\<rparr>;
          (outNum, sg1) = BuildSGElement k (ucast SGLIST_SIZE) (bf_pBuf buffer) (cmd_sizeof cmd);
          (inNum, sg2) = (if RespSize = 0 then (0, [])
             else BuildSGElement k (ucast (SGLIST_SIZE - outNum)) (bf_pRespBuf buffer) RespSize);
          d2 = check_sg (length sg1 + length sg2) d1;
          (status, d3) = PushQueue k QueueIndex (sg1 @ sg2) outNum inNum buffer d2
      in (status, buffer, d3))"


subsection \<open>The commands\<close>

text \<open>The parameter structures of \<open>command.h\<close> the handlers fill in for the builders.\<close>

record virtgpu_resource_create_param =
  rp_target :: u32
  rp_format :: u32
  rp_bind :: u32
  rp_width :: u32
  rp_height :: u32
  rp_depth :: u32
  rp_array_size :: u32
  rp_last_level :: u32
  rp_nr_samples :: u32
  rp_flags :: u32

record virtgpu_blob_resource_create_param =
  bp_blob_mem :: u32
  bp_blob_flags :: u32
  bp_nr_entries :: u32
  bp_blob_id :: u64
  bp_size :: u64
  bp_format :: u32
  bp_bind :: u32
  bp_target :: u32
  bp_width :: u32
  bp_height :: u32
  bp_depth :: u32
  bp_array_size :: u32
  bp_last_level :: u32
  bp_nr_samples :: u32
  bp_flags :: u32

record virtgpu_transfer_host_2d_param =
  tp2_r :: virtio_gpu_rect
  tp2_offset :: u64
  tp2_resource_id :: u32

record virtgpu_transfer_host_3d_param =
  tp3_box :: virtio_gpu_box
  tp3_offset :: u64
  tp3_resource_id :: u32
  tp3_level :: u32
  tp3_stride :: u32
  tp3_layer_stride :: u32

text \<open>The header of a command of a given type and context, and the \<open>if (FenceId > 0)\<close> block
  that the builders share.\<close>

definition hdr_for :: "virtio_gpu_ctrl_type \<Rightarrow> u32 \<Rightarrow> virtio_gpu_ctrl_hdr" where
  "hdr_for t ctx = zero_hdr\<lparr>hdr_type := ctrl_type_code t, hdr_ctx_id := ctx\<rparr>"

definition set_fence :: "u64 \<Rightarrow> virtio_gpu_ctrl_hdr \<Rightarrow> virtio_gpu_ctrl_hdr" where
  "set_fence FenceId h =
     (if 0 < FenceId then h\<lparr>hdr_flags := hdr_flags h OR VIRTIO_GPU_FLAG_FENCE, hdr_fence_id := FenceId\<rparr>
      else h)"

definition debug_name :: "u8 list" where
  "debug_name = [0x74, 0x65, 0x6E, 0x63, 0x6C, 0x61, 0x73, 0x73]"

definition CreateVirglContext :: "kernel \<Rightarrow> u32 \<Rightarrow> u32 \<Rightarrow> device \<Rightarrow> device" where
  "CreateVirglContext k VirglContextId ContextInit d =
     (let cmd = zero_ctx_create
            \<lparr>cc_hdr := hdr_for VIRTIO_GPU_CMD_CTX_CREATE VirglContextId,
             cc_context_init := ContextInit,
             cc_debug_name := debug_name @ drop (length debug_name) (cc_debug_name zero_ctx_create),
             cc_nlen := of_nat (length debug_name)\<rparr>;
          (status, buffer, d') = send_command k CONTROL_QUEUE (Cmd_ctx_create cmd) 0 False d
      in d')"

definition DestroyVirglContext :: "kernel \<Rightarrow> u32 \<Rightarrow> device \<Rightarrow> device" where
  "DestroyVirglContext k VirglContextId d =
     (let cmd = zero_ctx_destroy\<lparr>cd_hdr := hdr_for VIRTIO_GPU_CMD_CTX_DESTROY VirglContextId\<rparr>;
          (status, buffer, d') = send_command k CONTROL_QUEUE (Cmd_ctx_destroy cmd) 0 False d
      in d')"

definition TransferToHost2D ::
  "kernel \<Rightarrow> u32 \<Rightarrow> virtgpu_transfer_host_2d_param \<Rightarrow> device \<Rightarrow> device" where
  "TransferToHost2D k VirglContextId Transfer d =
     (let cmd = zero_transfer_to_host_2d
            \<lparr>t2_hdr := hdr_for VIRTIO_GPU_CMD_TRANSFER_TO_HOST_2D VirglContextId,
             t2_resource_id := tp2_resource_id Transfer,
             t2_offset := tp2_offset Transfer,
             t2_r := tp2_r Transfer\<rparr>;
          (status, buffer, d') = send_command k COMMAND_QUEUE (Cmd_transfer_to_host_2d cmd) 0 False d
      in d')"

definition TransferHost3D ::
  "kernel \<Rightarrow> u32 \<Rightarrow> virtgpu_transfer_host_3d_param \<Rightarrow> u64 \<Rightarrow> bool \<Rightarrow> device
     \<Rightarrow> device" where
  "TransferHost3D k VirglContextId Transfer FenceId ToHost d =
     (let cmd = zero_transfer_host_3d
            \<lparr>t3_hdr := set_fence FenceId
               (hdr_for (if ToHost then VIRTIO_GPU_CMD_TRANSFER_TO_HOST_3D
                         else VIRTIO_GPU_CMD_TRANSFER_FROM_HOST_3D) VirglContextId),
             t3_resource_id := tp3_resource_id Transfer,
             t3_box := tp3_box Transfer,
             t3_layer_stride := tp3_layer_stride Transfer,
             t3_level := tp3_level Transfer,
             t3_offset := tp3_offset Transfer,
             t3_stride := tp3_stride Transfer\<rparr>;
          (status, buffer, d') = send_command k COMMAND_QUEUE (Cmd_transfer_host_3d cmd) 0 False d
      in d')"

definition Create2DResource ::
  "kernel \<Rightarrow> u32 \<Rightarrow> u32 \<Rightarrow> virtgpu_resource_create_param \<Rightarrow> u64 \<Rightarrow> device
     \<Rightarrow> device" where
  "Create2DResource k VirglContextId ResourceId Create FenceId d =
     (let cmd = zero_resource_create_2d
            \<lparr>c2_hdr := set_fence FenceId (hdr_for VIRTIO_GPU_CMD_RESOURCE_CREATE_2D VirglContextId),
             c2_resource_id := ResourceId,
             c2_format := rp_format Create,
             c2_width := rp_width Create,
             c2_height := rp_height Create\<rparr>;
          (status, buffer, d') = send_command k COMMAND_QUEUE (Cmd_resource_create_2d cmd) 0 False d
      in d')"

definition Create3DResource ::
  "kernel \<Rightarrow> u32 \<Rightarrow> u32 \<Rightarrow> virtgpu_resource_create_param \<Rightarrow> u64 \<Rightarrow> device
     \<Rightarrow> device" where
  "Create3DResource k VirglContextId ResourceId Create FenceId d =
     (let cmd = zero_resource_create_3d
            \<lparr>c3_hdr := set_fence FenceId (hdr_for VIRTIO_GPU_CMD_RESOURCE_CREATE_3D VirglContextId),
             c3_resource_id := ResourceId,
             c3_format := rp_format Create,
             c3_width := rp_width Create,
             c3_height := rp_height Create,
             c3_target := rp_target Create,
             c3_bind := rp_bind Create,
             c3_depth := rp_depth Create,
             c3_array_size := rp_array_size Create,
             c3_last_level := rp_last_level Create,
             c3_nr_samples := rp_nr_samples Create,
             c3_flags := rp_flags Create\<rparr>;
          (status, buffer, d') = send_command k COMMAND_QUEUE (Cmd_resource_create_3d cmd) 0 False d
      in d')"

definition CreateBlobResource ::
  "kernel \<Rightarrow> u32 \<Rightarrow> u32 \<Rightarrow> virtgpu_blob_resource_create_param \<Rightarrow> u64 \<Rightarrow> device
     \<Rightarrow> device" where
  "CreateBlobResource k VirglContextId ResourceId Create FenceId d =
     (let cmd = zero_resource_create_blob
            \<lparr>cb_hdr := set_fence FenceId (hdr_for VIRTIO_GPU_CMD_RESOURCE_CREATE_BLOB VirglContextId),
             cb_resource_id := ResourceId,
             cb_blob_mem := bp_blob_mem Create,
             cb_blob_flags := bp_blob_flags Create,
             cb_blob_id := bp_blob_id Create,
             cb_size := bp_size Create,
             cb_nr_entries := bp_nr_entries Create,
             cb_format := bp_format Create,
             cb_bind := bp_bind Create,
             cb_target := bp_target Create,
             cb_width := bp_width Create,
             cb_height := bp_height Create,
             cb_depth := bp_depth Create,
             cb_array_size := bp_array_size Create,
             cb_last_level := bp_last_level Create,
             cb_nr_samples := bp_nr_samples Create,
             cb_flags := bp_flags Create\<rparr>;
          (status, buffer, d') = send_command k COMMAND_QUEUE (Cmd_resource_create_blob cmd) 0 False d
      in d')"

text \<open>48 is \<open>sizeof(struct virtio_gpu_resp_map_info)\<close>.\<close>

definition MapBlobResource ::
  "kernel \<Rightarrow> u32 \<Rightarrow> u32 \<Rightarrow> u64 \<Rightarrow> device \<Rightarrow> device" where
  "MapBlobResource k VirglContextId ResourceId FenceId d =
     (let cmd = zero_resource_map_blob
            \<lparr>mp_hdr := set_fence FenceId (hdr_for VIRTIO_GPU_CMD_RESOURCE_MAP_BLOB VirglContextId),
             mp_resource_id := ResourceId\<rparr>;
          (status, buffer, d') = send_command k COMMAND_QUEUE (Cmd_resource_map_blob cmd) 48 False d
      in d')"

definition UnMapBlobResource ::
  "kernel \<Rightarrow> u32 \<Rightarrow> u32 \<Rightarrow> u64 \<Rightarrow> device \<Rightarrow> device" where
  "UnMapBlobResource k VirglContextId ResourceId FenceId d =
     (let cmd = zero_resource_unmap_blob
            \<lparr>ub_hdr := set_fence FenceId (hdr_for VIRTIO_GPU_CMD_RESOURCE_UNMAP_BLOB VirglContextId),
             ub_resource_id := ResourceId\<rparr>;
          (status, buffer, d') = send_command k COMMAND_QUEUE (Cmd_resource_unmap_blob cmd) 0 False d
      in d')"

definition AttachResourceBacking ::
  "kernel \<Rightarrow> u32 \<Rightarrow> virgl_resource \<Rightarrow> device \<Rightarrow> device" where
  "AttachResourceBacking k VirglContextId Resource d =
     (let cmd = zero_resource_attach_backing
            \<lparr>ab_hdr := hdr_for VIRTIO_GPU_CMD_RESOURCE_ATTACH_BACKING VirglContextId,
             ab_resource_id := vr_Id Resource,
             ab_gpa := md_PhysicalAddress (mb_Memory (vr_Buffer Resource)),
             ab_size := ucast (mb_Size (vr_Buffer Resource))\<rparr>;
          (status, buffer, d') = send_command k COMMAND_QUEUE (Cmd_resource_attach_backing cmd) 0 False d
      in d')"

definition DetachResourceBacking ::
  "kernel \<Rightarrow> virgl_resource \<Rightarrow> device \<Rightarrow> device" where
  "DetachResourceBacking k Resource d =
     (let cmd = zero_resource_detach_backing
            \<lparr>db_hdr := hdr_for VIRTIO_GPU_CMD_RESOURCE_DETACH_BACKING 0,
             db_resource_id := vr_Id Resource\<rparr>;
          (status, buffer, d') = send_command k COMMAND_QUEUE (Cmd_resource_detach_backing cmd) 0 False d
      in d')"

definition AttachResource :: "kernel \<Rightarrow> u32 \<Rightarrow> u32 \<Rightarrow> device \<Rightarrow> device" where
  "AttachResource k VirglContextId ResourceId d =
     (let cmd = zero_ctx_resource
            \<lparr>cr_hdr := hdr_for VIRTIO_GPU_CMD_CTX_ATTACH_RESOURCE VirglContextId,
             cr_resource_id := ResourceId\<rparr>;
          (status, buffer, d') = send_command k COMMAND_QUEUE (Cmd_ctx_resource cmd) 0 False d
      in d')"

definition DetachResource :: "kernel \<Rightarrow> u32 \<Rightarrow> u32 \<Rightarrow> device \<Rightarrow> device" where
  "DetachResource k VirglContextId ResourceId d =
     (let cmd = zero_ctx_resource
            \<lparr>cr_hdr := hdr_for VIRTIO_GPU_CMD_CTX_DETACH_RESOURCE VirglContextId,
             cr_resource_id := ResourceId\<rparr>;
          (status, buffer, d') = send_command k COMMAND_QUEUE (Cmd_ctx_resource cmd) 0 False d
      in d')"

definition UnrefResource :: "kernel \<Rightarrow> u32 \<Rightarrow> u32 \<Rightarrow> device \<Rightarrow> device" where
  "UnrefResource k VirglContextId ResourceId d =
     (let cmd = zero_resource_unref
            \<lparr>ru_hdr := hdr_for VIRTIO_GPU_CMD_RESOURCE_UNREF VirglContextId,
             ru_resource_id := ResourceId\<rparr>;
          (status, buffer, d') = send_command k COMMAND_QUEUE (Cmd_resource_unref cmd) 0 False d
      in d')"

text \<open>\<open>SubmitCommand\<close> sets the completion fields of the buffer, and adds the command stream in
  the vgpu memory as one more element.\<close>

definition SubmitCommand ::
  "kernel \<Rightarrow> u32 \<Rightarrow> memory_descriptor \<Rightarrow> u64 \<Rightarrow> u64 \<Rightarrow> u32 list option \<Rightarrow> u64 \<Rightarrow> u64 \<Rightarrow> u64
     \<Rightarrow> device \<Rightarrow> NTSTATUS \<times> device" where
  "SubmitCommand k VirglContextId Command CommandBufSize CommandSize ResourceIds ResourceIdsCount
       FenceId FenceObject d =
     (let (b, d1) = AllocateCommandBuffer k 32 0 False 0 d;
          cmd = zero_cmd_submit
            \<lparr>sb_hdr := set_fence FenceId (hdr_for VIRTIO_GPU_CMD_SUBMIT_3D VirglContextId),
             sb_size := ucast CommandSize\<rparr>;
          buffer = b\<lparr>bf_ResourceIds := ResourceIds,
                     bf_ResourceIdsCount := ResourceIdsCount,
                     bf_pDataBuf := md_VirtualAddress Command,
                     bf_DataBufSize := CommandBufSize,
                     bf_FenceObject := FenceObject,
                     bf_cmd := Cmd_cmd_submit cmd\<rparr>;
          (outNum, sg) = BuildSGElement k (ucast SGLIST_SIZE) (bf_pBuf buffer) 32;
          sg' = sg @ [\<lparr>sg_physAddr = md_PhysicalAddress Command, sg_length = ucast CommandSize\<rparr>];
          d2 = check_sg (length sg') d1
      in PushQueue k COMMAND_QUEUE sg' (outNum + 1) 0 buffer d2)"

subsection \<open>The synchronous queries\<close>

text \<open>The caller waits for the buffer's event.  The interrupt path takes the buffer from the
  queue and sets the event; what other threads do meanwhile is a step of theirs.  A wait for
  a buffer that was not pushed, or that the host never returns, does not end: \<open>None\<close>.\<close>

definition completed :: "nat \<Rightarrow> vgpu_buffer \<Rightarrow> device \<Rightarrow> device" where
  "completed q b d = d\<lparr>dv_VirtQueues := (dv_VirtQueues d)[q := remove1 b (dv_VirtQueues d ! q)]\<rparr>"

definition bit_of :: "u32 \<Rightarrow> u64" where
  "bit_of n = push_bit (unat (n AND 63)) 1"

definition caps_info_step :: "kernel \<Rightarrow> u32 \<Rightarrow> device \<Rightarrow> device option" where
  "caps_info_step k i d =
     (let cmd = zero_get_capset_info
            \<lparr>gci_hdr := hdr_for VIRTIO_GPU_CMD_GET_CAPSET_INFO 0, gci_capset_index := i\<rparr>;
          (status, buffer, d1) = send_command k CONTROL_QUEUE (Cmd_get_capset_info cmd) 40 True d
      in if \<not> NT_SUCCESS status then None
         else case kn_capset_info k i of
           None \<Rightarrow> None
         | Some resp \<Rightarrow>
             let d2 = completed CONTROL_QUEUE buffer d1;
                 caps = g_Capsets d2;
                 entry = \<lparr>cs_id = rci_capset_id resp, cs_max_version = rci_capset_max_version resp,
                          cs_max_size = rci_capset_max_size resp\<rparr>;
                 d3 = d2\<lparr>g_Capsets := caps\<lparr>cps_Data := (cps_Data caps)[unat i := entry],
                         cps_CapsetIdMask := cps_CapsetIdMask caps OR bit_of (rci_capset_id resp)\<rparr>,
                         dv_faults := dv_faults d2 @
                           (if unat i < length (cps_Data caps) then [] else [Fault_capset_index (unat i)])\<rparr>
             in Some (FreeCommandBuffer buffer d3))"

fun caps_info_loop :: "kernel \<Rightarrow> u32 list \<Rightarrow> device \<Rightarrow> device option" where
  "caps_info_loop k [] d = Some d"
| "caps_info_loop k (i # is) d =
     (case caps_info_step k i d of None \<Rightarrow> None | Some d' \<Rightarrow> caps_info_loop k is d')"

definition GetCapsInfo :: "kernel \<Rightarrow> device \<Rightarrow> device option" where
  "GetCapsInfo k d = caps_info_loop k (map of_nat [0..<unat (cps_NumCaps (g_Capsets d))]) d"

text \<open>The response of \<open>GetCaps\<close> is a header of 24 bytes and \<open>max_size\<close> bytes of data, zeroed
  before the host writes its answer there.\<close>

definition GetCaps ::
  "kernel \<Rightarrow> nat \<Rightarrow> u32 \<Rightarrow> device \<Rightarrow> (u8 list \<times> device) option" where
  "GetCaps k CapsIndex CapsVer d =
     (let caps = cps_Data (g_Capsets d) ! CapsIndex;
          resp_size = 24 + (ucast (cs_max_size caps) :: u64);
          cmd = zero_get_capset
            \<lparr>gc_hdr := hdr_for VIRTIO_GPU_CMD_GET_CAPSET 0, gc_capset_id := cs_id caps,
             gc_capset_version := CapsVer\<rparr>;
          (status, buffer, d1) = send_command k CONTROL_QUEUE (Cmd_get_capset cmd) resp_size True d
      in if \<not> NT_SUCCESS status then None
         else case kn_capset k (cs_id caps) CapsVer of
           None \<Rightarrow> None
         | Some bytes \<Rightarrow>
             let n = unat (cs_max_size caps)
             in Some (take n (bytes @ replicate n 0),
                      FreeCommandBuffer buffer (completed CONTROL_QUEUE buffer d1)))"


subsection \<open>What \<open>BuildSGElement\<close> computes\<close>

definition sg_chunks :: "u64 \<Rightarrow> nat" where
  "sg_chunks sz = (unat sz + 4095) div 4096"

definition sg_at :: "kernel \<Rightarrow> u64 \<Rightarrow> u64 \<Rightarrow> nat \<Rightarrow> sg_entry" where
  "sg_at k pBuf sz i =
     \<lparr>sg_physAddr = kn_phys k (pBuf + of_nat (4096 * i)),
      sg_length = of_nat (min (unat sz - 4096 * i) 4096)\<rparr>"

lemma sg_chunks_0 [simp]: "sg_chunks 0 = 0"
  by (simp add: sg_chunks_def)

lemma sg_chunks_responses [simp]: "sg_chunks 40 = 1" "sg_chunks 48 = 1"
  by (simp_all add: sg_chunks_def)

lemma sg_chunks_Suc:
  assumes "sz \<noteq> 0"
  shows "sg_chunks sz = Suc (sg_chunks (sz - ucast (ucast (min sz PAGE_SIZE) :: u32)))"
proof -
  have "0 < unat sz" using assms by (simp add: unat_gt_0)
  then have "(n + 4095) div 4096 = Suc ((n - 4096 + 4095) div 4096)" if "n = unat sz" for n :: nat
    using that by (cases "4096 \<le> n") (simp_all add: div_if [of "n + 4095"])
  then show ?thesis by (simp add: sg_chunks_def unat_rest)
qed

lemma sg_chunks_small: "0 < sz \<Longrightarrow> sz \<le> PAGE_SIZE \<Longrightarrow> sg_chunks sz = 1"
  by (simp add: sg_chunks_def word_le_nat_alt word_less_nat_alt)

lemma sg_at_0: "sg_at k p sz 0 = \<lparr>sg_physAddr = kn_phys k p, sg_length = ucast (min sz PAGE_SIZE)\<rparr>"
proof -
  have "(ucast (min sz PAGE_SIZE) :: u32) = of_nat (unat (min sz PAGE_SIZE))"
    by (simp add: word_unat_eq_iff unat_ucast_u64_u32 unsigned_of_nat take_bit_nat_eq_self)
  moreover have "unat (min sz PAGE_SIZE) = min (unat sz) 4096" by (simp add: min_def word_le_nat_alt)
  ultimately show ?thesis by (simp add: sg_at_def)
qed

lemma sg_at_Suc:
  assumes "Suc i < sg_chunks sz"
  shows "sg_at k p sz (Suc i) =
    sg_at k (p + ucast (ucast (min sz PAGE_SIZE) :: u32)) (sz - ucast (ucast (min sz PAGE_SIZE) :: u32)) i"
proof -
  have big: "4096 \<le> unat sz"
  proof (rule ccontr)
    assume "\<not> ?thesis"
    then have "(unat sz + 4095) div 4096 < 2" by (simp add: div_less_iff_less_mult)
    with assms show False by (simp add: sg_chunks_def)
  qed
  have "unat (ucast (ucast (min sz PAGE_SIZE) :: u32) :: u64) = unat (0x1000 :: u64)"
    using big by (simp only: unat_chunk) simp
  then have e: "(ucast (ucast (min sz PAGE_SIZE) :: u32) :: u64) = 0x1000"
    by (simp only: word_unat_eq_iff)
  have "unat (sz - 0x1000) = unat sz - 4096" using unat_rest [of sz] by (simp only: e)
  then show ?thesis by (simp add: sg_at_def e algebra_simps)
qed

lemma map_sg_at:
  assumes "sz \<noteq> 0" and "n \<le> sg_chunks (sz - ucast (ucast (min sz PAGE_SIZE) :: u32))"
  shows "map (sg_at k p sz) [0..<Suc n] = sg_at k p sz 0 #
    map (sg_at k (p + ucast (ucast (min sz PAGE_SIZE) :: u32)) (sz - ucast (ucast (min sz PAGE_SIZE) :: u32))) [0..<n]"
proof -
  have "map (sg_at k p sz) [0..<Suc n] = sg_at k p sz 0 # map (\<lambda>i. sg_at k p sz (Suc i)) [0..<n]"
    by (simp only: map_upt_Suc)
  moreover have "Suc i < sg_chunks sz" if "i < n" for i
    using that assms(2) by (simp add: sg_chunks_Suc [OF assms(1)])
  ultimately show ?thesis by (simp add: sg_at_Suc)
qed

lemma BuildSG_loop_result:
  assumes "unat m < 2 ^ 32 - 2" and "unat c \<le> unat m + 1"
  shows "BuildSG_loop k m p sz c sgs =
    (if unat c + sg_chunks sz \<le> unat m + 1
     then (c + of_nat (sg_chunks sz), sgs @ map (sg_at k p sz) [0..<sg_chunks sz])
     else (0, sgs @ map (sg_at k p sz) [0..<unat m + 1 - unat c]))"
  using assms
proof (induction k m p sz c sgs rule: BuildSG_loop.induct)
  case (1 k m p sz c sgs)
  let ?len = "ucast (ucast (min sz PAGE_SIZE) :: u32) :: u64"
  consider "sz = 0" | "sz \<noteq> 0" "m < ucast c" | "sz \<noteq> 0" "\<not> m < ucast c" by blast
  then show ?case
  proof cases
    case 1
    with "1.prems" show ?thesis by (simp add: BuildSG_loop.simps)
  next
    case 2
    then have "unat m < unat c" by (simp add: word_less_nat_alt unat_ucast_u32_u64)
    with 2 "1.prems" show ?thesis
      by (simp add: BuildSG_loop.simps [of k m p sz] sg_chunks_Suc [OF 2(1)])
  next
    case 3
    have le: "unat c \<le> unat m" using 3(2) by (simp add: word_less_nat_alt unat_ucast_u32_u64)
    then have "unat c + 1 < 2 ^ 32" using "1.prems"(1) by linarith
    then have c1: "unat (c + 1) = Suc (unat c)" by (simp add: unat_word_ariths)
    have IH: "BuildSG_loop k m (p + ?len) (sz - ?len) (c + 1)
        (sgs @ [\<lparr>sg_physAddr = kn_phys k p, sg_length = ucast (min sz PAGE_SIZE)\<rparr>]) =
      (if unat (c + 1) + sg_chunks (sz - ?len) \<le> unat m + 1
       then (c + 1 + of_nat (sg_chunks (sz - ?len)), (sgs @ [\<lparr>sg_physAddr = kn_phys k p, sg_length = ucast (min sz PAGE_SIZE)\<rparr>])
              @ map (sg_at k (p + ?len) (sz - ?len)) [0..<sg_chunks (sz - ?len)])
       else (0, (sgs @ [\<lparr>sg_physAddr = kn_phys k p, sg_length = ucast (min sz PAGE_SIZE)\<rparr>])
              @ map (sg_at k (p + ?len) (sz - ?len)) [0..<unat m + 1 - unat (c + 1)]))"
      using "1.prems" le c1 by (intro "1.IH" [OF 3 refl]) simp_all
    have step: "BuildSG_loop k m p sz c sgs = BuildSG_loop k m (p + ?len) (sz - ?len) (c + 1)
        (sgs @ [\<lparr>sg_physAddr = kn_phys k p, sg_length = ucast (min sz PAGE_SIZE)\<rparr>])"
      using 3 by (simp add: BuildSG_loop.simps [of k m p sz] Let_def)
    show ?thesis
    proof (cases "unat c + sg_chunks sz \<le> unat m + 1")
      case True
      have "map (sg_at k p sz) [0..<sg_chunks sz] = sg_at k p sz 0 # map (sg_at k (p + ?len) (sz - ?len)) [0..<sg_chunks (sz - ?len)]"
        using map_sg_at [OF 3(1) order_refl, of k p] by (simp only: sg_chunks_Suc [OF 3(1)])
      with True show ?thesis
        by (simp add: step IH c1 sg_chunks_Suc [OF 3(1)] sg_at_0 del: upt_Suc)
    next
      case False
      then have n: "unat m + 1 - unat (c + 1) \<le> sg_chunks (sz - ?len)"
        by (simp add: c1 sg_chunks_Suc [OF 3(1)])
      have "unat m + 1 - unat c = Suc (unat m + 1 - unat (c + 1))" using le by (simp add: c1)
      with False map_sg_at [OF 3(1) n, of k p] show ?thesis
        by (simp add: step IH c1 sg_chunks_Suc [OF 3(1)] sg_at_0 del: upt_Suc)
    qed
  qed
qed

lemma BuildSGElement_result:
  assumes "unat m < 2 ^ 32 - 2"
  shows "BuildSGElement k m p sz =
    (if sg_chunks sz \<le> unat m + 1
     then (of_nat (sg_chunks sz), map (sg_at k p sz) [0..<sg_chunks sz])
     else (0, map (sg_at k p sz) [0..<unat m + 1]))"
  using BuildSG_loop_result [OF assms, of 0 k p sz "[]"] by (simp add: BuildSGElement_def)

lemma BuildSGElement_small:
  assumes "0 < sz" "sz \<le> PAGE_SIZE" "unat m < 2 ^ 32 - 2"
  shows "BuildSGElement k m p sz = (1, [\<lparr>sg_physAddr = kn_phys k p, sg_length = ucast sz\<rparr>])"
proof -
  have "min sz PAGE_SIZE = sz" using assms(2) by (simp add: min_def)
  with assms show ?thesis
    by (simp add: BuildSGElement_result sg_chunks_small sg_at_0)
qed

subsection \<open>Accounting of command buffers\<close>

text \<open>The faults of the command path are the indices and the frees; the other two belong to the
  handlers.\<close>

fun handler_fault :: "fault \<Rightarrow> bool" where
  "handler_fault (Fault_stale_address a) = True"
| "handler_fault (Fault_overrun a) = True"
| "handler_fault _ = False"

text \<open>\<open>device_acct L d\<close>: the live pool blocks are exactly those of the buffers in the queues
  and those in \<open>L\<close>, the blocks held outside the queues (by a thread between two calls, or
  lost); the lookaside list has given out exactly as many buffers; no index was out of
  bounds and no block freed twice; everything queued is a well-formed command with a block of its own.\<close>

definition device_acct :: "u64 multiset \<Rightarrow> device \<Rightarrow> bool" where
  "device_acct L d \<longleftrightarrow>
     2 \<le> length (dv_VirtQueues d)
   \<and> mset (dv_pool d) = image_mset bf_pBuf (mset (concat (dv_VirtQueues d))) + L
   \<and> dv_lookaside d = length (concat (dv_VirtQueues d)) + size L
   \<and> (\<forall>f \<in> set (dv_faults d). handler_fault f)
   \<and> (\<forall>b \<in> set (concat (dv_VirtQueues d)). cmd_wf (bf_cmd b) \<and> bf_pBuf b \<noteq> 0)"

definition pool_ok :: "kernel \<Rightarrow> bool" where
  "pool_ok k \<longleftrightarrow> (\<forall>n sz. kn_pool k n sz \<noteq> 0)"

definition accepts_all :: "kernel \<Rightarrow> bool" where
  "accepts_all k \<longleftrightarrow> (\<forall>q bs sg out_num in_num. kn_add_buf k q bs sg out_num in_num = 0)"

lemma mset_concat_update:
  "q < length xss \<Longrightarrow> mset (concat (xss[q := ys])) + mset (xss ! q) = mset (concat xss) + mset ys"
proof (induction xss arbitrary: q)
  case Nil
  then show ?case by simp
next
  case (Cons xs xss)
  show ?case
  proof (cases q)
    case 0
    then show ?thesis by simp
  next
    case (Suc i)
    with Cons.prems Cons.IH [of i] show ?thesis by (simp add: add.assoc)
  qed
qed

lemma mset_concat_append:
  "q < length xss \<Longrightarrow> mset (concat (xss[q := xss ! q @ [b]])) = add_mset b (mset (concat xss))"
  using mset_concat_update [of q xss "xss ! q @ [b]"] by simp

lemma mset_concat_remove:
  assumes "q < length xss" and "b \<in> set (xss ! q)"
  shows "add_mset b (mset (concat (xss[q := remove1 b (xss ! q)]))) = mset (concat xss)"
proof -
  obtain R where R: "mset (xss ! q) = add_mset b R"
    using assms(2) by (metis mset_add set_mset_mset)
  have "mset (concat (xss[q := remove1 b (xss ! q)])) + add_mset b R = mset (concat xss) + R"
    using mset_concat_update [OF assms(1), of "remove1 b (xss ! q)"] by (simp only: mset_remove1 R) simp
  then have "add_mset b (mset (concat (xss[q := remove1 b (xss ! q)]))) + R = mset (concat xss) + R"
    by simp
  then show ?thesis by (simp only: add_right_cancel)
qed

lemma set_concat_mset: "set (concat xss) = set_mset (mset (concat xss))"
  by simp

lemma length_concat_mset: "length (concat xss) = size (mset (concat xss))"
  by simp

lemmas concat_mset = set_concat_mset length_concat_mset

text \<open>Taking a buffer out of a queue, and freeing a buffer that is out.\<close>

lemma acct_dequeue:
  assumes "device_acct L d" and "q < length (dv_VirtQueues d)" and "b \<in> set (dv_VirtQueues d ! q)"
  shows "device_acct (add_mset (bf_pBuf b) L)
    (d\<lparr>dv_VirtQueues := (dv_VirtQueues d)[q := remove1 b (dv_VirtQueues d ! q)]\<rparr>)"
    and "bf_pBuf b \<noteq> 0" and "cmd_wf (bf_cmd b)"
proof -
  let ?rest = "mset (concat ((dv_VirtQueues d)[q := remove1 b (dv_VirtQueues d ! q)]))"
  have e: "mset (concat (dv_VirtQueues d)) = add_mset b ?rest"
    using mset_concat_remove [OF assms(2,3)] by simp
  show "device_acct (add_mset (bf_pBuf b) L)
    (d\<lparr>dv_VirtQueues := (dv_VirtQueues d)[q := remove1 b (dv_VirtQueues d ! q)]\<rparr>)"
    using assms(1) unfolding device_acct_def concat_mset e by simp
  have "b \<in># mset (concat (dv_VirtQueues d))" by (simp only: e) simp
  then show "bf_pBuf b \<noteq> 0" "cmd_wf (bf_cmd b)"
    using assms(1) unfolding device_acct_def concat_mset by blast+
qed

lemma acct_free:
  assumes "device_acct (add_mset (bf_pBuf b) L) d" and "bf_pBuf b \<noteq> 0"
  shows "device_acct L (FreeCommandBuffer b d)"
proof -
  have "mset (dv_pool d) = add_mset (bf_pBuf b)
      (image_mset bf_pBuf (mset (concat (dv_VirtQueues d))) + L)"
    using assms(1) by (simp add: device_acct_def)
  then have "bf_pBuf b \<in># mset (dv_pool d)" by simp
  then have "bf_pBuf b \<in> set (dv_pool d)" by simp
  with assms show ?thesis
    by (simp add: device_acct_def FreeCommandBuffer_def Let_def)
qed

text \<open>Allocating and pushing.\<close>

lemma alloc_pBuf: "fst (AllocateCommandBuffer k c r s q d) = b \<Longrightarrow> bf_pBuf b = kn_pool k (dv_allocs d) (c + r)"
  by (auto simp: AllocateCommandBuffer_def Let_def)

lemma alloc_device: "snd (AllocateCommandBuffer k c r s q d) =
    d\<lparr>dv_allocs := Suc (dv_allocs d), dv_lookaside := Suc (dv_lookaside d),
      dv_pool := kn_pool k (dv_allocs d) (c + r) # dv_pool d\<rparr>"
  by (simp add: AllocateCommandBuffer_def Let_def)

lemma acct_alloc:
  "device_acct L d \<Longrightarrow>
   device_acct (add_mset (kn_pool k (dv_allocs d) (c + r)) L) (snd (AllocateCommandBuffer k c r s q d))"
  by (simp add: device_acct_def alloc_device)

lemma acct_push:
  assumes "device_acct (add_mset (bf_pBuf b) L) d" and "cmd_wf (bf_cmd b)" "bf_pBuf b \<noteq> 0"
    and "q < 2" and "PushQueue k q sg out_num in_num b d = (status, d')"
  shows "if NT_SUCCESS status then device_acct L d' else device_acct (add_mset (bf_pBuf b) L) d'"
proof -
  have q: "q < length (dv_VirtQueues d)" using assms(1,4) by (simp add: device_acct_def)
  show ?thesis
  proof (cases "kn_add_buf k q (dv_VirtQueues d ! q) sg out_num in_num = 0")
    case True
    have m: "mset (concat ((dv_VirtQueues d)[q := dv_VirtQueues d ! q @ [b]]))
        = add_mset b (mset (concat (dv_VirtQueues d)))"
      by (rule mset_concat_append [OF q])
    have st: "status = STATUS_SUCCESS" and d': "d' = d\<lparr>dv_VirtQueues := (dv_VirtQueues d)[q := dv_VirtQueues d ! q @ [b]],
        dv_log := dv_log d @ [QAdd q (bf_cmd b) sg out_num in_num, QKick q]\<rparr>"
      using assms(5) True q by (auto simp: PushQueue_def Let_def)
    show ?thesis
      using assms(1-3) unfolding device_acct_def concat_mset d' st by (simp add: m)
  next
    case False
    with assms(5) q have "status = STATUS_UNSUCCESSFUL" "d' = d"
      by (auto simp: PushQueue_def Let_def)
    with assms(1) show ?thesis by simp
  qed
qed

text \<open>\<open>send_command\<close> with a response of at most three pages: one element for the command, the
  others for the response, nothing out of bounds.\<close>

lemma cmd_sizeof_bounds: "0 < cmd_sizeof c" "cmd_sizeof c \<le> 96" "cmd_sizeof c \<le> PAGE_SIZE"
  by (cases c; simp)+

definition sent_buffer :: "kernel \<Rightarrow> gpu_cmd \<Rightarrow> u64 \<Rightarrow> bool \<Rightarrow> device \<Rightarrow> vgpu_buffer" where
  "sent_buffer k cmd RespSize bSync d =
     (fst (AllocateCommandBuffer k (cmd_sizeof cmd) RespSize bSync 0 d))\<lparr>bf_cmd := cmd\<rparr>"

definition sent_sg :: "kernel \<Rightarrow> gpu_cmd \<Rightarrow> u64 \<Rightarrow> vgpu_buffer \<Rightarrow> sg_entry list" where
  "sent_sg k cmd RespSize b =
     \<lparr>sg_physAddr = kn_phys k (bf_pBuf b), sg_length = ucast (cmd_sizeof cmd)\<rparr> #
     map (sg_at k (bf_pRespBuf b) RespSize) [0..<sg_chunks RespSize]"

lemma sent_buffer_simps [simp]:
  "bf_cmd (sent_buffer k cmd r s d) = cmd"
  "bf_pBuf (sent_buffer k cmd r s d) = kn_pool k (dv_allocs d) (cmd_sizeof cmd + r)"
  by (simp_all add: sent_buffer_def alloc_pBuf [OF refl])

lemma send_command_fits:
  assumes "sg_chunks RespSize \<le> 3"
  shows "send_command k q cmd RespSize bSync d =
    (let b = sent_buffer k cmd RespSize bSync d;
         (status, d') = PushQueue k q (sent_sg k cmd RespSize b) 1 (of_nat (sg_chunks RespSize)) b
           (snd (AllocateCommandBuffer k (cmd_sizeof cmd) RespSize bSync 0 d))
     in (status, b, d'))"
proof -
  have one: "BuildSGElement k 4 p (cmd_sizeof cmd)
      = (1, [\<lparr>sg_physAddr = kn_phys k p, sg_length = ucast (cmd_sizeof cmd)\<rparr>])" for p
    by (rule BuildSGElement_small [OF cmd_sizeof_bounds(1,3)]) simp
  have two: "BuildSGElement k 3 p RespSize
      = (of_nat (sg_chunks RespSize), map (sg_at k p RespSize) [0..<sg_chunks RespSize])" for p
    using assms by (simp add: BuildSGElement_result)
  obtain a d1 where a: "AllocateCommandBuffer k (cmd_sizeof cmd) RespSize bSync 0 d = (a, d1)"
    by (cases "AllocateCommandBuffer k (cmd_sizeof cmd) RespSize bSync 0 d")
  show ?thesis
  proof (cases "RespSize = 0")
    case True
    then show ?thesis
      using a by (simp add: send_command_def sent_buffer_def sent_sg_def one check_sg_def SGLIST_SIZE_def Let_def)
  next
    case False
    then show ?thesis
      using assms by (simp add: send_command_def sent_buffer_def sent_sg_def a one two check_sg_def SGLIST_SIZE_def Let_def)
  qed
qed

lemma acct_send:
  assumes "device_acct L d" and "pool_ok k" and "cmd_wf cmd" and "sg_chunks RespSize \<le> 3" and "q < 2"
    and "send_command k q cmd RespSize bSync d = (status, b, d')"
  shows "if NT_SUCCESS status then device_acct L d' else device_acct (add_mset (bf_pBuf b) L) d'"
proof -
  let ?d1 = "snd (AllocateCommandBuffer k (cmd_sizeof cmd) RespSize bSync 0 d)"
  have b: "b = sent_buffer k cmd RespSize bSync d"
    and p: "PushQueue k q (sent_sg k cmd RespSize b) 1 (of_nat (sg_chunks RespSize)) b ?d1 = (status, d')"
    using assms(6) by (auto simp: send_command_fits [OF assms(4)] Let_def split: prod.splits)
  have "device_acct (add_mset (bf_pBuf b) L) ?d1"
    using acct_alloc [OF assms(1)] by (simp add: b)
  from acct_push [OF this _ _ assms(5) p] assms(2,3) show ?thesis
    by (simp add: b pool_ok_def)
qed

subsection \<open>Command streams in flight\<close>

text \<open>The part of the vgpu memory (address and size) that a queued submission holds until its
  completion frees it.\<close>

definition is_submit :: "gpu_cmd \<Rightarrow> bool" where
  "is_submit c \<longleftrightarrow> hdr_type (cmd_hdr c) = ctrl_type_code VIRTIO_GPU_CMD_SUBMIT_3D"

definition buf_regions :: "vgpu_buffer \<Rightarrow> (u64 \<times> u64) multiset" where
  "buf_regions b = (if is_submit (bf_cmd b) then {#(bf_pDataBuf b, bf_DataBufSize b)#} else {#})"

definition queue_regions :: "device \<Rightarrow> (u64 \<times> u64) multiset" where
  "queue_regions d = (\<Sum>b \<in># mset (concat (dv_VirtQueues d)). buf_regions b)"

lemma queue_regions_cong: "dv_VirtQueues d' = dv_VirtQueues d \<Longrightarrow> queue_regions d' = queue_regions d"
  by (simp add: queue_regions_def)

lemma queue_regions_mset:
  assumes "map mset (dv_VirtQueues d') = map mset (dv_VirtQueues d)"
  shows "queue_regions d' = queue_regions d"
proof -
  have "mset (concat xss) = sum_list (map mset xss)" for xss :: "vgpu_buffer list list"
    by (induction xss) simp_all
  then show ?thesis by (simp only: queue_regions_def assms)
qed

lemma push_regions:
  "q < length (dv_VirtQueues d) \<Longrightarrow> PushQueue k q sg out_num in_num b d = (status, d') \<Longrightarrow>
   queue_regions d' = queue_regions d + (if NT_SUCCESS status then buf_regions b else {#})"
  by (auto simp: PushQueue_def queue_regions_def mset_concat_append Let_def split: if_splits
      simp del: mset_concat)

lemma send_regions:
  assumes "\<not> is_submit cmd" and "sg_chunks RespSize \<le> 3"
  shows "queue_regions (snd (snd (send_command k q cmd RespSize s d))) = queue_regions d"
proof -
  let ?b = "sent_buffer k cmd RespSize s d"
  let ?d1 = "snd (AllocateCommandBuffer k (cmd_sizeof cmd) RespSize s 0 d)"
  obtain status d' where p: "PushQueue k q (sent_sg k cmd RespSize ?b) 1 (of_nat (sg_chunks RespSize)) ?b ?d1
      = (status, d')" by (cases "PushQueue k q (sent_sg k cmd RespSize ?b) 1 (of_nat (sg_chunks RespSize)) ?b ?d1")
  have "queue_regions d' = queue_regions ?d1"
  proof (cases "q < length (dv_VirtQueues ?d1)")
    case True
    from push_regions [OF this p] show ?thesis by (simp add: buf_regions_def assms(1))
  next
    case False
    with p show ?thesis by (auto simp: PushQueue_def intro: queue_regions_cong)
  qed
  also have "\<dots> = queue_regions d" by (rule queue_regions_cong) (simp add: alloc_device)
  finally show ?thesis by (simp add: send_command_fits [OF assms(2)] Let_def p)
qed

subsection \<open>The contract of a sender\<close>

text \<open>What the rest of the driver relies on when it calls a builder: the call pushes one
  command, described by \<open>spec\<close> as its queue, type, context, resource and fence, and touches
  nothing outside the queues, the buffers and the log.\<close>

record call_spec =
  cl_queue :: nat
  cl_type :: virtio_gpu_ctrl_type
  cl_ctx :: u32
  cl_resource :: "u32 option"
  cl_fence :: u64
  cl_resp :: u64
  cl_payload :: "u8 list"

text \<open>The bytes of the command: the header of \<open>virtio_gpu_ctrl_hdr\<close>, then the payload.\<close>

definition command_bytes :: "call_spec \<Rightarrow> u8 list" where
  "command_bytes sp =
     le32 (ctrl_type_code (cl_type sp)) @ le32 (if 0 < cl_fence sp then VIRTIO_GPU_FLAG_FENCE else 0)
     @ le64 (cl_fence sp) @ le32 (cl_ctx sp) @ [0, 0, 0, 0] @ cl_payload sp"

fun cmd_resource :: "gpu_cmd \<Rightarrow> u32 option" where
  "cmd_resource (Cmd_resource_create_2d c) = Some (c2_resource_id c)"
| "cmd_resource (Cmd_resource_create_3d c) = Some (c3_resource_id c)"
| "cmd_resource (Cmd_resource_create_blob c) = Some (cb_resource_id c)"
| "cmd_resource (Cmd_resource_map_blob c) = Some (mp_resource_id c)"
| "cmd_resource (Cmd_resource_unmap_blob c) = Some (ub_resource_id c)"
| "cmd_resource (Cmd_resource_attach_backing c) = Some (ab_resource_id c)"
| "cmd_resource (Cmd_resource_detach_backing c) = Some (db_resource_id c)"
| "cmd_resource (Cmd_ctx_resource c) = Some (cr_resource_id c)"
| "cmd_resource (Cmd_resource_unref c) = Some (ru_resource_id c)"
| "cmd_resource (Cmd_transfer_to_host_2d c) = Some (t2_resource_id c)"
| "cmd_resource (Cmd_transfer_host_3d c) = Some (t3_resource_id c)"
| "cmd_resource _ = None"

definition cmd_matches :: "call_spec \<Rightarrow> gpu_cmd \<Rightarrow> bool" where
  "cmd_matches sp c \<longleftrightarrow>
     hdr_type (cmd_hdr c) = ctrl_type_code (cl_type sp) \<and> hdr_ctx_id (cmd_hdr c) = cl_ctx sp
   \<and> cmd_resource c = cl_resource sp \<and> hdr_fence_id (cmd_hdr c) = cl_fence sp
   \<and> hdr_flags (cmd_hdr c) = (if 0 < cl_fence sp then VIRTIO_GPU_FLAG_FENCE else 0)
   \<and> encode_cmd c = command_bytes sp"

text \<open>What a call adds to the log: the command, described by the block that holds its bytes and the
  elements for the response behind it, and the notification.\<close>

definition pushed :: "kernel \<Rightarrow> call_spec \<Rightarrow> vgpu_buffer \<Rightarrow> queue_event list" where
  "pushed k sp b =
     [QAdd (cl_queue sp) (bf_cmd b)
        (\<lparr>sg_physAddr = kn_phys k (bf_pBuf b), sg_length = of_nat (length (command_bytes sp))\<rparr> #
         map (sg_at k (bf_pBuf b + of_nat (length (command_bytes sp))) (cl_resp sp)) [0..<sg_chunks (cl_resp sp)])
        1 (of_nat (sg_chunks (cl_resp sp))),
      QKick (cl_queue sp)]"

fun runs :: "('c \<Rightarrow> 's \<Rightarrow> 's) \<Rightarrow> 'c list \<Rightarrow> 's \<Rightarrow> 's" where
  "runs run [] d = d"
| "runs run (c # cs) d = runs run cs (run c d)"

fun log_matches :: "call_spec list \<Rightarrow> queue_event list \<Rightarrow> bool" where
  "log_matches [] [] = True"
| "log_matches (sp # sps) (QAdd q cmd sg out_num in_num # QKick q' # es) \<longleftrightarrow>
     q = cl_queue sp \<and> q' = q \<and> cmd_wf cmd \<and> cmd_matches sp cmd
     \<and> length sg = unat out_num + unat in_num \<and> log_matches sps es"
| "log_matches _ _ = False"

lemma device_frame [simp, frame_simps]:
  "g_Capsets (snd (PushQueue k q sg out_num in_num b d)) = g_Capsets d"
  "dv_allocs (snd (PushQueue k q sg out_num in_num b d)) = dv_allocs d"
  "length (dv_VirtQueues (snd (PushQueue k q sg out_num in_num b d))) = length (dv_VirtQueues d)"
  "g_Capsets (snd (AllocateCommandBuffer k c r s rq d)) = g_Capsets d"
  "dv_VirtQueues (snd (AllocateCommandBuffer k c r s rq d)) = dv_VirtQueues d"
  "dv_log (snd (AllocateCommandBuffer k c r s rq d)) = dv_log d"
  "g_Capsets (check_sg n d) = g_Capsets d"
  "g_Capsets (FreeCommandBuffer b d) = g_Capsets d"
  "dv_VirtQueues (FreeCommandBuffer b d) = dv_VirtQueues d"
  by (simp_all add: PushQueue_def alloc_device check_sg_def FreeCommandBuffer_def Let_def)

lemma send_command_frame [simp, frame_simps]:
  "g_Capsets (snd (snd (send_command k q cmd r s d))) = g_Capsets d"
  by (simp_all add: send_command_def Let_def case_prod_beta)

lemma send_command_accepted:
  assumes "accepts_all k" and "sg_chunks RespSize \<le> 3" and "q < length (dv_VirtQueues d)"
  shows "send_command k q cmd RespSize s d =
    (let b = sent_buffer k cmd RespSize s d; d1 = snd (AllocateCommandBuffer k (cmd_sizeof cmd) RespSize s 0 d)
     in (STATUS_SUCCESS, b, d1\<lparr>dv_VirtQueues := (dv_VirtQueues d)[q := dv_VirtQueues d ! q @ [b]],
           dv_log := dv_log d @ [QAdd q cmd (sent_sg k cmd RespSize b) 1 (of_nat (sg_chunks RespSize)), QKick q]\<rparr>))"
  using assms by (simp add: send_command_fits PushQueue_def accepts_all_def Let_def)

locale command_sender =
  fixes run :: "kernel \<Rightarrow> 'c \<Rightarrow> device \<Rightarrow> device"
    and spec :: "'c \<Rightarrow> call_spec"
  assumes sends: "\<exists>cmd RespSize. run k c d = snd (snd (send_command k (cl_queue (spec c)) cmd RespSize False d))
      \<and> cl_queue (spec c) < 2 \<and> RespSize = cl_resp (spec c) \<and> sg_chunks RespSize \<le> 3 \<and> cmd_wf cmd \<and> cmd_matches (spec c) cmd"
    and no_submit: "cl_type (spec c) \<noteq> VIRTIO_GPU_CMD_SUBMIT_3D"
begin

lemma run_frame: "g_Capsets (run k c d) = g_Capsets d"
  using sends [of k c d] by auto

lemma run_regions: "queue_regions (run k c d) = queue_regions d"
proof -
  obtain cmd r where c: "run k c d = snd (snd (send_command k (cl_queue (spec c)) cmd r False d))"
    "sg_chunks r \<le> 3" "cmd_matches (spec c) cmd"
    using sends [of k c d] by blast
  have "\<not> is_submit cmd" using c(3) no_submit [of c]
    by (simp add: cmd_matches_def is_submit_def del: ctrl_type_code.simps)
  from send_regions [OF this c(2)] show ?thesis by (simp add: c(1))
qed

lemma run_acct:
  assumes "device_acct L d" and "pool_ok k"
  shows "\<exists>L'. L \<subseteq># L' \<and> (accepts_all k \<longrightarrow> L' = L) \<and> device_acct L' (run k c d)"
proof -
  obtain cmd r where c: "run k c d = snd (snd (send_command k (cl_queue (spec c)) cmd r False d))"
    "cl_queue (spec c) < 2" "sg_chunks r \<le> 3" "cmd_wf cmd"
    using sends [of k c d] by blast
  obtain status b d' where s: "send_command k (cl_queue (spec c)) cmd r False d = (status, b, d')"
    by (cases "send_command k (cl_queue (spec c)) cmd r False d")
  have "if NT_SUCCESS status then device_acct L d' else device_acct (add_mset (bf_pBuf b) L) d'"
    by (rule acct_send [OF assms c(4,3,2) s])
  moreover have "accepts_all k \<longrightarrow> NT_SUCCESS status"
  proof
    assume a: "accepts_all k"
    have "cl_queue (spec c) < length (dv_VirtQueues d)"
      using assms(1) c(2) by (simp add: device_acct_def)
    from send_command_accepted [OF a c(3) this, of cmd False] s show "NT_SUCCESS status"
      by (simp add: Let_def)
  qed
  moreover have "L \<subseteq># add_mset (bf_pBuf b) L" by simp
  ultimately have "\<exists>L'. L \<subseteq># L' \<and> (accepts_all k \<longrightarrow> L' = L) \<and> device_acct L' d'"
    by (intro exI [of _ "if NT_SUCCESS status then L else add_mset (bf_pBuf b) L"]) auto
  then show ?thesis by (simp add: c(1) s)
qed

lemma run_log:
  assumes "accepts_all k" and "device_acct L d"
  shows "\<exists>es. dv_log (run k c d) = dv_log d @ es \<and> (\<forall>sps es'. log_matches sps es' \<longrightarrow> log_matches (spec c # sps) (es @ es'))"
proof -
  obtain cmd r where c: "run k c d = snd (snd (send_command k (cl_queue (spec c)) cmd r False d))"
    "cl_queue (spec c) < 2" "sg_chunks r \<le> 3" "cmd_wf cmd" "cmd_matches (spec c) cmd"
    using sends [of k c d] by blast
  have "cl_queue (spec c) < length (dv_VirtQueues d)"
    using assms(2) c(2) by (simp add: device_acct_def)
  moreover have "unat (of_nat (sg_chunks r) :: u32) = sg_chunks r"
    using c(3) by (intro unat_of_nat_u32) simp
  ultimately show ?thesis
    using send_command_accepted [OF assms(1) c(3), of "cl_queue (spec c)" d cmd False] c
    by (simp add: Let_def sent_sg_def)
qed

lemma run_pushes:
  assumes "accepts_all k" and "device_acct L d"
  shows "\<exists>b. cmd_wf (bf_cmd b) \<and> encode_cmd (bf_cmd b) = command_bytes (spec c)
    \<and> dv_log (run k c d) = dv_log d @ pushed k (spec c) b
    \<and> (\<forall>q. q < 2 \<longrightarrow> dv_VirtQueues (run k c d) ! q = dv_VirtQueues d ! q @ (if cl_queue (spec c) = q then [b] else []))"
proof -
  obtain cmd where c: "run k c d = snd (snd (send_command k (cl_queue (spec c)) cmd (cl_resp (spec c)) False d))"
    "cl_queue (spec c) < 2" "sg_chunks (cl_resp (spec c)) \<le> 3" "cmd_wf cmd" "cmd_matches (spec c) cmd"
    using sends [of k c d] by blast
  let ?b = "sent_buffer k cmd (cl_resp (spec c)) False d"
  have bytes: "encode_cmd cmd = command_bytes (spec c)" using c(5) by (simp add: cmd_matches_def)
  then have "length (command_bytes (spec c)) = unat (cmd_sizeof cmd)" using length_encode_cmd [of cmd] by simp
  moreover have "of_nat (unat (cmd_sizeof cmd)) = (ucast (cmd_sizeof cmd) :: u32)" by (cases cmd) simp_all
  ultimately have "of_nat (length (command_bytes (spec c))) = cmd_sizeof cmd"
    "of_nat (length (command_bytes (spec c))) = (ucast (cmd_sizeof cmd) :: u32)"
    by simp_all
  moreover have "bf_pRespBuf ?b = bf_pBuf ?b + cmd_sizeof cmd" if "cl_resp (spec c) \<noteq> 0"
    using that by (simp add: sent_buffer_def AllocateCommandBuffer_def Let_def word_neq_0_conv)
  ultimately have "[QAdd (cl_queue (spec c)) cmd (sent_sg k cmd (cl_resp (spec c)) ?b) 1 (of_nat (sg_chunks (cl_resp (spec c)))),
      QKick (cl_queue (spec c))] = pushed k (spec c) ?b"
    by (cases "cl_resp (spec c) = 0") (simp_all add: pushed_def sent_sg_def)
  moreover have two: "length (dv_VirtQueues d) \<ge> 2" using assms(2) by (simp add: device_acct_def)
  ultimately show ?thesis
    using send_command_accepted [OF assms(1) c(3), of "cl_queue (spec c)" d cmd False] c(1,2,4) bytes
    by (intro exI [of _ ?b]) (simp add: Let_def nth_list_update)
qed

lemma runs_acct:
  assumes "device_acct L d" and "pool_ok k"
  shows "\<exists>L'. L \<subseteq># L' \<and> (accepts_all k \<longrightarrow> L' = L) \<and> device_acct L' (runs (run k) cs d)"
  using assms(1)
proof (induction cs arbitrary: L d)
  case Nil
  then show ?case by auto
next
  case (Cons c cs)
  from run_acct [OF Cons.prems assms(2)] obtain L1 where
    1: "L \<subseteq># L1" "accepts_all k \<longrightarrow> L1 = L" "device_acct L1 (run k c d)" by blast
  from Cons.IH [OF 1(3)] obtain L2 where
    "L1 \<subseteq># L2" "accepts_all k \<longrightarrow> L2 = L1" "device_acct L2 (runs (run k) cs (run k c d))" by blast
  with 1 show ?case by (auto intro: subset_mset.trans)
qed

lemma runs_log:
  assumes "accepts_all k" and "device_acct L d" and "pool_ok k"
  shows "\<exists>es. dv_log (runs (run k) cs d) = dv_log d @ es \<and> log_matches (map spec cs) es"
  using assms(2)
proof (induction cs arbitrary: d)
  case Nil
  then show ?case by simp
next
  case (Cons c cs)
  from run_acct [OF Cons.prems assms(3)] assms(1) have 1: "device_acct L (run k c d)" by auto
  from run_log [OF assms(1) Cons.prems, of c] Cons.IH [OF 1] show ?case by auto
qed

lemma runs_push:
  assumes "accepts_all k" and "device_acct L d" and "pool_ok k"
  shows "\<exists>bs. list_all2 (\<lambda>c b. cmd_wf (bf_cmd b) \<and> encode_cmd (bf_cmd b) = command_bytes (spec c)) cs bs
    \<and> dv_log (runs (run k) cs d) = dv_log d @ concat (map2 (\<lambda>c. pushed k (spec c)) cs bs)
    \<and> (\<forall>q. q < 2 \<longrightarrow> dv_VirtQueues (runs (run k) cs d) ! q
          = dv_VirtQueues d ! q @ map snd (filter (\<lambda>(c, b). cl_queue (spec c) = q) (zip cs bs)))"
  using assms(2)
proof (induction cs arbitrary: d)
  case Nil
  then show ?case by (intro exI [of _ "[]"]) simp
next
  case (Cons c cs)
  from run_pushes [OF assms(1) Cons.prems, of c] obtain b where
    b: "cmd_wf (bf_cmd b)" "encode_cmd (bf_cmd b) = command_bytes (spec c)"
    "dv_log (run k c d) = dv_log d @ pushed k (spec c) b"
    "\<forall>q. q < 2 \<longrightarrow> dv_VirtQueues (run k c d) ! q = dv_VirtQueues d ! q @ (if cl_queue (spec c) = q then [b] else [])"
    by blast
  from run_acct [OF Cons.prems assms(3)] assms(1) have "device_acct L (run k c d)" by auto
  from Cons.IH [OF this] obtain bs where
    "list_all2 (\<lambda>c b. cmd_wf (bf_cmd b) \<and> encode_cmd (bf_cmd b) = command_bytes (spec c)) cs bs"
    "dv_log (runs (run k) cs (run k c d)) = dv_log (run k c d) @ concat (map2 (\<lambda>c. pushed k (spec c)) cs bs)"
    "\<forall>q. q < 2 \<longrightarrow> dv_VirtQueues (runs (run k) cs (run k c d)) ! q
      = dv_VirtQueues (run k c d) ! q @ map snd (filter (\<lambda>(c, b). cl_queue (spec c) = q) (zip cs bs))"
    by blast
  with b show ?case by (intro exI [of _ "b # bs"]) simp
qed

end

text \<open>The builders as one such sender.\<close>

datatype gpu_call =
    Call_CreateVirglContext u32 u32
  | Call_DestroyVirglContext u32
  | Call_TransferToHost2D u32 virtgpu_transfer_host_2d_param
  | Call_TransferHost3D u32 virtgpu_transfer_host_3d_param u64 bool
  | Call_Create2DResource u32 u32 virtgpu_resource_create_param u64
  | Call_Create3DResource u32 u32 virtgpu_resource_create_param u64
  | Call_CreateBlobResource u32 u32 virtgpu_blob_resource_create_param u64
  | Call_MapBlobResource u32 u32 u64
  | Call_UnMapBlobResource u32 u32 u64
  | Call_AttachResourceBacking u32 virgl_resource
  | Call_DetachResourceBacking virgl_resource
  | Call_AttachResource u32 u32
  | Call_DetachResource u32 u32
  | Call_UnrefResource u32 u32

fun run_call :: "kernel \<Rightarrow> gpu_call \<Rightarrow> device \<Rightarrow> device" where
  "run_call k (Call_CreateVirglContext c i) = CreateVirglContext k c i"
| "run_call k (Call_DestroyVirglContext c) = DestroyVirglContext k c"
| "run_call k (Call_TransferToHost2D c t) = TransferToHost2D k c t"
| "run_call k (Call_TransferHost3D c t f b) = TransferHost3D k c t f b"
| "run_call k (Call_Create2DResource c r p f) = Create2DResource k c r p f"
| "run_call k (Call_Create3DResource c r p f) = Create3DResource k c r p f"
| "run_call k (Call_CreateBlobResource c r p f) = CreateBlobResource k c r p f"
| "run_call k (Call_MapBlobResource c r f) = MapBlobResource k c r f"
| "run_call k (Call_UnMapBlobResource c r f) = UnMapBlobResource k c r f"
| "run_call k (Call_AttachResourceBacking c r) = AttachResourceBacking k c r"
| "run_call k (Call_DetachResourceBacking r) = DetachResourceBacking k r"
| "run_call k (Call_AttachResource c r) = AttachResource k c r"
| "run_call k (Call_DetachResource c r) = DetachResource k c r"
| "run_call k (Call_UnrefResource c r) = UnrefResource k c r"

fun spec_of :: "gpu_call \<Rightarrow> call_spec" where
  "spec_of (Call_CreateVirglContext c i) = \<lparr>cl_queue = 1, cl_type = VIRTIO_GPU_CMD_CTX_CREATE,
     cl_ctx = c, cl_resource = None, cl_fence = 0, cl_resp = 0,
     cl_payload = le32 8 @ le32 i @ [0x74, 0x65, 0x6E, 0x63, 0x6C, 0x61, 0x73, 0x73] @ replicate 56 0\<rparr>"
| "spec_of (Call_DestroyVirglContext c) = \<lparr>cl_queue = 1, cl_type = VIRTIO_GPU_CMD_CTX_DESTROY,
     cl_ctx = c, cl_resource = None, cl_fence = 0, cl_resp = 0, cl_payload = []\<rparr>"
| "spec_of (Call_TransferToHost2D c t) = \<lparr>cl_queue = 0, cl_type = VIRTIO_GPU_CMD_TRANSFER_TO_HOST_2D,
     cl_ctx = c, cl_resource = Some (tp2_resource_id t), cl_fence = 0, cl_resp = 0,
     cl_payload = le32 (rc_x (tp2_r t)) @ le32 (rc_y (tp2_r t)) @ le32 (rc_width (tp2_r t)) @ le32 (rc_height (tp2_r t))
       @ le64 (tp2_offset t) @ le32 (tp2_resource_id t) @ le32 0\<rparr>"
| "spec_of (Call_TransferHost3D c t f b) = \<lparr>cl_queue = 0,
     cl_type = if b then VIRTIO_GPU_CMD_TRANSFER_TO_HOST_3D else VIRTIO_GPU_CMD_TRANSFER_FROM_HOST_3D,
     cl_ctx = c, cl_resource = Some (tp3_resource_id t), cl_fence = f, cl_resp = 0,
     cl_payload = le32 (bx_x (tp3_box t)) @ le32 (bx_y (tp3_box t)) @ le32 (bx_z (tp3_box t))
       @ le32 (bx_w (tp3_box t)) @ le32 (bx_h (tp3_box t)) @ le32 (bx_d (tp3_box t)) @ le64 (tp3_offset t)
       @ le32 (tp3_resource_id t) @ le32 (tp3_level t) @ le32 (tp3_stride t) @ le32 (tp3_layer_stride t)\<rparr>"
| "spec_of (Call_Create2DResource c r p f) = \<lparr>cl_queue = 0, cl_type = VIRTIO_GPU_CMD_RESOURCE_CREATE_2D,
     cl_ctx = c, cl_resource = Some r, cl_fence = f, cl_resp = 0,
     cl_payload = le32 r @ le32 (rp_format p) @ le32 (rp_width p) @ le32 (rp_height p)\<rparr>"
| "spec_of (Call_Create3DResource c r p f) = \<lparr>cl_queue = 0, cl_type = VIRTIO_GPU_CMD_RESOURCE_CREATE_3D,
     cl_ctx = c, cl_resource = Some r, cl_fence = f, cl_resp = 0,
     cl_payload = le32 r @ le32 (rp_target p) @ le32 (rp_format p) @ le32 (rp_bind p) @ le32 (rp_width p)
       @ le32 (rp_height p) @ le32 (rp_depth p) @ le32 (rp_array_size p) @ le32 (rp_last_level p)
       @ le32 (rp_nr_samples p) @ le32 (rp_flags p) @ le32 0\<rparr>"
| "spec_of (Call_CreateBlobResource c r p f) = \<lparr>cl_queue = 0,
     cl_type = VIRTIO_GPU_CMD_RESOURCE_CREATE_BLOB, cl_ctx = c, cl_resource = Some r, cl_fence = f, cl_resp = 0,
     cl_payload = le32 r @ le32 (bp_blob_mem p) @ le32 (bp_blob_flags p) @ le32 (bp_nr_entries p)
       @ le64 (bp_blob_id p) @ le64 (bp_size p) @ le32 (bp_format p) @ le32 (bp_bind p) @ le32 (bp_target p)
       @ le32 (bp_width p) @ le32 (bp_height p) @ le32 (bp_depth p) @ le32 (bp_array_size p)
       @ le32 (bp_last_level p) @ le32 (bp_nr_samples p) @ le32 (bp_flags p)\<rparr>"
| "spec_of (Call_MapBlobResource c r f) = \<lparr>cl_queue = 0, cl_type = VIRTIO_GPU_CMD_RESOURCE_MAP_BLOB,
     cl_ctx = c, cl_resource = Some r, cl_fence = f, cl_resp = 48, cl_payload = le32 r @ le32 0\<rparr>"
| "spec_of (Call_UnMapBlobResource c r f) = \<lparr>cl_queue = 0, cl_type = VIRTIO_GPU_CMD_RESOURCE_UNMAP_BLOB,
     cl_ctx = c, cl_resource = Some r, cl_fence = f, cl_resp = 0, cl_payload = le32 r @ le32 0\<rparr>"
| "spec_of (Call_AttachResourceBacking c r) = \<lparr>cl_queue = 0,
     cl_type = VIRTIO_GPU_CMD_RESOURCE_ATTACH_BACKING, cl_ctx = c, cl_resource = Some (vr_Id r), cl_fence = 0,
     cl_resp = 0, cl_payload = le32 (vr_Id r) @ le32 0 @ le64 (md_PhysicalAddress (mb_Memory (vr_Buffer r)))
       @ le32 (ucast (mb_Size (vr_Buffer r)))\<rparr>"
| "spec_of (Call_DetachResourceBacking r) = \<lparr>cl_queue = 0,
     cl_type = VIRTIO_GPU_CMD_RESOURCE_DETACH_BACKING, cl_ctx = 0, cl_resource = Some (vr_Id r), cl_fence = 0,
     cl_resp = 0, cl_payload = le32 (vr_Id r) @ le32 0\<rparr>"
| "spec_of (Call_AttachResource c r) = \<lparr>cl_queue = 0, cl_type = VIRTIO_GPU_CMD_CTX_ATTACH_RESOURCE,
     cl_ctx = c, cl_resource = Some r, cl_fence = 0, cl_resp = 0, cl_payload = le32 r @ le32 0\<rparr>"
| "spec_of (Call_DetachResource c r) = \<lparr>cl_queue = 0, cl_type = VIRTIO_GPU_CMD_CTX_DETACH_RESOURCE,
     cl_ctx = c, cl_resource = Some r, cl_fence = 0, cl_resp = 0, cl_payload = le32 r @ le32 0\<rparr>"
| "spec_of (Call_UnrefResource c r) = \<lparr>cl_queue = 0, cl_type = VIRTIO_GPU_CMD_RESOURCE_UNREF,
     cl_ctx = c, cl_resource = Some r, cl_fence = 0, cl_resp = 0, cl_payload = le32 r @ le32 0\<rparr>"

lemmas builder_defs = CreateVirglContext_def DestroyVirglContext_def TransferToHost2D_def
  TransferHost3D_def Create2DResource_def Create3DResource_def CreateBlobResource_def
  MapBlobResource_def UnMapBlobResource_def AttachResourceBacking_def DetachResourceBacking_def
  AttachResource_def DetachResource_def UnrefResource_def

lemma set_fence_simps [simp]:
  "hdr_type (set_fence f (hdr_for t c)) = ctrl_type_code t"
  "hdr_ctx_id (set_fence f (hdr_for t c)) = c"
  "hdr_fence_id (set_fence f (hdr_for t c)) = f"
  "hdr_flags (set_fence f (hdr_for t c)) = (if 0 < f then VIRTIO_GPU_FLAG_FENCE else 0)"
  "set_fence 0 h = h"
  by (auto simp: set_fence_def hdr_for_def zero_hdr_def word_neq_0_conv [symmetric])

lemma hdr_for_simps [simp]:
  "hdr_type (hdr_for t c) = ctrl_type_code t" "hdr_ctx_id (hdr_for t c) = c"
  "hdr_fence_id (hdr_for t c) = 0" "hdr_flags (hdr_for t c) = 0"
  by (simp_all add: hdr_for_def zero_hdr_def)

lemma context_name_64:
  "length (debug_name @ drop (length debug_name) (cc_debug_name zero_ctx_create)) = 64"
  by (simp add: debug_name_def zero_ctx_create_def)

lemma encode_command_hdr:
  "encode_hdr (hdr_for t c) = le32 (ctrl_type_code t) @ le32 0 @ le64 0 @ le32 c @ [0, 0, 0, 0]"
  "encode_hdr (set_fence f (hdr_for t c)) = le32 (ctrl_type_code t) @ le32 (if 0 < f then VIRTIO_GPU_FLAG_FENCE else 0)
     @ le64 f @ le32 c @ [0, 0, 0, 0]"
proof -
  have "hdr_ring_idx (set_fence f (hdr_for t c)) = 0 \<and> hdr_padding (set_fence f (hdr_for t c)) = (0, 0, 0)" for f
    by (simp add: set_fence_def hdr_for_def zero_hdr_def)
  then show "encode_hdr (set_fence f (hdr_for t c)) = le32 (ctrl_type_code t)
      @ le32 (if 0 < f then VIRTIO_GPU_FLAG_FENCE else 0) @ le64 f @ le32 c @ [0, 0, 0, 0]"
    by (simp add: encode_hdr_def)
  show "encode_hdr (hdr_for t c) = le32 (ctrl_type_code t) @ le32 0 @ le64 0 @ le32 c @ [0, 0, 0, 0]"
    by (simp add: encode_hdr_def hdr_for_def zero_hdr_def)
qed

lemmas command_bytes_defs = command_bytes_def encode_command_hdr debug_name_def encode_box_def encode_rect_def
  encode_ctx_create_def zero_ctx_create_def encode_ctx_destroy_def zero_ctx_destroy_def
  encode_transfer_to_host_2d_def zero_transfer_to_host_2d_def encode_transfer_host_3d_def zero_transfer_host_3d_def
  encode_resource_create_2d_def zero_resource_create_2d_def encode_resource_create_3d_def zero_resource_create_3d_def
  encode_resource_create_blob_def zero_resource_create_blob_def encode_resource_map_blob_def zero_resource_map_blob_def
  encode_resource_unmap_blob_def zero_resource_unmap_blob_def encode_resource_attach_backing_def
  zero_resource_attach_backing_def encode_resource_detach_backing_def zero_resource_detach_backing_def
  encode_ctx_resource_def zero_ctx_resource_def encode_resource_unref_def zero_resource_unref_def

interpretation gpu: command_sender run_call spec_of
proof
  fix k c and d :: "device"
  show "\<exists>cmd RespSize. run_call k c d = snd (snd (send_command k (cl_queue (spec_of c)) cmd RespSize False d))
      \<and> cl_queue (spec_of c) < 2 \<and> RespSize = cl_resp (spec_of c) \<and> sg_chunks RespSize \<le> 3 \<and> cmd_wf cmd \<and> cmd_matches (spec_of c) cmd"
    by (cases c; simp only: run_call.simps spec_of.simps call_spec.simps builder_defs Let_def
          case_prod_beta COMMAND_QUEUE_def CONTROL_QUEUE_def;
        (rule exI)+; rule conjI, rule refl)
      (simp_all add: cmd_wf_def cmd_matches_def context_name_64 [simplified] command_bytes_defs)
  show "cl_type (spec_of c) \<noteq> VIRTIO_GPU_CMD_SUBMIT_3D" by (cases c) simp_all
qed

subsection \<open>The queries against their specification\<close>

text \<open>One query stores the host's answer and leaves queues, buffers and log accounts as they
  were.\<close>

definition store_caps :: "u32 \<Rightarrow> virtio_gpu_resp_capset_info \<Rightarrow> capsets \<Rightarrow> capsets" where
  "store_caps i resp caps =
     caps\<lparr>cps_Data := (cps_Data caps)[unat i := \<lparr>cs_id = rci_capset_id resp,
            cs_max_version = rci_capset_max_version resp, cs_max_size = rci_capset_max_size resp\<rparr>],
          cps_CapsetIdMask := cps_CapsetIdMask caps OR bit_of (rci_capset_id resp)\<rparr>"

lemma push_success:
  "PushQueue k q sg out_num in_num b d = (status, d') \<Longrightarrow> NT_SUCCESS status \<Longrightarrow>
     q < length (dv_VirtQueues d) \<and> dv_VirtQueues d' = (dv_VirtQueues d)[q := dv_VirtQueues d ! q @ [b]]
     \<and> g_Capsets d' = g_Capsets d"
  by (auto simp: PushQueue_def Let_def split: if_splits)

lemma acct_send_completed:
  assumes "device_acct L d" and "pool_ok k" and "cmd_wf cmd" and "sg_chunks RespSize \<le> 3" and "q < 2"
    and "send_command k q cmd RespSize True d = (status, b, d')" and "NT_SUCCESS status"
  shows "device_acct (add_mset (bf_pBuf b) L) (completed q b d')" "bf_pBuf b \<noteq> 0"
    "map mset (dv_VirtQueues (completed q b d')) = map mset (dv_VirtQueues d)"
    "g_Capsets (completed q b d') = g_Capsets d"
proof -
  have p: "PushQueue k q (sent_sg k cmd RespSize b) 1 (of_nat (sg_chunks RespSize)) b
      (snd (AllocateCommandBuffer k (cmd_sizeof cmd) RespSize True 0 d)) = (status, d')"
    using assms(6) by (auto simp: send_command_fits [OF assms(4)] Let_def split: prod.splits)
  have d': "q < length (dv_VirtQueues d)" "dv_VirtQueues d' = (dv_VirtQueues d)[q := dv_VirtQueues d ! q @ [b]]"
    "g_Capsets d' = g_Capsets d"
    using push_success [OF p assms(7)] by (simp_all add: alloc_device)
  from acct_send [OF assms(1,2,3,4,5,6)] assms(7) have a: "device_acct L d'" by simp
  have "b \<in> set (dv_VirtQueues d' ! q)" "q < length (dv_VirtQueues d')" using d'(1) by (simp_all add: d'(2))
  from acct_dequeue [OF a this(2,1)]
  show "device_acct (add_mset (bf_pBuf b) L) (completed q b d')" "bf_pBuf b \<noteq> 0"
    by (simp_all add: completed_def)
  show "map mset (dv_VirtQueues (completed q b d')) = map mset (dv_VirtQueues d)"
    using d'(1) by (simp add: completed_def d'(2) map_update list_update_same_conv)
  show "g_Capsets (completed q b d') = g_Capsets d" by (simp add: completed_def d'(3))
qed

lemma accepted_status:
  "accepts_all k \<Longrightarrow> sg_chunks RespSize \<le> 3 \<Longrightarrow> device_acct L d \<Longrightarrow> q < 2 \<Longrightarrow>
   send_command k q cmd RespSize s d = (status, b, d') \<Longrightarrow> status = STATUS_SUCCESS"
  using send_command_accepted [of k RespSize q d cmd s] by (simp add: device_acct_def Let_def)

definition caps_info_cmd :: "u32 \<Rightarrow> gpu_cmd" where
  "caps_info_cmd i = Cmd_get_capset_info (zero_get_capset_info
     \<lparr>gci_hdr := hdr_for VIRTIO_GPU_CMD_GET_CAPSET_INFO 0, gci_capset_index := i\<rparr>)"

lemma caps_info_step_result:
  assumes "device_acct L d" and "pool_ok k" and "unat i < length (cps_Data (g_Capsets d))"
    and "caps_info_step k i d = Some d'"
  shows "\<exists>resp. kn_capset_info k i = Some resp \<and> device_acct L d'
    \<and> map mset (dv_VirtQueues d') = map mset (dv_VirtQueues d)
    \<and> g_Capsets d' = store_caps i resp (g_Capsets d)"
proof -
  obtain status b d1 where s: "send_command k CONTROL_QUEUE (caps_info_cmd i) 40 True d = (status, b, d1)"
    by (cases "send_command k CONTROL_QUEUE (caps_info_cmd i) 40 True d")
  from assms(4) obtain resp where ok: "NT_SUCCESS status" "kn_capset_info k i = Some resp"
    by (auto simp: caps_info_step_def s [unfolded caps_info_cmd_def] Let_def split: if_splits option.splits)
  have "cmd_wf (caps_info_cmd i)" by (simp add: cmd_wf_def caps_info_cmd_def)
  note c = acct_send_completed [OF assms(1,2) this _ queue_bounds(2) s ok(1), simplified]
  let ?d2 = "completed CONTROL_QUEUE b d1"
  let ?d3 = "?d2\<lparr>g_Capsets := store_caps i resp (g_Capsets ?d2), dv_faults := dv_faults ?d2 @ []\<rparr>"
  have step: "d' = FreeCommandBuffer b ?d3"
    using assms(3,4) ok c(4)
    by (simp add: caps_info_step_def s [unfolded caps_info_cmd_def] store_caps_def Let_def)
  have "device_acct (add_mset (bf_pBuf b) L) ?d3"
    using c(1) by (simp add: device_acct_def)
  from acct_free [OF this] c(2) have "device_acct L (FreeCommandBuffer b ?d3)" by simp
  with step c(3,4) ok(2) show ?thesis by simp
qed

lemma caps_info_step_answers:
  assumes "device_acct L d" and "accepts_all k" and "kn_capset_info k i \<noteq> None"
  shows "caps_info_step k i d \<noteq> None"
proof -
  obtain status b d1 where s: "send_command k CONTROL_QUEUE (caps_info_cmd i) 40 True d = (status, b, d1)"
    by (cases "send_command k CONTROL_QUEUE (caps_info_cmd i) 40 True d")
  have "status = STATUS_SUCCESS"
    using accepted_status [OF assms(2) _ assms(1) queue_bounds(2) s] by simp
  then show ?thesis
    using assms(3) by (auto simp: caps_info_step_def s [unfolded caps_info_cmd_def] Let_def)
qed

fun store_all :: "(u32 \<Rightarrow> virtio_gpu_resp_capset_info) \<Rightarrow> u32 list \<Rightarrow> capsets \<Rightarrow> capsets" where
  "store_all host [] caps = caps"
| "store_all host (i # is) caps = store_all host is (store_caps i (host i) caps)"

lemma caps_info_loop_result:
  assumes "device_acct L d" and "pool_ok k"
    and "\<forall>i \<in> set is. unat i < length (cps_Data (g_Capsets d))" and "caps_info_loop k is d = Some d'"
  shows "device_acct L d' \<and> map mset (dv_VirtQueues d') = map mset (dv_VirtQueues d)
    \<and> g_Capsets d' = store_all (\<lambda>i. the (kn_capset_info k i)) is (g_Capsets d)
    \<and> (\<forall>i \<in> set is. kn_capset_info k i \<noteq> None)"
  using assms(1,3,4)
proof (induction "is" arbitrary: d)
  case Nil
  then show ?case by simp
next
  case (Cons i "is")
  from Cons.prems(3) obtain d1 where d1: "caps_info_step k i d = Some d1" "caps_info_loop k is d1 = Some d'"
    by (auto split: option.splits)
  have "unat i < length (cps_Data (g_Capsets d))" using Cons.prems(2) by simp
  from caps_info_step_result [OF Cons.prems(1) assms(2) this d1(1)] obtain resp where
    1: "kn_capset_info k i = Some resp" "device_acct L d1"
    "map mset (dv_VirtQueues d1) = map mset (dv_VirtQueues d)"
    "g_Capsets d1 = store_caps i resp (g_Capsets d)" by blast
  have "\<forall>i \<in> set is. unat i < length (cps_Data (g_Capsets d1))"
    using Cons.prems(2) by (simp add: 1(4) store_caps_def)
  from Cons.IH [OF 1(2) this d1(2)] show ?case by (simp add: 1)
qed

lemma caps_info_loop_answers:
  assumes "device_acct L d" and "pool_ok k" and "accepts_all k" and "\<forall>i \<in> set is. kn_capset_info k i \<noteq> None"
    and "\<forall>i \<in> set is. unat i < length (cps_Data (g_Capsets d))"
  shows "\<exists>d'. caps_info_loop k is d = Some d'"
  using assms(1,4,5)
proof (induction "is" arbitrary: d)
  case Nil
  then show ?case by simp
next
  case (Cons i "is")
  obtain d1 where d1: "caps_info_step k i d = Some d1"
    using caps_info_step_answers [OF Cons.prems(1) assms(3)] Cons.prems(2) by fastforce
  have "unat i < length (cps_Data (g_Capsets d))" using Cons.prems(3) by simp
  from caps_info_step_result [OF Cons.prems(1) assms(2) this d1] obtain resp where
    1: "device_acct L d1" "g_Capsets d1 = store_caps i resp (g_Capsets d)" by blast
  have "\<forall>i \<in> set is. unat i < length (cps_Data (g_Capsets d1))"
    using Cons.prems(3) by (simp add: 1(2) store_caps_def)
  from Cons.IH [OF 1(1) _ this] Cons.prems(2) show ?case by (simp add: d1)
qed

text \<open>\<open>GetCaps\<close>, when it returns.\<close>

lemma GetCaps_result:
  assumes "device_acct L d" and "pool_ok k" and "GetCaps k i v d = Some (bytes, d')"
    and "cs_max_size (cps_Data (g_Capsets d) ! i) \<le> 12264"
  shows "device_acct L d' \<and> queue_regions d' = queue_regions d \<and> g_Capsets d' = g_Capsets d
    \<and> length bytes = unat (cs_max_size (cps_Data (g_Capsets d) ! i))
    \<and> map mset (dv_VirtQueues d') = map mset (dv_VirtQueues d)"
proof -
  let ?c = "cps_Data (g_Capsets d) ! i"
  let ?cmd = "Cmd_get_capset (zero_get_capset\<lparr>gc_hdr := hdr_for VIRTIO_GPU_CMD_GET_CAPSET 0,
      gc_capset_id := cs_id ?c, gc_capset_version := v\<rparr>)"
  let ?sz = "24 + (ucast (cs_max_size ?c) :: u64)"
  have "unat (cs_max_size ?c) \<le> 12264" using assms(4) by (simp add: word_le_nat_alt)
  then have "unat ?sz = 24 + unat (cs_max_size ?c)"
    by (simp add: unat_word_ariths unat_ucast_u32_u64)
  with \<open>unat (cs_max_size ?c) \<le> 12264\<close> have fits: "sg_chunks ?sz \<le> 3"
    by (simp add: sg_chunks_def)
  obtain status b d1 where s: "send_command k CONTROL_QUEUE ?cmd ?sz True d = (status, b, d1)"
    by (cases "send_command k CONTROL_QUEUE ?cmd ?sz True d")
  from assms(3) obtain answer where ok: "NT_SUCCESS status" and
    r: "bytes = take (unat (cs_max_size ?c)) (answer @ replicate (unat (cs_max_size ?c)) 0)"
    "d' = FreeCommandBuffer b (completed CONTROL_QUEUE b d1)"
    by (auto simp: GetCaps_def s Let_def split: if_splits option.splits)
  have "cmd_wf ?cmd" by (simp add: cmd_wf_def)
  note c = acct_send_completed [OF assms(1,2) this fits queue_bounds(2) s ok]
  have "queue_regions d' = queue_regions (completed CONTROL_QUEUE b d1)"
    by (rule queue_regions_cong) (simp add: r(2))
  also have "\<dots> = queue_regions d" by (rule queue_regions_mset [OF c(3)])
  finally show ?thesis using acct_free [OF c(1,2)] c(3,4) by (simp add: r)
qed

text \<open>\<open>SubmitCommand\<close>: what it pushes.\<close>

lemma SubmitCommand_push:
  assumes "SubmitCommand k ctx m bufsz sz ids n f obj d = (status, d')"
  shows "\<exists>b. PushQueue k COMMAND_QUEUE
        [\<lparr>sg_physAddr = kn_phys k (bf_pBuf b), sg_length = 32\<rparr>,
         \<lparr>sg_physAddr = md_PhysicalAddress m, sg_length = ucast sz\<rparr>] 2 0 b
        (snd (AllocateCommandBuffer k 32 0 False 0 d)) = (status, d')
    \<and> bf_pBuf b = kn_pool k (dv_allocs d) (32 + 0) \<and> bf_pDataBuf b = md_VirtualAddress m \<and> bf_DataBufSize b = bufsz
    \<and> bf_ResourceIds b = ids \<and> bf_ResourceIdsCount b = n \<and> bf_FenceObject b = obj
    \<and> bf_cmd b = Cmd_cmd_submit (zero_cmd_submit
         \<lparr>sb_hdr := set_fence f (hdr_for VIRTIO_GPU_CMD_SUBMIT_3D ctx), sb_size := ucast sz\<rparr>)"
proof -
  obtain b0 d1 where a: "AllocateCommandBuffer k 32 0 False 0 d = (b0, d1)"
    by (cases "AllocateCommandBuffer k 32 0 False 0 d")
  have one: "BuildSGElement k 4 p 32 = (1, [\<lparr>sg_physAddr = kn_phys k p, sg_length = 32\<rparr>])" for p
    using BuildSGElement_small [of 32 4 k p] by simp
  show ?thesis
    using assms alloc_pBuf [of k 32 0 False 0 d b0]
    by (intro exI [of _ "b0\<lparr>bf_ResourceIds := ids, bf_ResourceIdsCount := n, bf_pDataBuf := md_VirtualAddress m,
          bf_DataBufSize := bufsz, bf_FenceObject := obj, bf_cmd := Cmd_cmd_submit (zero_cmd_submit
            \<lparr>sb_hdr := set_fence f (hdr_for VIRTIO_GPU_CMD_SUBMIT_3D ctx), sb_size := ucast sz\<rparr>)\<rparr>"])
      (simp add: SubmitCommand_def a one check_sg_def SGLIST_SIZE_def Let_def)
qed

lemma SubmitCommand_result:
  assumes "device_acct L d" and "pool_ok k" and "SubmitCommand k ctx m bufsz sz ids n f obj d = (status, d')"
  shows "\<exists>L'. L \<subseteq># L' \<and> (NT_SUCCESS status \<longrightarrow> L' = L) \<and> device_acct L' d'"
    and "queue_regions d' = queue_regions d + (if NT_SUCCESS status then {#(md_VirtualAddress m, bufsz)#} else {#})"
    and "g_Capsets d' = g_Capsets d" and "accepts_all k \<Longrightarrow> NT_SUCCESS status"
proof -
  from SubmitCommand_push [OF assms(3)] obtain b sg where
    p: "PushQueue k COMMAND_QUEUE sg 2 0 b (snd (AllocateCommandBuffer k 32 0 False 0 d)) = (status, d')" and
    b: "bf_pBuf b = kn_pool k (dv_allocs d) (32 + 0)" "bf_pDataBuf b = md_VirtualAddress m" "bf_DataBufSize b = bufsz"
    "bf_cmd b = Cmd_cmd_submit (zero_cmd_submit\<lparr>sb_hdr := set_fence f (hdr_for VIRTIO_GPU_CMD_SUBMIT_3D ctx), sb_size := ucast sz\<rparr>)"
    by blast
  have "device_acct (add_mset (bf_pBuf b) L) (snd (AllocateCommandBuffer k 32 0 False 0 d))"
    unfolding b(1) by (rule acct_alloc [OF assms(1)])
  from acct_push [OF this _ _ queue_bounds(1) p] assms(2)
  have "if NT_SUCCESS status then device_acct L d' else device_acct (add_mset (bf_pBuf b) L) d'"
    by (simp add: b cmd_wf_def pool_ok_def)
  then show "\<exists>L'. L \<subseteq># L' \<and> (NT_SUCCESS status \<longrightarrow> L' = L) \<and> device_acct L' d'"
    by (intro exI [of _ "if NT_SUCCESS status then L else add_mset (bf_pBuf b) L"]) (auto split: if_splits)
  have two: "2 \<le> length (dv_VirtQueues d)" using assms(1) by (simp add: device_acct_def)
  have q: "COMMAND_QUEUE < length (dv_VirtQueues (snd (AllocateCommandBuffer k 32 0 False 0 d)))"
    using two by (auto simp: alloc_device COMMAND_QUEUE_def)
  have "queue_regions (snd (AllocateCommandBuffer k 32 0 False 0 d)) = queue_regions d"
    by (rule queue_regions_cong) (simp add: alloc_device)
  with push_regions [OF q p] show "queue_regions d' = queue_regions d + (if NT_SUCCESS status then {#(md_VirtualAddress m, bufsz)#} else {#})"
    by (simp add: buf_regions_def is_submit_def b)
  show "g_Capsets d' = g_Capsets d"
  proof -
    have "d' = snd (PushQueue k COMMAND_QUEUE sg 2 0 b (snd (AllocateCommandBuffer k 32 0 False 0 d)))"
      by (simp only: p snd_conv)
    then show ?thesis by (simp only: device_frame)
  qed
  show "accepts_all k \<Longrightarrow> NT_SUCCESS status"
    using p q by (simp add: PushQueue_def accepts_all_def Let_def)
qed

lemma store_all_data:
  "length (cps_Data (store_all host is caps)) = length (cps_Data caps)"
  "n \<notin> unat ` set is \<Longrightarrow> cps_Data (store_all host is caps) ! n = cps_Data caps ! n"
  "cps_NumCaps (store_all host is caps) = cps_NumCaps caps"
  by (induction "is" arbitrary: caps) (auto simp: store_caps_def)

lemma store_all_entry:
  assumes "i \<in> set is" and "unat i < length (cps_Data caps)"
  shows "cps_Data (store_all host is caps) ! unat i = \<lparr>cs_id = rci_capset_id (host i),
    cs_max_version = rci_capset_max_version (host i), cs_max_size = rci_capset_max_size (host i)\<rparr>"
  using assms
proof (induction "is" arbitrary: caps)
  case Nil
  then show ?case by simp
next
  case (Cons j "is")
  show ?case
  proof (cases "i \<in> set is")
    case True
    then show ?thesis using Cons.prems Cons.IH by (simp add: store_caps_def)
  next
    case False
    then have "unat i \<notin> unat ` set is" by (auto dest: word_unat_eq_iff [THEN iffD2])
    with False Cons.prems show ?thesis by (simp add: store_all_data(2)) (simp add: store_caps_def)
  qed
qed

lemma bit_bit_of: "bit (bit_of c) n \<longleftrightarrow> n = unat (c AND 63)"
proof -
  have "unat (c AND 63) < 64"
  proof -
    have "c AND 63 = take_bit 6 c" by (simp add: take_bit_eq_mask mask_eq_decr_exp)
    then have "unat (c AND 63) = take_bit 6 (unat c)" by (simp only: unsigned_take_bit_eq)
    also have "\<dots> < 2 ^ 6" by (rule take_bit_nat_less_exp)
    finally show ?thesis by simp
  qed
  then show ?thesis by (auto simp: bit_of_def bit_simps)
qed

lemma store_all_mask:
  "bit (cps_CapsetIdMask (store_all host is caps)) n \<longleftrightarrow>
     bit (cps_CapsetIdMask caps) n \<or> (\<exists>i \<in> set is. n = unat (rci_capset_id (host i) AND 63))"
  by (induction "is" arbitrary: caps) (auto simp: store_caps_def bit_or_iff bit_bit_of)

subsection \<open>Properties\<close>

text \<open>The translation of addresses keeps offsets within a page.\<close>

definition page_translation :: "kernel \<Rightarrow> bool" where
  "page_translation k \<longleftrightarrow>
     (\<forall>a off. unat a mod 4096 + off < 4096 \<longrightarrow> kn_phys k (a + of_nat off) = kn_phys k a + of_nat off)"

lemma page_offset:
  assumes "unat (p :: u64) mod 4096 = 0"
  shows "unat (p + of_nat (4096 * i)) mod 4096 = 0"
proof -
  have "unat (p + of_nat (4096 * i)) mod 4096 = (unat p + 4096 * i) mod 4096"
    by (simp only: unat_plus_of_nat) (simp add: mod_mod_cancel)
  with assms show ?thesis by simp
qed

lemma sum_chunk_lengths: "(\<Sum>i<(n + 4095) div 4096. min (n - 4096 * i) 4096) = (n :: nat)"
proof (induction n rule: less_induct)
  case (less n)
  show ?case
  proof (cases "n = 0")
    case True
    then show ?thesis by simp
  next
    case False
    have s: "(n + 4095) div 4096 = Suc ((n - 4096 + 4095) div 4096)"
      using False by (cases "4096 \<le> n") (simp_all add: div_if [of "n + 4095"])
    have "(\<Sum>i<(n - 4096 + 4095) div 4096. min (n - 4096 * Suc i) 4096) = n - 4096"
      using less.IH [of "n - 4096"] False by (simp add: diff_diff_left)
    then show ?thesis
      by (simp only: s sum.lessThan_Suc_shift)
  qed
qed

text \<open>C27: a buffer of at most \<open>MaxSgCount\<close> pages that is page-aligned or lies in one page is
  described completely and within the array: the lengths add up to its size, and the j-th
  byte of the buffer is the byte the j-th position of the list points at.\<close>

theorem BuildSGElement_covers:
  assumes "sg_chunks sz \<le> unat m" and "unat m < 2 ^ 32 - 2" and "page_translation k"
    and "unat p mod 4096 = 0 \<or> unat p mod 4096 + unat sz \<le> 4096"
  shows "\<exists>n sgs. BuildSGElement k m p sz = (n, sgs) \<and> length sgs = unat n \<and> n \<le> ucast m
    \<and> (\<Sum>i<length sgs. unat (sg_length (sgs ! i))) = unat sz
    \<and> (\<forall>j < unat sz. j mod 4096 < unat (sg_length (sgs ! (j div 4096)))
         \<and> sg_physAddr (sgs ! (j div 4096)) + of_nat (j mod 4096) = kn_phys k (p + of_nat j))"
proof -
  let ?n = "sg_chunks sz" and ?sgs = "map (sg_at k p sz) [0..<sg_chunks sz]"
  have r: "BuildSGElement k m p sz = (of_nat ?n, ?sgs)"
    using assms(1,2) by (simp add: BuildSGElement_result)
  have n: "unat (of_nat ?n :: u32) = ?n" using assms(1,2) by (intro unat_of_nat_u32) simp
  have len: "unat (sg_length (sg_at k p sz i)) = min (unat sz - 4096 * i) 4096" for i
    by (simp add: sg_at_def unsigned_of_nat take_bit_nat_eq_self)
  have "(\<Sum>i<length ?sgs. unat (sg_length (?sgs ! i))) = unat sz"
    using sum_chunk_lengths [of "unat sz"] by (simp add: len sg_chunks_def)
  moreover have "j mod 4096 < unat (sg_length (?sgs ! (j div 4096)))
         \<and> sg_physAddr (?sgs ! (j div 4096)) + of_nat (j mod 4096) = kn_phys k (p + of_nat j)"
    if j: "j < unat sz" for j
  proof -
    have d: "j div 4096 < ?n" using j unfolding sg_chunks_def by linarith
    have e: "j = 4096 * (j div 4096) + j mod 4096" by simp
    have "unat (p + of_nat (4096 * (j div 4096))) mod 4096 + j mod 4096 < 4096"
    proof (cases "unat p mod 4096 = 0")
      case True
      then show ?thesis using page_offset [OF True] by simp
    next
      case False
      then have "j < 4096" "unat p mod 4096 + j < 4096" using assms(4) j by linarith+
      then show ?thesis by simp
    qed
    then have "kn_phys k (p + of_nat (4096 * (j div 4096)) + of_nat (j mod 4096))
        = kn_phys k (p + of_nat (4096 * (j div 4096))) + of_nat (j mod 4096)"
      using assms(3) unfolding page_translation_def by blast
    moreover have "p + of_nat (4096 * (j div 4096)) + of_nat (j mod 4096) = p + of_nat j"
      by (subst (3) e) (simp only: of_nat_add add.assoc)
    ultimately have "kn_phys k (p + of_nat j)
        = kn_phys k (p + of_nat (4096 * (j div 4096))) + of_nat (j mod 4096)"
      by (simp only:)
    moreover have "j mod 4096 < min (unat sz - 4096 * (j div 4096)) 4096"
      using j e by (simp add: less_diff_conv)
    moreover have "sg_physAddr (?sgs ! (j div 4096)) = kn_phys k (p + of_nat (4096 * (j div 4096)))"
      using d by (simp add: sg_at_def)
    ultimately show ?thesis using d by (simp only: nth_map_upt len diff_zero add_0)
  qed
  moreover have "(of_nat ?n :: u32) \<le> ucast m"
    using assms(1,2) by (simp add: word_le_nat_alt n unat_ucast_u64_u32)
  ultimately show ?thesis using r n by (intro exI [of _ "of_nat ?n"] exI [of _ ?sgs]) simp
qed

text \<open>The loop steps from the start of the buffer and not from page to page: a buffer of at most a page
  that begins inside one page and ends in the next gets a single entry, which is wrong from the page
  boundary on unless the two pages happen to follow each other in physical memory.\<close>

lemma BuildSGElement_crosses:
  assumes "sz \<le> PAGE_SIZE" and "4096 < unat p mod 4096 + unat sz" and "unat m < 2 ^ 32 - 2"
    and "j = 4096 - unat p mod 4096" and "kn_phys k (p + of_nat j) \<noteq> kn_phys k p + of_nat j"
  shows "\<exists>a. BuildSGElement k m p sz = (1, [a]) \<and> j < unat sz \<and> unat (sg_length a) = unat sz
    \<and> sg_physAddr a + of_nat j \<noteq> kn_phys k (p + of_nat j)"
proof -
  have "unat p mod 4096 < 4096" by simp
  with assms(2) have "0 < unat sz" by linarith
  then have "0 < sz" by (simp add: word_less_nat_alt)
  moreover have "unat (ucast sz :: u32) = unat sz"
    using assms(1) by (simp add: unat_ucast_u64_u32 word_le_nat_alt)
  moreover have "j < unat sz" using assms(2,4) \<open>unat p mod 4096 < 4096\<close> by linarith
  ultimately show ?thesis using BuildSGElement_small [OF _ assms(1,3), of k p] assms(5) by auto
qed

text \<open>C40: a buffer of more than \<open>MaxSgCount\<close> pages is written one element past the array
  before the loop notices, and with exactly one page more it is not noticed at all.\<close>

theorem BuildSGElement_overruns:
  assumes "unat m < sg_chunks sz" and "unat m < 2 ^ 32 - 2"
  shows "length (snd (BuildSGElement k m p sz)) = unat m + 1
    \<and> fst (BuildSGElement k m p sz) = (if sg_chunks sz = unat m + 1 then of_nat (unat m + 1) else 0)"
  using assms by (auto simp: BuildSGElement_result)

text \<open>C25: when the virtqueues accept every push, any sequence of calls to the builders puts one
  buffer per call on the queue of its command, in order.  The bytes of the command are those
  the call asks for, field by field; the scatter-gather list describes the block of the buffer and
  the response behind it; and the accounts stay balanced: every live block belongs to a queued
  command.\<close>

theorem builders_push_their_commands:
  assumes "accepts_all k" and "pool_ok k" and "device_acct L d"
  shows "\<exists>bs. list_all2 (\<lambda>c b. cmd_wf (bf_cmd b) \<and> encode_cmd (bf_cmd b) = command_bytes (spec_of c)) cs bs
    \<and> dv_log (runs (run_call k) cs d) = dv_log d @ concat (map2 (\<lambda>c. pushed k (spec_of c)) cs bs)
    \<and> (\<forall>q. q < 2 \<longrightarrow> dv_VirtQueues (runs (run_call k) cs d) ! q
          = dv_VirtQueues d ! q @ map snd (filter (\<lambda>(c, b). cl_queue (spec_of c) = q) (zip cs bs)))
    \<and> device_acct L (runs (run_call k) cs d)"
  using gpu.runs_push [OF assms(1,3,2), of cs] gpu.runs_acct [OF assms(3,2), of cs] assms(1) by blast

text \<open>A rejected push loses the command buffer: the caller gets no reference to it, and the
  accounts keep its block for ever.\<close>

theorem rejected_push_leaks:
  assumes "device_acct L d" and "pool_ok k" and "cmd_wf cmd" and "sg_chunks RespSize \<le> 3" and "q < 2"
    and "\<forall>bs sg out_num in_num. kn_add_buf k q bs sg out_num in_num \<noteq> 0"
  shows "\<exists>b d'. send_command k q cmd RespSize s d = (STATUS_UNSUCCESSFUL, b, d')
    \<and> dv_VirtQueues d' = dv_VirtQueues d \<and> device_acct (add_mset (bf_pBuf b) L) d'"
proof -
  obtain status b d' where s: "send_command k q cmd RespSize s d = (status, b, d')"
    by (cases "send_command k q cmd RespSize s d")
  have "q < length (dv_VirtQueues d)" using assms(1,5) by (simp add: device_acct_def)
  with assms(6) s have "status = STATUS_UNSUCCESSFUL" "dv_VirtQueues d' = dv_VirtQueues d"
    by (auto simp: send_command_fits [OF assms(4)] PushQueue_def Let_def)
  with acct_send [OF assms(1-5) s] s show ?thesis by simp
qed

text \<open>C34: with a host that answers, \<open>GetCapsInfo\<close> returns, has stored the host's answer for
  every capability set, has added exactly their bits to the mask, and leaves the queues and
  the buffer accounts as they were.\<close>

theorem GetCapsInfo_stores_answers:
  assumes "device_acct L d" and "pool_ok k" and "accepts_all k"
    and "\<forall>i. kn_capset_info k i = Some (host i)"
    and "length (cps_Data (g_Capsets d)) = unat (cps_NumCaps (g_Capsets d))"
  shows "\<exists>d'. GetCapsInfo k d = Some d' \<and> device_acct L d'
    \<and> map mset (dv_VirtQueues d') = map mset (dv_VirtQueues d)
    \<and> (\<forall>i < cps_NumCaps (g_Capsets d). cps_Data (g_Capsets d') ! unat i =
          \<lparr>cs_id = rci_capset_id (host i), cs_max_version = rci_capset_max_version (host i),
           cs_max_size = rci_capset_max_size (host i)\<rparr>)
    \<and> (\<forall>n. bit (cps_CapsetIdMask (g_Capsets d')) n \<longleftrightarrow> bit (cps_CapsetIdMask (g_Capsets d)) n
          \<or> (\<exists>i < cps_NumCaps (g_Capsets d). n = unat (rci_capset_id (host i) AND 63)))"
proof -
  let ?n = "cps_NumCaps (g_Capsets d)"
  let ?is = "map of_nat [0..<unat ?n] :: u32 list"
  have is_set: "i \<in> set ?is \<longleftrightarrow> i < ?n" for i
  proof -
    have "i \<in> set ?is \<longleftrightarrow> (\<exists>j < unat ?n. i = of_nat j)" by auto
    also have "\<dots> \<longleftrightarrow> unat i < unat ?n"
    proof
      assume "\<exists>j < unat ?n. i = of_nat j"
      then obtain j where j: "j < unat ?n" "i = of_nat j" by blast
      then have "unat i = j" by (simp add: unat_of_nat_u32 less_trans [OF _ unat_less_u32])
      with j show "unat i < unat ?n" by simp
    next
      assume "unat i < unat ?n"
      then show "\<exists>j < unat ?n. i = of_nat j" by (intro exI [of _ "unat i"]) simp
    qed
    finally show ?thesis by (simp add: word_less_nat_alt)
  qed
  then have bound: "\<forall>i \<in> set ?is. unat i < length (cps_Data (g_Capsets d))"
    using assms(5) by (simp only: Ball_def is_set) (simp add: word_less_nat_alt)
  have "\<forall>i \<in> set ?is. kn_capset_info k i \<noteq> None" using assms(4) by simp
  from caps_info_loop_answers [OF assms(1-3) this bound] obtain d' where
    d': "caps_info_loop k ?is d = Some d'" by blast
  have host: "(\<lambda>i. the (kn_capset_info k i)) = host" using assms(4) by simp
  note 1 = d' caps_info_loop_result [OF assms(1,2) bound d', unfolded host]
  then have caps: "g_Capsets d' = store_all host ?is (g_Capsets d)" by blast
  have "cps_Data (g_Capsets d') ! unat i = \<lparr>cs_id = rci_capset_id (host i),
      cs_max_version = rci_capset_max_version (host i), cs_max_size = rci_capset_max_size (host i)\<rparr>"
    if "i < ?n" for i
    using store_all_entry [of i ?is "g_Capsets d" host] that assms(5)
    by (simp only: caps is_set) (simp add: word_less_nat_alt)
  moreover have "bit (cps_CapsetIdMask (g_Capsets d')) n \<longleftrightarrow> bit (cps_CapsetIdMask (g_Capsets d)) n
      \<or> (\<exists>i < ?n. n = unat (rci_capset_id (host i) AND 63))" for n
    by (simp only: caps store_all_mask Bex_def is_set)
  ultimately show ?thesis using 1 by (intro exI [of _ d']) (simp add: GetCapsInfo_def)
qed

subsection \<open>Witnesses\<close>

text \<open>A kernel with an accepting virtqueue, pool blocks of a page each, a linear address
  translation and a host with one kind of answer; a device with two empty queues.\<close>

definition sample_lookaside :: vgpu_buffer where
  "sample_lookaside = \<lparr>bf_pBuf = 0xDEAD, bf_cmd = Cmd_ctx_destroy zero_ctx_destroy, bf_pRespBuf = 0xDEAD,
     bf_Event = True, bf_Request = 0xDEAD, bf_pDataBuf = 0xDEAD, bf_DataBufSize = 0xDEAD,
     bf_ResourceIds = Some [0xDEAD], bf_ResourceIdsCount = 1, bf_FenceObject = 0xDEAD\<rparr>"

definition sample_kernel :: kernel where
  "sample_kernel =
     \<lparr>kn_pool = \<lambda>n sz. push_bit 12 (of_nat n) OR 1,
      kn_lookaside = \<lambda>n. sample_lookaside,
      kn_phys = \<lambda>a. a + 0x40000000,
      kn_add_buf = \<lambda>q bs sg out_num in_num. 0,
      kn_capset_info = \<lambda>i. Some \<lparr>rci_hdr = zero_hdr, rci_capset_id = i + 1,
         rci_capset_max_version = 2, rci_capset_max_size = 0x100, rci_padding = 0\<rparr>,
      kn_capset = \<lambda>i v. Some [1, 2, 3]\<rparr>"

definition sample_device :: device where
  "sample_device =
     \<lparr>dv_VirtQueues = [[], []], dv_pool = [], dv_lookaside = 0, dv_allocs = 0, dv_log = [],
      dv_faults = [], g_Capsets = \<lparr>cps_Initialized = False, cps_NumCaps = 1,
        cps_Data = [\<lparr>cs_id = 0, cs_max_version = 0, cs_max_size = 0\<rparr>], cps_CapsetIdMask = 0\<rparr>\<rparr>"

lemma sample_kernel_ok:
  "pool_ok sample_kernel" "accepts_all sample_kernel" "page_translation sample_kernel"
proof -
  have "push_bit 12 (of_nat n) OR (1 :: u64) \<noteq> 0" for n
    by (simp add: or_eq_0_iff)
  then show "pool_ok sample_kernel" by (simp add: pool_ok_def sample_kernel_def)
  show "accepts_all sample_kernel" "page_translation sample_kernel"
    by (simp_all add: accepts_all_def page_translation_def sample_kernel_def)
qed

lemma sample_device_acct: "device_acct {#} sample_device"
  by (simp add: device_acct_def sample_device_def)

theorem BuildSGElement_covers_witness:
  "\<exists>n sgs. BuildSGElement sample_kernel 4 0x10000 0x2100 = (n, sgs) \<and> length sgs = unat n \<and> n \<le> 4
     \<and> (\<Sum>i<length sgs. unat (sg_length (sgs ! i))) = 0x2100"
proof -
  have "sg_chunks 0x2100 \<le> unat (4 :: u64)" by (simp add: sg_chunks_def)
  from BuildSGElement_covers [OF this _ sample_kernel_ok(3), of "0x10000"] show ?thesis
    by fastforce
qed

theorem BuildSGElement_overruns_witness:
  "length (snd (BuildSGElement sample_kernel 4 0x10000 0x5000)) = 5
   \<and> fst (BuildSGElement sample_kernel 4 0x10000 0x5000) = 5
   \<and> length (snd (BuildSGElement sample_kernel 4 0x10000 0x6000)) = 5
   \<and> fst (BuildSGElement sample_kernel 4 0x10000 0x6000) = 0"
  using BuildSGElement_overruns [of 4 "0x5000" sample_kernel "0x10000"]
    BuildSGElement_overruns [of 4 "0x6000" sample_kernel "0x10000"]
  by (simp add: sg_chunks_def)

theorem builders_push_their_commands_witness:
  "\<exists>b1 b2. encode_cmd (bf_cmd b2) = [0x02, 1, 0, 0,  0, 0, 0, 0,  0, 0, 0, 0, 0, 0, 0, 0,  7, 0, 0, 0,  0, 0, 0, 0,
       9, 0, 0, 0,  0, 0, 0, 0]
     \<and> length (encode_cmd (bf_cmd b1)) = 96
     \<and> dv_VirtQueues (runs (run_call sample_kernel) [Call_CreateVirglContext 7 4, Call_UnrefResource 7 9] sample_device) ! 0
         = [b2]
     \<and> dv_VirtQueues (runs (run_call sample_kernel) [Call_CreateVirglContext 7 4, Call_UnrefResource 7 9] sample_device) ! 1
         = [b1]
     \<and> device_acct {#} (runs (run_call sample_kernel) [Call_CreateVirglContext 7 4, Call_UnrefResource 7 9] sample_device)"
proof -
  let ?cs = "[Call_CreateVirglContext 7 4, Call_UnrefResource 7 9]"
  let ?d = "runs (run_call sample_kernel) ?cs sample_device"
  obtain bs where bs: "list_all2 (\<lambda>c b. cmd_wf (bf_cmd b) \<and> encode_cmd (bf_cmd b) = command_bytes (spec_of c)) ?cs bs"
    "\<forall>q. q < 2 \<longrightarrow> dv_VirtQueues ?d ! q
      = dv_VirtQueues sample_device ! q @ map snd (filter (\<lambda>(c, b). cl_queue (spec_of c) = q) (zip ?cs bs))"
    "device_acct {#} ?d"
    using builders_push_their_commands [OF sample_kernel_ok(2,1) sample_device_acct, of ?cs] by blast
  from bs(1) obtain b1 b2 where b: "bs = [b1, b2]" "encode_cmd (bf_cmd b1) = command_bytes (spec_of (?cs ! 0))"
    "encode_cmd (bf_cmd b2) = command_bytes (spec_of (?cs ! 1))"
    by (auto simp: list_all2_Cons1)
  have "dv_VirtQueues ?d ! 0 = [b2]" "dv_VirtQueues ?d ! 1 = [b1]"
    using bs(2) by (simp_all add: b(1) sample_device_def)
  then show ?thesis using bs(3) b(2,3)
    by (intro exI [of _ b1] exI [of _ b2]) (simp add: command_bytes_def le32_def le64_def)
qed

theorem rejected_push_leaks_witness:
  "\<exists>b d'. send_command (sample_kernel\<lparr>kn_add_buf := \<lambda>q bs sg out_num in_num. - 28\<rparr>) COMMAND_QUEUE
       (Cmd_ctx_destroy (zero_ctx_destroy\<lparr>cd_hdr := hdr_for VIRTIO_GPU_CMD_CTX_DESTROY 7\<rparr>)) 0 False sample_device
     = (STATUS_UNSUCCESSFUL, b, d') \<and> device_acct {#bf_pBuf b#} d'"
proof -
  have "pool_ok (sample_kernel\<lparr>kn_add_buf := \<lambda>q bs sg out_num in_num. - 28\<rparr>)"
    using sample_kernel_ok(1) by (simp add: pool_ok_def)
  moreover have "cmd_wf (Cmd_ctx_destroy (zero_ctx_destroy\<lparr>cd_hdr := hdr_for VIRTIO_GPU_CMD_CTX_DESTROY 7\<rparr>))"
    by (simp add: cmd_wf_def)
  ultimately show ?thesis
    using rejected_push_leaks [OF sample_device_acct, of _ _ 0 COMMAND_QUEUE False] by fastforce
qed

theorem GetCapsInfo_stores_answers_witness:
  "\<exists>d'. GetCapsInfo sample_kernel sample_device = Some d'
     \<and> cps_Data (g_Capsets d') ! 0 = \<lparr>cs_id = 1, cs_max_version = 2, cs_max_size = 0x100\<rparr>
     \<and> (\<forall>n. bit (cps_CapsetIdMask (g_Capsets d')) n \<longleftrightarrow> n = 1)"
proof -
  let ?host = "\<lambda>i. \<lparr>rci_hdr = zero_hdr, rci_capset_id = i + 1, rci_capset_max_version = 2,
      rci_capset_max_size = 0x100, rci_padding = 0\<rparr>"
  have h: "\<forall>i. kn_capset_info sample_kernel i = Some (?host i)" by (simp add: sample_kernel_def)
  have l: "length (cps_Data (g_Capsets sample_device)) = unat (cps_NumCaps (g_Capsets sample_device))"
    by (simp add: sample_device_def)
  have one: "i < 1 \<longleftrightarrow> i = 0" for i :: u32 by (simp add: word_less_nat_alt unat_eq_0)
  from GetCapsInfo_stores_answers [OF sample_device_acct sample_kernel_ok(1,2) h l] show ?thesis
    by (auto simp: sample_device_def one)
qed

end
