(* ===== verification/Vgpu_Control.thy ===== *)
theory Vgpu_Control
  imports Vgpu_Command Vgpu_Ioctl Vgpu_Idr Vgpu_Memory
begin

text \<open>
  The request handlers of \<open>control.c\<close> and the lookups of \<open>control.h\<close>: contexts (one per
  process), their resources, and the operations user mode has on them.

  \<open>driver\<close> is the whole state of the driver: the device side of \<open>Vgpu_Command\<close>, the global
  tables, and what the driver holds of the kernel (contents of the vgpu memory, resources
  taken from the lookaside list, live MDLs and I/O mappings, referenced objects, objects it
  signalled).  \<open>env\<close> is the machine around it; \<open>request\<close> is one I/O request with everything
  the framework and the kernel answer while it is handled.  A handler returns the status, the
  byte count, the output buffer and the new state, or \<open>None\<close> where it waits for an event that
  is not signalled: it has not returned yet.  What it did before the wait (a reference taken, a
  query pushed) then counts for the step in which it goes on.

  Pointers to contexts and resources are positions in the lists; the code finds them by their
  id, so writing through such a pointer is \<open>upd_first\<close> and unlinking it is \<open>del_first\<close>.
\<close>

unbundle bit_operations_syntax

subsection \<open>State\<close>

record env =
  en_kernel :: kernel
  en_rtl :: rtl_bitmap_lib
  en_iomap :: "u64 \<Rightarrow> u64 \<Rightarrow> u64"

record driver =
  dr_dev :: device
  dr_config :: virtio_vgpu_config
  dr_Capabilities :: u64
  g_Idrs :: "idrandom list"
  g_Memory :: vgpu_memory
  g_VirglContextList :: "virgl_context list"
  k_mem :: "u64 \<Rightarrow> u8"
  k_resources_out :: nat
  k_freed :: "(u32 \<times> u32 option) list"
  k_mdls :: "u64 list"
  k_umaps :: "(u64 \<times> u64) list"
  k_iomaps :: "(u64 \<times> u64) list"
  k_objects :: "u64 list"
  k_signals :: "u64 list"

record request =
  rq_pid :: u32
  rq_in_status :: NTSTATUS
  rq_in :: "u8 list"
  rq_out_status :: NTSTATUS
  rq_out :: "u8 list"
  rq_len_failed :: u64
  rq_probe :: "u64 \<Rightarrow> u64 \<Rightarrow> NTSTATUS \<times> u8 list option"
  rq_resource :: "virgl_resource option"
  rq_pool :: bool
  rq_mdl :: u64
  rq_map :: "u64 option"
  rq_reference :: "u64 \<Rightarrow> NTSTATUS \<times> u64"
  rq_signalled :: "u64 \<Rightarrow> bool"

definition on_dev :: "(device \<Rightarrow> device) \<Rightarrow> driver \<Rightarrow> driver" where
  "on_dev f d = d\<lparr>dr_dev := f (dr_dev d)\<rparr>"

definition fault_at :: "fault \<Rightarrow> driver \<Rightarrow> driver" where
  "fault_at f = on_dev (\<lambda>dv. dv\<lparr>dv_faults := dv_faults dv @ [f]\<rparr>)"

text \<open>\<open>RtlCopyMemory\<close> to an address.\<close>

definition write_bytes :: "u64 \<Rightarrow> u8 list \<Rightarrow> (u64 \<Rightarrow> u8) \<Rightarrow> u64 \<Rightarrow> u8" where
  "write_bytes addr bs mem a = (if unat (a - addr) < length bs then bs ! unat (a - addr) else mem a)"

text \<open>\<open>RtlZeroMemory\<close> of a range, which may be large.\<close>

definition zero_bytes :: "u64 \<Rightarrow> u64 \<Rightarrow> (u64 \<Rightarrow> u8) \<Rightarrow> u64 \<Rightarrow> u8" where
  "zero_bytes addr n mem a = (if a - addr < n then 0 else mem a)"

text \<open>\<open>KeWaitForSingleObject\<close> on a notification event, in kernel mode, not alertable and without
  a time limit: it returns when the event is signalled, with success.\<close>

definition KeWait :: "bool \<Rightarrow> NTSTATUS option" where
  "KeWait signalled = (if signalled then Some STATUS_SUCCESS else None)"

subsection \<open>Lookups and resource states\<close>

fun resource_loop :: "u32 \<Rightarrow> virgl_resource list \<Rightarrow> virgl_resource option" where
  "resource_loop i [] = None"
| "resource_loop i (r # rs) = (if vr_Id r = i then Some r else resource_loop i rs)"

fun context_loop :: "u32 \<Rightarrow> virgl_context list \<Rightarrow> virgl_context option" where
  "context_loop i [] = None"
| "context_loop i (c # cs) = (if vc_Id c = i then Some c else context_loop i cs)"

definition GetResourceFromListUnsafe :: "virgl_context \<Rightarrow> u32 \<Rightarrow> virgl_resource option" where
  "GetResourceFromListUnsafe c i = resource_loop i (vc_ResourceList c)"

definition GetVirglContextFromListUnsafe :: "u32 \<Rightarrow> driver \<Rightarrow> virgl_context option" where
  "GetVirglContextFromListUnsafe i d = context_loop i (g_VirglContextList d)"

text \<open>The locked variants hold the list's spin lock around the search.\<close>

definition GetVirglContextFromList :: "u32 \<Rightarrow> driver \<Rightarrow> virgl_context option" where
  "GetVirglContextFromList i d = GetVirglContextFromListUnsafe i d"

definition GetResourceFromList :: "virgl_context \<Rightarrow> u32 \<Rightarrow> virgl_resource option" where
  "GetResourceFromList c i = GetResourceFromListUnsafe c i"

definition with_context :: "u32 \<Rightarrow> (virgl_context \<Rightarrow> virgl_context) \<Rightarrow> driver \<Rightarrow> driver" where
  "with_context i f d = d\<lparr>g_VirglContextList := upd_first (\<lambda>c. vc_Id c = i) f (g_VirglContextList d)\<rparr>"

definition with_resource :: "u32 \<Rightarrow> (virgl_resource \<Rightarrow> virgl_resource) \<Rightarrow> virgl_context \<Rightarrow> virgl_context" where
  "with_resource i f c = c\<lparr>vc_ResourceList := upd_first (\<lambda>r. vr_Id r = i) f (vc_ResourceList c)\<rparr>"

text \<open>The body of the loop of \<open>UpdateResourceState\<close>, and the loop.\<close>

definition resource_state :: "bool \<Rightarrow> u64 \<Rightarrow> virgl_resource \<Rightarrow> virgl_resource" where
  "resource_state Busy FenceId r =
     (if FenceId = 0 then r\<lparr>vr_StateEvent := \<not> Busy\<rparr>
      else if vr_FenceId r \<le> FenceId then r\<lparr>vr_FenceId := FenceId, vr_StateEvent := \<not> Busy\<rparr>
      else r)"

fun UpdateResourceState :: "u32 list \<Rightarrow> bool \<Rightarrow> u64 \<Rightarrow> virgl_context \<Rightarrow> virgl_context" where
  "UpdateResourceState [] Busy FenceId c = c"
| "UpdateResourceState (i # is) Busy FenceId c =
     UpdateResourceState is Busy FenceId
       (case GetResourceFromListUnsafe c i of
          None \<Rightarrow> c
        | Some r \<Rightarrow> with_resource i (resource_state Busy FenceId) c)"

definition MapBlobResourceCallback :: "env \<Rightarrow> virgl_context \<Rightarrow> u32 \<Rightarrow> u64 \<Rightarrow> u64 \<Rightarrow> driver \<Rightarrow> driver" where
  "MapBlobResourceCallback e c i Gpa sz d =
     (case GetResourceFromListUnsafe c i of
        None \<Rightarrow> d
      | Some r \<Rightarrow>
          let mapAddress = en_iomap e Gpa sz
          in if mapAddress = 0 then d
             else with_context (vc_Id c)
               (with_resource i (\<lambda>r. r\<lparr>
                  vr_Buffer := (vr_Buffer r)\<lparr>mb_Size := sz,
                    mb_Memory := (mb_Memory (vr_Buffer r))\<lparr>md_VirtualAddress := mapAddress\<rparr>\<rparr>,
                  vr_StateEvent := True\<rparr>))
               (d\<lparr>k_iomaps := (mapAddress, sz) # k_iomaps d\<rparr>))"

subsection \<open>Sharing with user mode, deleting a resource\<close>

definition IoFreeMdl :: "u64 \<Rightarrow> driver \<Rightarrow> driver" where
  "IoFreeMdl mdl d =
     (if mdl \<in> set (k_mdls d) then d\<lparr>k_mdls := remove1 mdl (k_mdls d)\<rparr>
      else fault_at (Fault_pool_free mdl) d)"

definition MmUnmapIoSpace :: "u64 \<Rightarrow> u64 \<Rightarrow> driver \<Rightarrow> driver" where
  "MmUnmapIoSpace addr sz d =
     (if (addr, sz) \<in> set (k_iomaps d) then d\<lparr>k_iomaps := remove1 (addr, sz) (k_iomaps d)\<rparr>
      else fault_at (Fault_stale_address addr) d)"

text \<open>\<open>rq_map\<close> is \<open>None\<close> where \<open>MmMapLockedPagesSpecifyCache\<close> raises an exception.\<close>

definition CreateUserShareMemory ::
  "request \<Rightarrow> share_descriptor \<Rightarrow> driver \<Rightarrow> bool \<times> share_descriptor \<times> driver" where
  "CreateUserShareMemory r sh d =
     (if sh_KernelAddress sh = 0 \<or> sh_Size sh = 0 then (False, sh, d)
      else
        let sh1 = sh\<lparr>sh_pMdl := rq_mdl r\<rparr>
        in if sh_pMdl sh1 = 0 then (False, sh1, d)
           else
             let d1 = d\<lparr>k_mdls := sh_pMdl sh1 # k_mdls d\<rparr>
             in case rq_map r of
                  None \<Rightarrow> (False, sh1, IoFreeMdl (sh_pMdl sh1) d1)
                | Some addr \<Rightarrow>
                    let sh2 = sh1\<lparr>sh_UserAdderss := addr\<rparr>
                    in if sh_UserAdderss sh2 = 0 then (False, sh2, IoFreeMdl (sh_pMdl sh2) d1)
                       else (True, sh2, d1\<lparr>k_umaps := (sh_UserAdderss sh2, sh_pMdl sh2) # k_umaps d1\<rparr>))"

definition MmUnmapLockedPages :: "u64 \<Rightarrow> u64 \<Rightarrow> driver \<Rightarrow> driver" where
  "MmUnmapLockedPages addr mdl d =
     (if (addr, mdl) \<in> set (k_umaps d) then d\<lparr>k_umaps := remove1 (addr, mdl) (k_umaps d)\<rparr>
      else fault_at (Fault_stale_address addr) d)"

definition DeleteUserShareMemory :: "share_descriptor \<Rightarrow> driver \<Rightarrow> driver" where
  "DeleteUserShareMemory sh d =
     (if sh_UserAdderss sh = 0 \<or> sh_pMdl sh = 0 then d
      else IoFreeMdl (sh_pMdl sh) (MmUnmapLockedPages (sh_UserAdderss sh) (sh_pMdl sh) d))"

definition DeleteResource :: "env \<Rightarrow> u32 \<Rightarrow> virgl_resource \<Rightarrow> driver \<Rightarrow> driver" where
  "DeleteResource e ctx r d =
     (let k = en_kernel e;
          buf = vr_Buffer r;
          d1 = (if vr_bForBuffer r then
                  let da = (if sh_pMdl (mb_Share buf) \<noteq> 0 then DeleteUserShareMemory (mb_Share buf) d else d)
                  in if vr_bForBlob r then
                       MmUnmapIoSpace (md_VirtualAddress (mb_Memory buf)) (mb_Size buf)
                         (on_dev (UnMapBlobResource k ctx (vr_Id r) 0) da)
                     else
                       let db = on_dev (DetachResourceBacking k r) da
                       in db\<lparr>g_Memory := FreeVgpuMemory (en_rtl e) (md_VirtualAddress (mb_Memory buf))
                              (mb_Size buf) (g_Memory db)\<rparr>
                else d)
      in on_dev (UnrefResource k ctx (vr_Id r)) d1)"

text \<open>What is given back is named in the ledger \<open>k_freed\<close>: a resource entry \<open>(context, Some id)\<close> to its
  lookaside list, a context \<open>(id, None)\<close> to the pool.\<close>

definition free_resource :: "u32 \<Rightarrow> u32 \<Rightarrow> driver \<Rightarrow> driver" where
  "free_resource ctx i d =
     d\<lparr>k_resources_out := k_resources_out d - 1, k_freed := k_freed d @ [(ctx, Some i)]\<rparr>"

definition free_context :: "u32 \<Rightarrow> driver \<Rightarrow> driver" where
  "free_context ctx d = d\<lparr>k_freed := k_freed d @ [(ctx, None)]\<rparr>"

text \<open>The loop of \<open>CtlDestroyVirglContext\<close>; it takes the resources from the tail, so its
  argument is the reversed list.\<close>

fun destroy_loop :: "env \<Rightarrow> u32 \<Rightarrow> virgl_resource list \<Rightarrow> driver \<Rightarrow> driver" where
  "destroy_loop e ctx [] d = d"
| "destroy_loop e ctx (r # rs) d = destroy_loop e ctx rs (free_resource ctx (vr_Id r) (DeleteResource e ctx r d))"

definition CtlDestroyVirglContext :: "env \<Rightarrow> virgl_context \<Rightarrow> driver \<Rightarrow> NTSTATUS \<times> driver" where
  "CtlDestroyVirglContext e c d =
     (let d1 = d\<lparr>g_VirglContextList := del_first (\<lambda>x. vc_Id x = vc_Id c) (g_VirglContextList d)\<rparr>;
          d2 = destroy_loop e (vc_Id c) (rev (vc_ResourceList c)) d1;
          d3 = on_dev (DestroyVirglContext (en_kernel e) (vc_Id c)) d2
      in (STATUS_SUCCESS, free_context (vc_Id c) d3))"

subsection \<open>The frame of a handler\<close>

type_synonym reply = "NTSTATUS \<times> u64 \<times> u8 list \<times> driver"

text \<open>Every handler opens with the same blocks: retrieve the input buffer and compare its
  length with the size of the request's structure, the same for the output buffer, and look
  up the context of the calling process.  \<open>bytesReturn\<close> is where the framework stores the
  length; \<open>rq_len_failed\<close> is what it leaves there when it fails.\<close>

definition retrieved :: "request \<Rightarrow> NTSTATUS \<Rightarrow> u8 list \<Rightarrow> u64" where
  "retrieved r status bs = (if NT_SUCCESS status then of_nat (length bs) else rq_len_failed r)"

definition with_input ::
  "request \<Rightarrow> u64 \<Rightarrow> driver \<Rightarrow> (NTSTATUS \<Rightarrow> u64 \<Rightarrow> reply option) \<Rightarrow> reply option" where
  "with_input r sz d body =
     (let status = rq_in_status r; bytesReturn = retrieved r status (rq_in r)
      in if \<not> NT_SUCCESS status then Some (status, bytesReturn, rq_out r, d)
         else if bytesReturn \<noteq> sz then Some (STATUS_UNSUCCESSFUL, bytesReturn, rq_out r, d)
         else body status bytesReturn)"

definition with_output ::
  "request \<Rightarrow> u64 \<Rightarrow> driver \<Rightarrow> (NTSTATUS \<Rightarrow> u64 \<Rightarrow> reply option) \<Rightarrow> reply option" where
  "with_output r sz d body =
     (let status = rq_out_status r; bytesReturn = retrieved r status (rq_out r)
      in if \<not> NT_SUCCESS status then Some (status, bytesReturn, rq_out r, d)
         else if bytesReturn \<noteq> sz then Some (STATUS_UNSUCCESSFUL, bytesReturn, rq_out r, d)
         else body status bytesReturn)"

definition with_caller ::
  "request \<Rightarrow> u64 \<Rightarrow> driver \<Rightarrow> (virgl_context \<Rightarrow> reply option) \<Rightarrow> reply option" where
  "with_caller r bytesReturn d body =
     (case GetVirglContextFromListUnsafe (rq_pid r) d of
        None \<Rightarrow> Some (STATUS_UNSUCCESSFUL, bytesReturn, rq_out r, d)
      | Some c \<Rightarrow> body c)"

definition insert_resource :: "virgl_resource \<Rightarrow> virgl_context \<Rightarrow> virgl_context" where
  "insert_resource res c = c\<lparr>vc_ResourceList := res # vc_ResourceList c\<rparr>"

subsection \<open>Parameters and capabilities\<close>

text \<open>The shift count of \<open>1LL << n\<close> is taken modulo 64, as x64 does.\<close>

definition CtlGetParams :: "env \<Rightarrow> request \<Rightarrow> driver \<Rightarrow> reply option" where
  "CtlGetParams e r d =
     (case (if cps_Initialized (g_Capsets (dr_dev d)) then Some d
            else map_option (\<lambda>dv. d\<lparr>dr_dev := dv\<lparr>g_Capsets := (g_Capsets dv)\<lparr>cps_Initialized := True\<rparr>\<rparr>\<rparr>)
                   (GetCapsInfo (en_kernel e) (dr_dev d))) of
        None \<Rightarrow> None
      | Some d1 \<Rightarrow>
          with_input r 8 d1 (\<lambda>status bytesReturn.
          with_output r 8 d1 (\<lambda>status bytesReturn.
            let input = rd64 (rq_in r) 0
            in if input = 0x1000 then
                 Some (status, bytesReturn, (rq_out r)[0 := cfg_staging (dr_config d1)], d1)
               else if input = VIRTGPU_PARAM_SUPPORTED_CAPSET_IDs then
                 Some (status, bytesReturn, le64 (cps_CapsetIdMask (g_Capsets (dr_dev d1))), d1)
               else if dr_Capabilities d1 AND push_bit (unat ((input - 1) AND 63)) 1 \<noteq> 0 then
                 Some (status, bytesReturn, le64 1, d1)
               else Some (status, bytesReturn, le64 0, d1))))"

text \<open>The search for a capability set, over the entries \<open>Data[0]\<close> to \<open>Data[NumCaps - 1]\<close>.\<close>

fun find_caps :: "virtio_gpu_drv_capset list \<Rightarrow> u32 \<Rightarrow> u32 \<Rightarrow> nat \<Rightarrow> nat option" where
  "find_caps [] i v n = None"
| "find_caps (c # cs) i v n = (if cs_id c = i \<and> v \<le> cs_max_version c then Some n else find_caps cs i v (Suc n))"

definition CtlGetCaps :: "env \<Rightarrow> request \<Rightarrow> driver \<Rightarrow> reply option" where
  "CtlGetCaps e r d =
     with_input r 8 d (\<lambda>status bytesReturn.
       let getCaps = decode_drm_get_caps (rq_in r); caps = g_Capsets (dr_dev d)
       in case find_caps (take (unat (cps_NumCaps caps)) (cps_Data caps))
                 (dgc_cap_set_id getCaps) (dgc_cap_set_ver getCaps) 0 of
            None \<Rightarrow> Some (STATUS_UNSUCCESSFUL, bytesReturn, rq_out r, d)
          | Some index \<Rightarrow>
              with_output r (ucast (cs_max_size (cps_Data caps ! index))) d (\<lambda>status bytesReturn.
                case GetCaps (en_kernel e) index (dgc_cap_set_ver getCaps) (dr_dev d) of
                  None \<Rightarrow> None
                | Some (bytes, dv) \<Rightarrow> Some (STATUS_SUCCESS, bytesReturn, bytes, d\<lparr>dr_dev := dv\<rparr>)))"

subsection \<open>Contexts\<close>

fun param_loop :: "u64 \<Rightarrow> drm_virtgpu_context_set_param list \<Rightarrow> NTSTATUS \<Rightarrow> u32 \<Rightarrow> NTSTATUS \<times> u32" where
  "param_loop ids [] status contextInit = (status, contextInit)"
| "param_loop ids (p # ps) status contextInit =
     (if dsp_param p = VIRTGPU_CONTEXT_PARAM_CAPSET_ID then
        if MAX_CAPSET_ID < dsp_value p then param_loop ids ps STATUS_UNSUCCESSFUL contextInit
        else if ids AND push_bit (unat (dsp_value p)) 1 = 0 then param_loop ids ps STATUS_UNSUCCESSFUL contextInit
        else param_loop ids ps status (contextInit OR ucast (dsp_value p))
      else param_loop ids ps STATUS_UNSUCCESSFUL contextInit)"

text \<open>\<open>CtlInitVirglContext\<close> in two parts, since another thread of the same process can run
  between the check for an existing context and the insertion: \<open>Inl\<close> is an early return,
  \<open>Inr\<close> what the second part needs.\<close>

definition init_context_check :: "env \<Rightarrow> request \<Rightarrow> u64 \<Rightarrow> driver \<Rightarrow> (NTSTATUS \<times> u64) + (NTSTATUS \<times> u64 \<times> u32)" where
  "init_context_check e r bytesReturn d =
     (case GetVirglContextFromList (rq_pid r) d of
        Some c \<Rightarrow> Inl (STATUS_UNSUCCESSFUL, bytesReturn)
      | None \<Rightarrow>
          let status = rq_in_status r; bytesReturn = retrieved r status (rq_in r)
          in if \<not> NT_SUCCESS status then Inl (status, bytesReturn)
             else if bytesReturn \<noteq> 16 then Inl (STATUS_UNSUCCESSFUL, bytesReturn)
             else
               let init = decode_drm_context_init (rq_in r);
                   (status, mem) = rq_probe r (dci_ctx_set_params init) (ucast (dci_num_params init) * 16)
               in if \<not> NT_SUCCESS status then Inl (status, bytesReturn)
                  else case mem of
                    None \<Rightarrow> Inl (STATUS_UNSUCCESSFUL, bytesReturn)
                  | Some bs \<Rightarrow>
                      let (status, contextInit) =
                            param_loop (cps_CapsetIdMask (g_Capsets (dr_dev d)))
                              (decode_set_params (unat (dci_num_params init)) bs) status 0
                      in if \<not> NT_SUCCESS status then Inl (status, bytesReturn)
                         else Inr (status, bytesReturn, contextInit))"

definition init_context_insert :: "env \<Rightarrow> request \<Rightarrow> NTSTATUS \<Rightarrow> u32 \<Rightarrow> driver \<Rightarrow> NTSTATUS \<times> driver" where
  "init_context_insert e r status contextInit d =
     (if \<not> rq_pool r then (STATUS_INSUFFICIENT_RESOURCES, d)
      else
        let c = \<lparr>vc_Id = rq_pid r, vc_ResourceList = []\<rparr>;
            d1 = d\<lparr>g_VirglContextList := c # g_VirglContextList d\<rparr>
        in (status, on_dev (CreateVirglContext (en_kernel e) (rq_pid r) contextInit) d1))"

definition CtlInitVirglContext :: "env \<Rightarrow> request \<Rightarrow> u64 \<Rightarrow> driver \<Rightarrow> reply option" where
  "CtlInitVirglContext e r bytesReturn d =
     (case init_context_check e r bytesReturn d of
        Inl (status, n) \<Rightarrow> Some (status, n, rq_out r, d)
      | Inr (status, n, contextInit) \<Rightarrow>
          let (status, d') = init_context_insert e r status contextInit d
          in Some (status, n, rq_out r, d'))"

subsection \<open>Resources\<close>

definition create_param :: "drm_virtgpu_resource_create \<Rightarrow> virtgpu_resource_create_param" where
  "create_param p =
     \<lparr>rp_target = drc_target p, rp_format = drc_format p, rp_bind = drc_bind p, rp_width = drc_width p,
      rp_height = drc_height p, rp_depth = drc_depth p, rp_array_size = drc_array_size p,
      rp_last_level = drc_last_level p, rp_nr_samples = drc_nr_samples p, rp_flags = drc_flags p\<rparr>"

definition create_resp :: "u32 \<Rightarrow> u8 list" where
  "create_resp i = encode_drm_resource_create_resp \<lparr>drr_bo_handle = i, drr_res_handle = i\<rparr>"

definition CtlCreateResource_found :: "env \<Rightarrow> request \<Rightarrow> NTSTATUS \<Rightarrow> u64 \<Rightarrow> u32 \<Rightarrow> driver \<Rightarrow> reply option" where
  "CtlCreateResource_found e r status bytesReturn ctx d =
     (case rq_resource r of
        None \<Rightarrow> Some (STATUS_INSUFFICIENT_RESOURCES, bytesReturn, rq_out r, d)
      | Some stale \<Rightarrow>
          let d = d\<lparr>k_resources_out := Suc (k_resources_out d)\<rparr>;
              create = decode_drm_resource_create (rq_in r);
              (i, idrs) = GetIdFromIdrWithoutCache (g_Idrs d) VIRGL_RESOURCE_ID_TYPE 4;
              d = d\<lparr>g_Idrs := idrs\<rparr>;
              res = stale\<lparr>vr_Id := ucast i, vr_FenceId := 0, vr_StateEvent := True\<rparr>;
              d = on_dev (Create3DResource (en_kernel e) ctx (vr_Id res) (create_param create) 0) d;
              res = res\<lparr>vr_bForBuffer := drc_size create \<noteq> 1, vr_bForBlob := False\<rparr>
          in if \<not> vr_bForBuffer res then
               Some (status, bytesReturn, create_resp (vr_Id res),
                     with_context ctx (insert_resource res) d)
             else
               let sz = (if drc_size create = 0 then PAGE_SIZE
                         else ucast (ROUND_UP (drc_size create) PAGE_SIZE) :: u64);
                   buf = (vr_Buffer res)\<lparr>mb_Share := (mb_Share (vr_Buffer res))\<lparr>sh_pMdl := 0\<rparr>, mb_Size := sz\<rparr>
               in case AllocateVgpuMemory (en_rtl e) sz (g_Memory d) of
                    (None, m) \<Rightarrow> Some (STATUS_INSUFFICIENT_RESOURCES, bytesReturn, rq_out r, d\<lparr>g_Memory := m\<rparr>)
                  | (Some md, m) \<Rightarrow>
                      let res = res\<lparr>vr_Buffer := buf\<lparr>mb_Memory := md\<rparr>\<rparr>;
                          d = d\<lparr>g_Memory := m, k_mem := zero_bytes (md_VirtualAddress md) sz (k_mem d)\<rparr>;
                          d = on_dev (AttachResourceBacking (en_kernel e) ctx res) d
                      in Some (status, bytesReturn, create_resp (vr_Id res),
                               with_context ctx (insert_resource res) d))"

definition CtlCreateResource :: "env \<Rightarrow> request \<Rightarrow> driver \<Rightarrow> reply option" where
  "CtlCreateResource e r d =
     with_input r 56 d (\<lambda>status bytesReturn.
     with_output r 8 d (\<lambda>status bytesReturn.
     with_caller r bytesReturn d (\<lambda>c. CtlCreateResource_found e r status bytesReturn (vc_Id c) d)))"

definition blob_param :: "drm_virtgpu_resource_create_blob \<Rightarrow> virtgpu_blob_resource_create_param" where
  "blob_param p =
     \<lparr>bp_blob_mem = dcb_blob_mem p, bp_blob_flags = dcb_blob_flags p, bp_nr_entries = 0,
      bp_blob_id = dcb_blob_id p, bp_size = ROUND_UP (dcb_size p) PAGE_SIZE, bp_format = dcb_format p,
      bp_bind = dcb_bind p, bp_target = dcb_target p, bp_width = dcb_width p, bp_height = dcb_height p,
      bp_depth = dcb_depth p, bp_array_size = dcb_array_size p, bp_last_level = dcb_last_level p,
      bp_nr_samples = dcb_nr_samples p, bp_flags = dcb_flags p\<rparr>"

definition CtlCreateBlobResource_found :: "env \<Rightarrow> request \<Rightarrow> u64 \<Rightarrow> u32 \<Rightarrow> driver \<Rightarrow> reply option" where
  "CtlCreateBlobResource_found e r bytesReturn ctx d =
     (case rq_resource r of
        None \<Rightarrow> Some (STATUS_INSUFFICIENT_RESOURCES, bytesReturn, rq_out r, d)
      | Some stale \<Rightarrow>
          let d = d\<lparr>k_resources_out := Suc (k_resources_out d)\<rparr>;
              (i, idrs) = GetIdFromIdrWithoutCache (g_Idrs d) VIRGL_RESOURCE_ID_TYPE 4;
              d = d\<lparr>g_Idrs := idrs\<rparr>;
              res = stale\<lparr>vr_bForBlob := True, vr_bForBuffer := True,
                      vr_Buffer := (vr_Buffer stale)\<lparr>mb_Share := (mb_Share (vr_Buffer stale))\<lparr>sh_pMdl := 0\<rparr>\<rparr>,
                      vr_FenceId := 0, vr_Id := ucast i, vr_StateEvent := False\<rparr>;
              d = on_dev (CreateBlobResource (en_kernel e) ctx (vr_Id res)
                    (blob_param (decode_drm_resource_create_blob (rq_in r))) 0) d;
              d = with_context ctx (insert_resource res) d;
              d = on_dev (MapBlobResource (en_kernel e) ctx (vr_Id res) 0) d
          in Some (STATUS_SUCCESS, bytesReturn, create_resp (vr_Id res), d))"

definition CtlCreateBlobResource :: "env \<Rightarrow> request \<Rightarrow> driver \<Rightarrow> reply option" where
  "CtlCreateBlobResource e r d =
     with_input r 72 d (\<lambda>status bytesReturn.
     with_output r 8 d (\<lambda>status bytesReturn.
     with_caller r bytesReturn d (\<lambda>c. CtlCreateBlobResource_found e r bytesReturn (vc_Id c) d)))"

definition CtlCloseResource_found ::
  "env \<Rightarrow> request \<Rightarrow> NTSTATUS \<Rightarrow> u64 \<Rightarrow> u32 \<Rightarrow> virgl_resource \<Rightarrow> driver \<Rightarrow> reply option" where
  "CtlCloseResource_found e r status bytesReturn ctx res d =
     (let d = with_context ctx
            (\<lambda>c. c\<lparr>vc_ResourceList := del_first (\<lambda>x. vr_Id x = vr_Id res) (vc_ResourceList c)\<rparr>) d
      in Some (status, bytesReturn, rq_out r, free_resource ctx (vr_Id res) (DeleteResource e ctx res d)))"

definition CtlCloseResource :: "env \<Rightarrow> request \<Rightarrow> driver \<Rightarrow> reply option" where
  "CtlCloseResource e r d =
     with_input r 8 d (\<lambda>status bytesReturn.
     with_caller r bytesReturn d (\<lambda>c.
       let close = decode_drm_gem_close (rq_in r)
       in case GetResourceFromList c (dcl_handle close) of
            None \<Rightarrow> Some (STATUS_UNSUCCESSFUL, bytesReturn, rq_out r, d)
          | Some res \<Rightarrow> CtlCloseResource_found e r status bytesReturn (vc_Id c) res d))"

definition CtlWait_found ::
  "request \<Rightarrow> NTSTATUS \<Rightarrow> u64 \<Rightarrow> virgl_resource \<Rightarrow> driver \<Rightarrow> reply option" where
  "CtlWait_found r status bytesReturn res d =
     (if dwt_flags (decode_drm_3d_wait (rq_in r)) AND VIRTGPU_WAIT_NOWAIT \<noteq> 0 then
        Some (status, bytesReturn, le32 (if vr_StateEvent res then 0 else 1), d)
      else
        case KeWait (vr_StateEvent res) of
          None \<Rightarrow> None
        | Some status \<Rightarrow> Some (status, bytesReturn, le32 (if NT_SUCCESS status then 0 else 1), d))"

definition CtlWait :: "env \<Rightarrow> request \<Rightarrow> driver \<Rightarrow> reply option" where
  "CtlWait e r d =
     with_input r 8 d (\<lambda>status bytesReturn.
     with_output r 4 d (\<lambda>status bytesReturn.
     with_caller r bytesReturn d (\<lambda>c.
       let cmd = decode_drm_3d_wait (rq_in r)
       in case GetResourceFromListUnsafe c (dwt_handle cmd) of
            None \<Rightarrow> Some (STATUS_UNSUCCESSFUL, bytesReturn, rq_out r, d)
          | Some res \<Rightarrow> CtlWait_found r status bytesReturn res d)))"

definition set_share :: "share_descriptor \<Rightarrow> virgl_resource \<Rightarrow> virgl_resource" where
  "set_share sh res = res\<lparr>vr_Buffer := (vr_Buffer res)\<lparr>mb_Share := sh\<rparr>\<rparr>"

text \<open>\<open>CtlMap\<close> from the test of the event on, for a resource with a buffer that is not mapped.\<close>

definition CtlMap_found ::
  "request \<Rightarrow> NTSTATUS \<Rightarrow> u64 \<Rightarrow> u32 \<Rightarrow> virgl_resource \<Rightarrow> driver \<Rightarrow> reply option" where
  "CtlMap_found r status bytesReturn ctx res d =
     (case (if vr_StateEvent res then Some STATUS_SUCCESS else KeWait (vr_StateEvent res)) of
        None \<Rightarrow> None
      | Some waited \<Rightarrow>
          let buf = vr_Buffer res;
              sh = (mb_Share buf)\<lparr>sh_KernelAddress := md_VirtualAddress (mb_Memory buf),
                     sh_Size := mb_Size buf\<rparr>;
              (ok, sh', d') = CreateUserShareMemory r sh d
          in if ok then
               Some (status, bytesReturn, le64 (sh_UserAdderss sh'),
                 with_context ctx (with_resource (vr_Id res) (set_share sh')) d')
             else
               Some (STATUS_UNSUCCESSFUL, bytesReturn, rq_out r,
                 with_context ctx (with_resource (vr_Id res) (set_share (sh'\<lparr>sh_pMdl := 0\<rparr>))) d'))"

definition CtlMap :: "env \<Rightarrow> request \<Rightarrow> driver \<Rightarrow> reply option" where
  "CtlMap e r d =
     with_input r 16 d (\<lambda>status bytesReturn.
     with_output r 8 d (\<lambda>status bytesReturn.
     with_caller r bytesReturn d (\<lambda>c.
       let cmd = decode_drm_map (rq_in r)
       in case GetResourceFromList c (dmp_handle cmd) of
            None \<Rightarrow> Some (STATUS_UNSUCCESSFUL, bytesReturn, rq_out r, d)
          | Some res \<Rightarrow>
              let buf = vr_Buffer res
              in if \<not> vr_bForBuffer res then Some (STATUS_UNSUCCESSFUL, bytesReturn, rq_out r, d)
                 else if sh_pMdl (mb_Share buf) \<noteq> 0 then
                   Some (status, bytesReturn, le64 (sh_UserAdderss (mb_Share buf)), d)
                 else CtlMap_found r status bytesReturn (vc_Id c) res d)))"

definition transfer_param :: "drm_virtgpu_3d_transfer \<Rightarrow> u32 \<Rightarrow> virtgpu_transfer_host_3d_param" where
  "transfer_param t i =
     \<lparr>tp3_box = (case dtr_box t of b \<Rightarrow> \<lparr>bx_x = dbx_x b, bx_y = dbx_y b, bx_z = dbx_z b,
                   bx_w = dbx_w b, bx_h = dbx_h b, bx_d = dbx_d b\<rparr>),
      tp3_offset = ucast (dtr_offset t), tp3_resource_id = i, tp3_level = dtr_level t,
      tp3_stride = dtr_stride t, tp3_layer_stride = dtr_layer_stride t\<rparr>"

definition CtlTransferHost_found ::
  "env \<Rightarrow> bool \<Rightarrow> request \<Rightarrow> NTSTATUS \<Rightarrow> u64 \<Rightarrow> u32 \<Rightarrow> virgl_resource \<Rightarrow> driver \<Rightarrow> reply option" where
  "CtlTransferHost_found e ToHost r status bytesReturn ctx res d =
     (let cmd = decode_drm_3d_transfer (rq_in r);
          d = with_context ctx (UpdateResourceState [vr_Id res] True 0) d;
          d = on_dev (TransferHost3D (en_kernel e) ctx (transfer_param cmd (vr_Id res)) 0 ToHost) d
      in Some (status, bytesReturn, rq_out r, d))"

definition CtlTransferHost :: "env \<Rightarrow> bool \<Rightarrow> request \<Rightarrow> driver \<Rightarrow> reply option" where
  "CtlTransferHost e ToHost r d =
     with_input r 48 d (\<lambda>status bytesReturn.
     with_caller r bytesReturn d (\<lambda>c.
       let cmd = decode_drm_3d_transfer (rq_in r)
       in case GetResourceFromListUnsafe c (dtr_bo_handle cmd) of
            None \<Rightarrow> Some (STATUS_UNSUCCESSFUL, bytesReturn, rq_out r, d)
          | Some res \<Rightarrow> CtlTransferHost_found e ToHost r status bytesReturn (vc_Id c) res d))"

subsection \<open>Submitting a command stream\<close>

text \<open>The two blocks of \<open>CtlSubmitCommand\<close> for the fences: \<open>Inl\<close> is an early return (\<open>None\<close>
  inside it: still waiting), \<open>Inr\<close> the state to go on with.\<close>

definition submit_in_fence ::
  "request \<Rightarrow> drm_virtgpu_execbuffer \<Rightarrow> driver \<Rightarrow> (NTSTATUS \<times> driver) option + driver" where
  "submit_in_fence r cmd d =
     (if deb_flags cmd AND VIRTGPU_EXECBUF_FENCE_FD_IN = 0 then Inr d
      else
        let (status, inFence) = rq_reference r (deb_in_fence_fd cmd)
        in if \<not> NT_SUCCESS status then Inl (Some (status, d))
           else
             let d1 = d\<lparr>k_objects := inFence # k_objects d\<rparr>
             in case KeWait (rq_signalled r inFence) of
                  None \<Rightarrow> Inl None
                | Some status \<Rightarrow> if \<not> NT_SUCCESS status then Inl (Some (status, d1)) else Inr d1)"

definition submit_out_fence ::
  "request \<Rightarrow> drm_virtgpu_execbuffer \<Rightarrow> driver \<Rightarrow> (NTSTATUS \<times> driver) + (u64 \<times> driver)" where
  "submit_out_fence r cmd d =
     (if deb_flags cmd AND VIRTGPU_EXECBUF_FENCE_FD_OUT = 0 then Inr (0, d)
      else
        let (status, outFence) = rq_reference r (deb_out_fence_fd cmd)
        in if \<not> NT_SUCCESS status then Inl (status, d)
           else Inr (outFence, d\<lparr>k_objects := outFence # k_objects d\<rparr>))"

text \<open>The block for the buffer handles: the array is read from user memory, the resources are
  made busy, and a copy of the array is kept for the completion.\<close>

definition submit_handles ::
  "request \<Rightarrow> drm_virtgpu_execbuffer \<Rightarrow> u32 \<Rightarrow> u64 \<Rightarrow> driver \<Rightarrow> (NTSTATUS \<times> driver) + (u32 list option \<times> driver)" where
  "submit_handles r cmd ctx fenceId d =
     (if deb_num_bo_handles cmd = 0 then Inr (None, d)
      else
        let (status, mem) = rq_probe r (deb_bo_handles cmd) (4 * ucast (deb_num_bo_handles cmd))
        in if \<not> NT_SUCCESS status then Inl (status, d)
           else case mem of
             None \<Rightarrow> Inl (STATUS_UNSUCCESSFUL, d)
           | Some bs \<Rightarrow>
               let boHandles = decode_handles (unat (deb_num_bo_handles cmd)) bs;
                   d1 = with_context ctx (UpdateResourceState boHandles True fenceId) d
               in if \<not> rq_pool r then Inl (STATUS_INSUFFICIENT_RESOURCES, d1)
                  else Inr (Some boHandles, d1))"

text \<open>The copy of the command stream into the vgpu memory; copying more than was allocated is
  a fault.\<close>

definition copy_command :: "u64 \<Rightarrow> u64 \<Rightarrow> u32 \<Rightarrow> u8 list \<Rightarrow> driver \<Rightarrow> driver" where
  "copy_command va alignCommandSize sz bs d =
     (let d1 = d\<lparr>k_mem := write_bytes va (take (unat sz) bs) (k_mem d)\<rparr>
      in if alignCommandSize < ucast sz then fault_at (Fault_overrun va) d1 else d1)"

definition CtlSubmitCommand_found :: "env \<Rightarrow> request \<Rightarrow> u64 \<Rightarrow> u32 \<Rightarrow> driver \<Rightarrow> reply option" where
  "CtlSubmitCommand_found e r bytesReturn ctx d =
     (let cmd = decode_drm_execbuffer (rq_in r); done = (\<lambda>status d. Some (status, bytesReturn, rq_out r, d))
     in case submit_in_fence r cmd d of
          Inl None \<Rightarrow> None
        | Inl (Some (status, d)) \<Rightarrow> done status d
        | Inr d \<Rightarrow>
     (case submit_out_fence r cmd d of
          Inl (status, d) \<Rightarrow> done status d
        | Inr (outFence, d) \<Rightarrow>
     (let (status, mem) = rq_probe r (deb_command cmd) (ucast (deb_size cmd))
      in if \<not> NT_SUCCESS status then done status d
         else case mem of
           None \<Rightarrow> done STATUS_UNSUCCESSFUL d
         | Some userCommandBuffer \<Rightarrow>
     (let alignCommandSize = ucast (ROUND_UP (deb_size cmd) PAGE_SIZE)
      in case AllocateVgpuMemory (en_rtl e) alignCommandSize (g_Memory d) of
           (None, m) \<Rightarrow> done STATUS_UNSUCCESSFUL (d\<lparr>g_Memory := m\<rparr>)
         | (Some kernelCommandBuffer, m) \<Rightarrow>
     (let d = d\<lparr>g_Memory := m\<rparr>;
          d = copy_command (md_VirtualAddress kernelCommandBuffer) alignCommandSize (deb_size cmd)
                userCommandBuffer d;
          (fenceId, idrs) = (if outFence \<noteq> 0 then GetIdFromIdrWithoutCache (g_Idrs d) FENCE_ID_TYPE 8
                             else (0, g_Idrs d));
          d = d\<lparr>g_Idrs := idrs\<rparr>
      in case submit_handles r cmd ctx fenceId d of
           Inl (status, d) \<Rightarrow> done status d
         | Inr (boHandlesBak, d) \<Rightarrow>
             let (status, dv) = SubmitCommand (en_kernel e) ctx kernelCommandBuffer alignCommandSize
                   (ucast (deb_size cmd)) boHandlesBak (ucast (deb_num_bo_handles cmd)) fenceId outFence (dr_dev d)
             in done status (d\<lparr>dr_dev := dv\<rparr>))))))"

definition CtlSubmitCommand :: "env \<Rightarrow> request \<Rightarrow> driver \<Rightarrow> reply option" where
  "CtlSubmitCommand e r d =
     with_input r 48 d (\<lambda>status bytesReturn.
     with_caller r bytesReturn d (\<lambda>c. CtlSubmitCommand_found e r bytesReturn (vc_Id c) d))"

text \<open>The handlers with their two parts put together.\<close>

lemmas CtlCreateResource_unfold = CtlCreateResource_def [unfolded CtlCreateResource_found_def]
lemmas CtlCreateBlobResource_unfold = CtlCreateBlobResource_def [unfolded CtlCreateBlobResource_found_def]
lemmas CtlCloseResource_unfold = CtlCloseResource_def [unfolded CtlCloseResource_found_def]
lemmas CtlWait_unfold = CtlWait_def [unfolded CtlWait_found_def]
lemmas CtlMap_unfold = CtlMap_def [unfolded CtlMap_found_def]
lemmas CtlTransferHost_unfold = CtlTransferHost_def [unfolded CtlTransferHost_found_def]
lemmas CtlSubmitCommand_unfold = CtlSubmitCommand_def [unfolded CtlSubmitCommand_found_def]

subsection \<open>Lists searched by a key\<close>

text \<open>The contract of the two lists: a search returns the first entry with the key.  \<open>total g\<close>
  is a quantity added up over the entries; writing through a found entry or unlinking it
  changes the total by that entry's share.\<close>

definition total :: "('e \<Rightarrow> 'm::comm_monoid_add) \<Rightarrow> 'e list \<Rightarrow> 'm" where
  "total g es = sum_list (map g es)"

lemma total_simps [simp]:
  "total g [] = 0" "total g (e # es) = g e + total g es" "total g (es @ fs) = total g es + total g fs"
  by (simp_all add: total_def)

lemma total_rev [simp]: "total g (rev es) = total g es"
  by (induction es) (simp_all add: add.commute)

locale keyed_list =
  fixes key :: "'e \<Rightarrow> 'k" and search :: "'k \<Rightarrow> 'e list \<Rightarrow> 'e option"
  assumes search_Nil: "search k [] = None"
    and search_Cons: "search k (e # es) = (if key e = k then Some e else search k es)"
begin

lemma search_SomeD: "search k es = Some e \<Longrightarrow> key e = k \<and> e \<in> set es"
  by (induction es) (auto simp: search_Nil search_Cons split: if_splits)

lemma search_None_iff: "search k es = None \<longleftrightarrow> k \<notin> key ` set es"
  by (induction es) (auto simp: search_Nil search_Cons)

lemma search_insert: "search k (e # es) = (if key e = k then Some e else search k es)"
  by (rule search_Cons)

lemma search_update:
  assumes "\<And>e. key (f e) = key e"
  shows "search k (upd_first (\<lambda>x. key x = k') f es) = (if k = k' then map_option f (search k es) else search k es)"
  by (induction es) (auto simp: search_Nil search_Cons assms)

lemma search_delete:
  "distinct (map key es) \<Longrightarrow>
   search k (del_first (\<lambda>x. key x = k') es) = (if k = k' then None else search k es)"
proof (induction es)
  case (Cons e es)
  then show ?case by (auto simp: search_Cons search_None_iff)
qed (simp add: search_Nil)

lemma total_update:
  "search k es = Some e \<Longrightarrow> total g (upd_first (\<lambda>x. key x = k) f es) + g e = total g es + g (f e)"
  by (induction es) (auto simp: search_Nil search_Cons ac_simps split: if_splits)

lemma total_delete:
  "search k es = Some e \<Longrightarrow> total g (del_first (\<lambda>x. key x = k) es) + g e = total g es"
  by (induction es) (auto simp: search_Nil search_Cons ac_simps split: if_splits)

lemma total_update_same:
  "(\<And>e. g (f e) = g e) \<Longrightarrow> total g (upd_first P f es) = total g es"
  by (induction es) auto

lemma set_update: "search k es = Some e \<Longrightarrow> set (upd_first (\<lambda>x. key x = k) f es) \<subseteq> insert (f e) (set es)"
  by (induction es) (auto simp: search_Nil search_Cons split: if_splits)

lemma search_share: "search k es = Some e \<Longrightarrow> g e \<subseteq># total g es"
  by (induction es) (auto simp: search_Nil search_Cons split: if_splits intro: subset_mset.add_increasing)

end

interpretation resources: keyed_list vr_Id resource_loop
  by unfold_locales simp_all

interpretation contexts: keyed_list vc_Id context_loop
  by unfold_locales simp_all

end
