(* ===== verification/Vgpu_Ownership.thy ===== *)
theory Vgpu_Ownership
  imports Vgpu_Control
begin

text \<open>
  The invariant of the driver's state and the lemmas that carry it through a handler: what the
  driver owns of the vgpu memory, of the resource ids and of the MDLs, who owns each part, and
  how the building blocks of the handlers move ownership.
\<close>

unbundle bit_operations_syntax

subsection \<open>What the driver owns\<close>

text \<open>The vgpu memory a resource owns, its id, and its MDL; the same for a context and for the
  whole driver.  A queued submission owns its part of the vgpu memory too.\<close>

definition res_regions :: "virgl_resource \<Rightarrow> region multiset" where
  "res_regions r =
     (if vr_bForBuffer r \<and> \<not> vr_bForBlob r
      then {#(md_VirtualAddress (mb_Memory (vr_Buffer r)), mb_Size (vr_Buffer r))#} else {#})"

definition res_ids :: "virgl_resource \<Rightarrow> u32 multiset" where
  "res_ids r = {#vr_Id r#}"

definition res_mdls :: "virgl_resource \<Rightarrow> u64 multiset" where
  "res_mdls r =
     (let sh = mb_Share (vr_Buffer r)
      in if vr_bForBuffer r \<and> sh_pMdl sh \<noteq> 0 then {#sh_pMdl sh#} else {#})"

text \<open>The id of a resource that is not a blob.\<close>

definition plain_ids :: "virgl_resource \<Rightarrow> u32 multiset" where
  "plain_ids r = (if vr_bForBlob r then {#} else {#vr_Id r#})"

definition owned_total :: "(virgl_resource \<Rightarrow> 'm::comm_monoid_add) \<Rightarrow> virgl_context list \<Rightarrow> 'm" where
  "owned_total g cs = total (\<lambda>c. total g (vc_ResourceList c)) cs"

definition held :: "(virgl_resource \<Rightarrow> 'm::comm_monoid_add) \<Rightarrow> virgl_resource list \<Rightarrow> driver \<Rightarrow> 'm" where
  "held g Ps d = owned_total g (g_VirglContextList d) + total g Ps"

definition driver_regions :: "driver \<Rightarrow> region multiset" where
  "driver_regions d = held res_regions [] d + queue_regions (dr_dev d)"

definition share_ok :: "virgl_resource \<Rightarrow> bool" where
  "share_ok r \<longleftrightarrow> (vr_bForBuffer r \<longrightarrow> sh_pMdl (mb_Share (vr_Buffer r)) \<noteq> 0 \<longrightarrow>
     sh_UserAdderss (mb_Share (vr_Buffer r)) \<noteq> 0)"

definition listed :: "driver \<Rightarrow> virgl_resource set" where
  "listed d = (\<Union>c \<in> set (g_VirglContextList d). set (vc_ResourceList c))"

definition caps_inv :: "capsets \<Rightarrow> bool" where
  "caps_inv caps \<longleftrightarrow> length (cps_Data caps) = unat (cps_NumCaps caps)
     \<and> (\<forall>c \<in> set (cps_Data caps). cs_max_size c \<le> 12264)"

text \<open>\<open>issued_once\<close>: at most one owner for an id, and only of ids below the counter, not 0.\<close>

definition issued_once :: "u64 \<Rightarrow> u32 multiset \<Rightarrow> bool" where
  "issued_once counter I \<longleftrightarrow> (\<forall>i. count I i \<le> of_bool (0 < i \<and> unat i < unat counter))"

text \<open>The invariant.  \<open>Ps\<close> are resources a running handler holds outside the lists and \<open>X\<close>
  regions it holds; between requests both are empty.  The regions of the listed resources, of
  the queued submissions and of the handler are owned, each page by one of them; every id and
  every MDL has one owner.\<close>

definition ids_ok :: "idrandom list \<Rightarrow> u32 multiset \<Rightarrow> bool" where
  "ids_ok idrs I \<longleftrightarrow> length idrs = IDR_MAX_SIZE
     \<and> 0 < idr_Id (idrs ! VIRGL_RESOURCE_ID_TYPE) \<and> unat (idr_Id (idrs ! VIRGL_RESOURCE_ID_TYPE)) \<le> 2 ^ 32
     \<and> issued_once (idr_Id (idrs ! VIRGL_RESOURCE_ID_TYPE)) I"

text \<open>The commands in the queues.  Between requests none is a query, since a query's caller waits
  for it; and the resource a queued map command names is a blob, so that the completion, which
  sets the resource's address and size, does not touch memory the resource owns.\<close>

definition queue_cmds :: "device \<Rightarrow> gpu_cmd set" where
  "queue_cmds dv = bf_cmd ` set (concat (dv_VirtQueues dv))"

definition is_query :: "gpu_cmd \<Rightarrow> bool" where
  "is_query c \<longleftrightarrow> hdr_type (cmd_hdr c) \<in> {ctrl_type_code VIRTIO_GPU_CMD_GET_CAPSET,
     ctrl_type_code VIRTIO_GPU_CMD_GET_CAPSET_INFO}"

definition map_ids :: "gpu_cmd \<Rightarrow> u32 set" where
  "map_ids c = (if hdr_type (cmd_hdr c) = ctrl_type_code VIRTIO_GPU_CMD_RESOURCE_MAP_BLOB
     then set_option (cmd_resource c) else {})"

definition cmd_ok :: "idrandom list \<Rightarrow> u32 multiset \<Rightarrow> gpu_cmd \<Rightarrow> bool" where
  "cmd_ok idrs I c \<longleftrightarrow> \<not> is_query c
     \<and> (\<forall>i \<in> map_ids c. unat i < unat (idr_Id (idrs ! VIRGL_RESOURCE_ID_TYPE)) \<and> i \<notin># I)"

definition queue_ok :: "idrandom list \<Rightarrow> u32 multiset \<Rightarrow> device \<Rightarrow> bool" where
  "queue_ok idrs I dv \<longleftrightarrow> (\<forall>c \<in> queue_cmds dv. cmd_ok idrs I c)"

definition driver_inv :: "u64 multiset \<Rightarrow> region multiset \<Rightarrow> virgl_resource list \<Rightarrow> driver \<Rightarrow> bool" where
  "driver_inv L X Ps d \<longleftrightarrow>
     device_acct L (dr_dev d) \<and> caps_inv (g_Capsets (dr_dev d))
   \<and> mem_owned (held res_regions Ps d + queue_regions (dr_dev d) + X) (g_Memory d)
   \<and> ids_ok (g_Idrs d) (held res_ids Ps d)
   \<and> held res_mdls Ps d \<subseteq># mset (k_mdls d)
   \<and> (\<forall>r \<in> listed d. share_ok r) \<and> list_all share_ok Ps
   \<and> size (held res_ids Ps d) \<le> k_resources_out d
   \<and> distinct (map vc_Id (g_VirglContextList d))
   \<and> queue_ok (g_Idrs d) (held plain_ids Ps d) (dr_dev d)"

text \<open>\<open>kept k L\<close>: the invariant with the lost blocks \<open>L\<close> and those lost since, of which there are
  none as long as the virtqueues accept everything.\<close>

definition kept :: "kernel \<Rightarrow> u64 multiset \<Rightarrow> region multiset \<Rightarrow> virgl_resource list \<Rightarrow> driver \<Rightarrow> bool" where
  "kept k L X Ps d \<longleftrightarrow> (\<exists>L'. L \<subseteq># L' \<and> (accepts_all k \<longrightarrow> L' = L) \<and> driver_inv L' X Ps d)"

text \<open>What the environment promises: pool blocks are not NULL, the bitmap searches do what they
  document, the host's capability sets fit the scatter-gather array.\<close>

definition env_ok :: "env \<Rightarrow> bool" where
  "env_ok e \<longleftrightarrow> pool_ok (en_kernel e) \<and> rtl_ok (en_rtl e)
     \<and> (\<forall>i resp. kn_capset_info (en_kernel e) i = Some resp \<longrightarrow> rci_capset_max_size resp \<le> 12264)"

subsection \<open>Effects on the totals\<close>

lemma owned_update:
  assumes "context_loop i cs = Some c"
  shows "owned_total g (upd_first (\<lambda>c. vc_Id c = i) f cs) + total g (vc_ResourceList c)
       = owned_total g cs + total g (vc_ResourceList (f c))"
  unfolding owned_total_def
  using contexts.total_update [OF assms, of "\<lambda>c. total g (vc_ResourceList c)" f] .

lemma owned_delete:
  assumes "context_loop i cs = Some c"
  shows "owned_total g (del_first (\<lambda>c. vc_Id c = i) cs) + total g (vc_ResourceList c) = owned_total g cs"
  unfolding owned_total_def
  using contexts.total_delete [OF assms, of "\<lambda>c. total g (vc_ResourceList c)"] .

lemma owned_insert:
  assumes "context_loop i cs = Some c"
  shows "owned_total (g :: _ \<Rightarrow> 'x multiset) (upd_first (\<lambda>c. vc_Id c = i) (insert_resource r) cs) = g r + owned_total g cs"
  using owned_update [OF assms, of g "insert_resource r"]
  by (simp add: insert_resource_def ac_simps)

lemma owned_remove:
  assumes "context_loop i cs = Some c" and "resource_loop h (vc_ResourceList c) = Some r"
  shows "owned_total (g :: _ \<Rightarrow> 'x multiset) (upd_first (\<lambda>c. vc_Id c = i)
      (\<lambda>c. c\<lparr>vc_ResourceList := del_first (\<lambda>x. vr_Id x = h) (vc_ResourceList c)\<rparr>) cs) + g r = owned_total g cs"
proof -
  let ?f = "\<lambda>c. c\<lparr>vc_ResourceList := del_first (\<lambda>x. vr_Id x = h) (vc_ResourceList c)\<rparr>"
  let ?rest = "total g (del_first (\<lambda>x. vr_Id x = h) (vc_ResourceList c))"
  have "owned_total g (upd_first (\<lambda>c. vc_Id c = i) ?f cs) + (?rest + g r) = owned_total g cs + ?rest"
    using owned_update [OF assms(1), of g ?f] by (simp add: resources.total_delete [OF assms(2), of g])
  then have "owned_total g (upd_first (\<lambda>c. vc_Id c = i) ?f cs) + g r + ?rest = owned_total g cs + ?rest"
    by (simp only: ac_simps)
  then show ?thesis by (simp only: add_right_cancel)
qed

lemma owned_change:
  assumes "context_loop i cs = Some c" and "resource_loop h (vc_ResourceList c) = Some r"
  shows "owned_total (g :: _ \<Rightarrow> 'x multiset) (upd_first (\<lambda>c. vc_Id c = i) (with_resource h f) cs) + g r
    = owned_total g cs + g (f r)"
proof -
  have "owned_total g (upd_first (\<lambda>c. vc_Id c = i) (with_resource h f) cs) + g r + total g (vc_ResourceList c)
      = owned_total g cs + (total g (vc_ResourceList (with_resource h f c)) + g r)"
    using owned_update [OF assms(1), of g "with_resource h f"] by (simp add: ac_simps)
  also have "\<dots> = owned_total g cs + g (f r) + total g (vc_ResourceList c)"
    using resources.total_update [OF assms(2), of g f] by (simp add: with_resource_def ac_simps)
  finally show ?thesis by (simp only: add_right_cancel)
qed

lemma owned_same:
  assumes "\<And>c. total g (vc_ResourceList (f c)) = total g (vc_ResourceList c)"
  shows "owned_total g (upd_first P f cs) = owned_total g cs"
  unfolding owned_total_def by (rule contexts.total_update_same) (rule assms)

text \<open>Changing the state of resources changes none of these.\<close>

lemma resource_state_frame [simp]:
  "res_regions (resource_state b f r) = res_regions r" "res_ids (resource_state b f r) = res_ids r"
  "res_mdls (resource_state b f r) = res_mdls r" "plain_ids (resource_state b f r) = plain_ids r" "vr_Id (resource_state b f r) = vr_Id r"
  "vr_Buffer (resource_state b f r) = vr_Buffer r" "vr_bForBuffer (resource_state b f r) = vr_bForBuffer r"
  "vr_bForBlob (resource_state b f r) = vr_bForBlob r"
  by (auto simp: resource_state_def res_regions_def res_ids_def res_mdls_def plain_ids_def)

lemma vc_Id_UpdateResourceState [simp]: "vc_Id (UpdateResourceState is b f c) = vc_Id c"
  by (induction "is" arbitrary: c) (auto simp: with_resource_def split: option.splits)

lemma total_UpdateResourceState:
  assumes "\<And>r. g (resource_state b f r) = g r"
  shows "total g (vc_ResourceList (UpdateResourceState is b f c)) = total g (vc_ResourceList c)"
  by (induction "is" arbitrary: c)
    (auto simp: with_resource_def resources.total_update_same assms split: option.splits)

lemma map_UpdateResourceState:
  assumes "\<And>r. g (resource_state b f r) = g r"
  shows "map g (vc_ResourceList (UpdateResourceState is b f c)) = map g (vc_ResourceList c)"
  by (induction "is" arbitrary: c) (auto simp: with_resource_def map_upd_first assms split: option.splits)

subsection \<open>The steps of a handler keep the invariant\<close>

lemma keptI: "driver_inv L X Ps d \<Longrightarrow> kept k L X Ps d"
  by (auto simp: kept_def)

lemma kept_step:
  assumes "kept k L X Ps d" and "\<And>L. driver_inv L X Ps d \<Longrightarrow> driver_inv L X' Ps' d'"
  shows "kept k L X' Ps' d'"
  using assms by (auto simp: kept_def)

lemma kept_chain:
  assumes "kept k L X Ps d" and "\<And>L. driver_inv L X Ps d \<Longrightarrow> kept k L X' Ps' d'"
  shows "kept k L X' Ps' d'"
proof -
  from assms(1) obtain L1 where 1: "L \<subseteq># L1" "accepts_all k \<longrightarrow> L1 = L" "driver_inv L1 X Ps d"
    by (auto simp: kept_def)
  from assms(2) [OF 1(3)] obtain L2 where "L1 \<subseteq># L2" "accepts_all k \<longrightarrow> L2 = L1" "driver_inv L2 X' Ps' d'"
    by (auto simp: kept_def)
  with 1 show ?thesis by (auto simp: kept_def intro: subset_mset.trans)
qed

lemma on_dev_simps [simp, frame_simps]:
  "dr_dev (on_dev f d) = f (dr_dev d)" "g_VirglContextList (on_dev f d) = g_VirglContextList d"
  "g_Memory (on_dev f d) = g_Memory d" "g_Idrs (on_dev f d) = g_Idrs d" "k_mdls (on_dev f d) = k_mdls d"
  "k_resources_out (on_dev f d) = k_resources_out d" "k_mem (on_dev f d) = k_mem d"
  "k_iomaps (on_dev f d) = k_iomaps d" "k_signals (on_dev f d) = k_signals d" "k_objects (on_dev f d) = k_objects d"
  "k_umaps (on_dev f d) = k_umaps d" "k_freed (on_dev f d) = k_freed d"
  by (simp_all add: on_dev_def)

lemma held_cong: "g_VirglContextList d' = g_VirglContextList d \<Longrightarrow> held g Ps d' = held g Ps d"
  by (simp add: held_def)

lemma listed_cong: "g_VirglContextList d' = g_VirglContextList d \<Longrightarrow> listed d' = listed d"
  by (simp add: listed_def)

lemma held_simps [simp]:
  "held g Ps (on_dev f d) = held g Ps d" "listed (on_dev f d) = listed d"
  "held g Ps (d\<lparr>k_mem := a1\<rparr>) = held g Ps d" "listed (d\<lparr>k_mem := a1\<rparr>) = listed d"
  "held g Ps (d\<lparr>k_objects := a2\<rparr>) = held g Ps d" "listed (d\<lparr>k_objects := a2\<rparr>) = listed d"
  "held g Ps (d\<lparr>k_signals := a3\<rparr>) = held g Ps d" "listed (d\<lparr>k_signals := a3\<rparr>) = listed d"
  "held g Ps (d\<lparr>k_iomaps := a4\<rparr>) = held g Ps d" "listed (d\<lparr>k_iomaps := a4\<rparr>) = listed d"
  "held g Ps (d\<lparr>k_umaps := a10\<rparr>) = held g Ps d" "listed (d\<lparr>k_umaps := a10\<rparr>) = listed d"
  "held g Ps (d\<lparr>k_freed := a11\<rparr>) = held g Ps d" "listed (d\<lparr>k_freed := a11\<rparr>) = listed d"
  "held g Ps (d\<lparr>k_mdls := a5\<rparr>) = held g Ps d" "listed (d\<lparr>k_mdls := a5\<rparr>) = listed d"
  "held g Ps (d\<lparr>g_Memory := a6\<rparr>) = held g Ps d" "listed (d\<lparr>g_Memory := a6\<rparr>) = listed d"
  "held g Ps (d\<lparr>g_Idrs := a7\<rparr>) = held g Ps d" "listed (d\<lparr>g_Idrs := a7\<rparr>) = listed d"
  "held g Ps (d\<lparr>dr_dev := a8\<rparr>) = held g Ps d" "listed (d\<lparr>dr_dev := a8\<rparr>) = listed d"
  "held g Ps (d\<lparr>k_resources_out := a9\<rparr>) = held g Ps d" "listed (d\<lparr>k_resources_out := a9\<rparr>) = listed d"
  by (simp_all add: held_def listed_def)

lemma held_list [simp]:
  "held g (r # Ps) d = held g Ps d + g r" "held g (Ps @ Qs) d = held g Ps d + total g Qs"
  by (simp_all add: held_def ac_simps)

text \<open>A call of a builder.\<close>

lemma queue_cmds_cong: "dv_VirtQueues dv' = dv_VirtQueues dv \<Longrightarrow> queue_cmds dv' = queue_cmds dv"
  by (simp add: queue_cmds_def)

lemma queue_cmds_mset:
  assumes "map mset (dv_VirtQueues dv') = map mset (dv_VirtQueues dv)"
  shows "queue_cmds dv' = queue_cmds dv"
proof -
  have "queue_cmds d = bf_cmd ` (\<Union>xs \<in> set (map mset (dv_VirtQueues d)). set_mset xs)" for d
    by (auto simp: queue_cmds_def)
  then show ?thesis by (simp only: assms)
qed

lemma push_cmds:
  "queue_cmds (snd (PushQueue k q sg out_num in_num b dv)) \<subseteq> insert (bf_cmd b) (queue_cmds dv)"
proof -
  have "set (concat (xss[q := xss ! q @ [b]])) \<subseteq> insert b (set (concat xss))" for xss :: "vgpu_buffer list list"
  proof (cases "q < length xss")
    case True
    then show ?thesis by (auto dest!: set_update_subset_insert [THEN subsetD])
  next
    case False
    then show ?thesis by (simp add: list_update_beyond subset_insertI)
  qed
  then show ?thesis by (auto simp: PushQueue_def queue_cmds_def Let_def simp del: set_concat)
qed

lemma send_cmds:
  assumes "sg_chunks RespSize \<le> 3"
  shows "queue_cmds (snd (snd (send_command k q cmd RespSize s dv))) \<subseteq> insert cmd (queue_cmds dv)"
proof -
  let ?b = "sent_buffer k cmd RespSize s dv"
  let ?d1 = "snd (AllocateCommandBuffer k (cmd_sizeof cmd) RespSize s 0 dv)"
  have "queue_cmds ?d1 = queue_cmds dv" by (rule queue_cmds_cong) (simp add: alloc_device)
  then show ?thesis
    using push_cmds [of k q "sent_sg k cmd RespSize ?b" 1 "of_nat (sg_chunks RespSize)" ?b ?d1]
    by (simp add: send_command_fits [OF assms] Let_def case_prod_beta)
qed

context command_sender
begin

lemma run_cmds:
  "\<exists>cmd. cmd_matches (spec c) cmd \<and> queue_cmds (run k c d) \<subseteq> insert cmd (queue_cmds d)"
proof -
  obtain cmd r where "run k c d = snd (snd (send_command k (cl_queue (spec c)) cmd r False d))"
    "sg_chunks r \<le> 3" "cmd_matches (spec c) cmd"
    using sends [of k c d] by blast
  then show ?thesis using send_cmds [of r k "cl_queue (spec c)" cmd False d] by auto
qed

lemma run_queue_ok:
  assumes "queue_ok idrs I d" and "cl_type (spec c) \<notin> {VIRTIO_GPU_CMD_GET_CAPSET, VIRTIO_GPU_CMD_GET_CAPSET_INFO}"
    and "cl_type (spec c) = VIRTIO_GPU_CMD_RESOURCE_MAP_BLOB \<longrightarrow> (\<forall>i \<in> set_option (cl_resource (spec c)).
           unat i < unat (idr_Id (idrs ! VIRGL_RESOURCE_ID_TYPE)) \<and> i \<notin># I)"
  shows "queue_ok idrs I (run k c d)"
proof -
  obtain cmd where c: "cmd_matches (spec c) cmd" "queue_cmds (run k c d) \<subseteq> insert cmd (queue_cmds d)"
    using run_cmds by blast
  have "cmd_ok idrs I cmd"
    using c(1) assms(2,3)
    by (auto simp: cmd_ok_def cmd_matches_def is_query_def map_ids_def ctrl_type_code_inject split: if_splits simp del: ctrl_type_code.simps)
  with c(2) assms(1) show ?thesis by (auto simp: queue_ok_def)
qed

end

definition call_allowed :: "driver \<Rightarrow> virgl_resource list \<Rightarrow> gpu_call \<Rightarrow> bool" where
  "call_allowed d Ps c \<longleftrightarrow> (\<forall>ctx i f. c = Call_MapBlobResource ctx i f \<longrightarrow>
     unat i < unat (idr_Id (g_Idrs d ! VIRGL_RESOURCE_ID_TYPE)) \<and> i \<notin># held plain_ids Ps d)"

lemma call_queue_ok:
  assumes "queue_ok (g_Idrs d) (held plain_ids Ps d) (dr_dev d)" and "call_allowed d Ps c"
  shows "queue_ok (g_Idrs d) (held plain_ids Ps d) (run_call k c (dr_dev d))"
  using assms(2) by (intro gpu.run_queue_ok [OF assms(1)]; cases c) (simp_all add: call_allowed_def)

lemma kept_call:
  assumes "kept k L X Ps d" and "pool_ok k" and "call_allowed d Ps c"
  shows "kept k L X Ps (on_dev (run_call k c) d)"
proof (rule kept_chain [OF assms(1)])
  fix L assume i: "driver_inv L X Ps d"
  then have "device_acct L (dr_dev d)" by (simp add: driver_inv_def)
  from gpu.run_acct [OF this assms(2), of c] obtain L' where
    "L \<subseteq># L'" "accepts_all k \<longrightarrow> L' = L" "device_acct L' (run_call k c (dr_dev d))" by blast
  moreover from this i have "driver_inv L' X Ps (on_dev (run_call k c) d)"
    by (simp add: driver_inv_def gpu.run_regions gpu.run_frame call_queue_ok [OF _ assms(3)])
  ultimately show "kept k L X Ps (on_dev (run_call k c) d)" by (auto simp: kept_def)
qed

lemmas kept_calls =
  kept_call [of _ _ _ _ _ "Call_CreateVirglContext x y" for x y, simplified call_allowed_def run_call.simps gpu_call.distinct simp_thms True_implies_equals]
  kept_call [of _ _ _ _ _ "Call_DestroyVirglContext x" for x, simplified call_allowed_def run_call.simps gpu_call.distinct simp_thms True_implies_equals]
  kept_call [of _ _ _ _ _ "Call_TransferHost3D x y z w" for x y z w, simplified call_allowed_def run_call.simps gpu_call.distinct simp_thms True_implies_equals]
  kept_call [of _ _ _ _ _ "Call_Create3DResource x y z w" for x y z w, simplified call_allowed_def run_call.simps gpu_call.distinct simp_thms True_implies_equals]
  kept_call [of _ _ _ _ _ "Call_CreateBlobResource x y z w" for x y z w, simplified call_allowed_def run_call.simps gpu_call.distinct simp_thms True_implies_equals]
  kept_call [of _ _ _ _ _ "Call_UnMapBlobResource x y z" for x y z, simplified call_allowed_def run_call.simps gpu_call.distinct simp_thms True_implies_equals]
  kept_call [of _ _ _ _ _ "Call_AttachResourceBacking x y" for x y, simplified call_allowed_def run_call.simps gpu_call.distinct simp_thms True_implies_equals]
  kept_call [of _ _ _ _ _ "Call_DetachResourceBacking x" for x, simplified call_allowed_def run_call.simps gpu_call.distinct simp_thms True_implies_equals]
  kept_call [of _ _ _ _ _ "Call_UnrefResource x y" for x y, simplified call_allowed_def run_call.simps gpu_call.distinct simp_thms True_implies_equals]

lemmas kept_map_call = kept_call [of _ _ _ _ _ "Call_MapBlobResource x y z" for x y z,
  simplified call_allowed_def run_call.simps gpu_call.inject]

text \<open>A handler fault; memory contents, objects and signals; letting go of what the handler held.\<close>

lemma acct_fault: "device_acct L d \<Longrightarrow> handler_fault f \<Longrightarrow> device_acct L (d\<lparr>dv_faults := dv_faults d @ [f]\<rparr>)"
  by (auto simp: device_acct_def)

lemma queue_regions_faults [simp]: "queue_regions (d\<lparr>dv_faults := fs\<rparr>) = queue_regions d"
  by (simp add: queue_regions_def)

lemma fault_at_simps [simp, frame_simps]:
  "g_VirglContextList (fault_at f d) = g_VirglContextList d" "g_Memory (fault_at f d) = g_Memory d"
  "k_mdls (fault_at f d) = k_mdls d" "k_iomaps (fault_at f d) = k_iomaps d" "k_mem (fault_at f d) = k_mem d"
  by (simp_all add: fault_at_def)

lemma queue_ok_faults [simp]: "queue_ok idrs I (dv\<lparr>dv_faults := fs\<rparr>) = queue_ok idrs I dv"
  by (simp add: queue_ok_def queue_cmds_def)

lemma inv_fault: "driver_inv L X Ps d \<Longrightarrow> handler_fault f \<Longrightarrow> driver_inv L X Ps (fault_at f d)"
  by (simp add: driver_inv_def fault_at_def driver_regions_def acct_fault)

lemma inv_scratch [simp]:
  "driver_inv L X Ps (d\<lparr>k_mem := m\<rparr>) = driver_inv L X Ps d"
  "driver_inv L X Ps (d\<lparr>k_objects := os\<rparr>) = driver_inv L X Ps d"
  "driver_inv L X Ps (d\<lparr>k_umaps := us\<rparr>) = driver_inv L X Ps d"
  "driver_inv L X Ps (d\<lparr>k_freed := fs\<rparr>) = driver_inv L X Ps d"
  "driver_inv L X Ps (d\<lparr>k_signals := ss\<rparr>) = driver_inv L X Ps d"
  "driver_inv L X Ps (d\<lparr>k_iomaps := ms\<rparr>) = driver_inv L X Ps d"
  by (simp_all add: driver_inv_def)

lemma issued_once_mono: "issued_once n (I + J) \<Longrightarrow> issued_once n I"
proof -
  assume "issued_once n (I + J)"
  moreover have "count I i \<le> count (I + J) i" for i by simp
  ultimately show ?thesis unfolding issued_once_def by (blast intro: le_trans)
qed

lemma ids_ok_mono: "ids_ok idrs (I + J) \<Longrightarrow> ids_ok idrs I"
  by (auto simp: ids_ok_def dest: issued_once_mono)

lemma mem_owned_mono: "mem_owned (R + S) m \<Longrightarrow> mem_owned R m"
  using mem_owned_remove [of "R + S" m S] by simp

lemma queue_ok_mono: "queue_ok idrs (I + J) dv \<Longrightarrow> queue_ok idrs I dv"
  by (auto simp: queue_ok_def cmd_ok_def)

lemma inv_drop:
  assumes "driver_inv L (X + Y) (Ps @ Qs) d"
  shows "driver_inv L X Ps d"
proof -
  have "mem_owned ((held res_regions Ps d + queue_regions (dr_dev d) + X) + (total res_regions Qs + Y)) (g_Memory d)"
    using assms by (simp add: driver_inv_def ac_simps)
  then have "mem_owned (held res_regions Ps d + queue_regions (dr_dev d) + X) (g_Memory d)"
    by (rule mem_owned_mono)
  moreover have "ids_ok (g_Idrs d) (held res_ids Ps d + total res_ids Qs)"
    using assms by (simp add: driver_inv_def)
  then have "ids_ok (g_Idrs d) (held res_ids Ps d)" by (rule ids_ok_mono)
  moreover have "queue_ok (g_Idrs d) (held plain_ids Ps d + total plain_ids Qs) (dr_dev d)"
    using assms by (simp add: driver_inv_def)
  then have "queue_ok (g_Idrs d) (held plain_ids Ps d) (dr_dev d)" by (rule queue_ok_mono)
  moreover have "held res_mdls Ps d \<subseteq># mset (k_mdls d)"
  proof -
    have "held res_mdls Ps d + total res_mdls Qs \<subseteq># mset (k_mdls d)"
      using assms by (simp add: driver_inv_def)
    then show ?thesis by (rule subset_mset.trans [OF mset_subset_eq_add_left])
  qed
  ultimately show ?thesis using assms by (simp add: driver_inv_def)
qed

lemma inv_drop_resource: "driver_inv L X (r # Ps) d \<Longrightarrow> driver_inv L X Ps d"
  by (rule inv_drop [of L X "{#}" Ps "[r]"]) (simp add: driver_inv_def ac_simps)

lemma inv_drop_region: "driver_inv L (add_mset x X) Ps d \<Longrightarrow> driver_inv L X Ps d"
  using inv_drop [of L X "{#x#}" Ps "[]" d] by simp

text \<open>Changing a held resource, with the regions it takes over.\<close>

lemma inv_pending:
  assumes "driver_inv L X (r # Ps) d" and "res_ids r' = res_ids r" and "res_mdls r' = res_mdls r"
    and "res_regions r' + X' = res_regions r + X" and "share_ok r'"
    and "plain_ids r' = plain_ids r"
  shows "driver_inv L X' (r' # Ps) d"
proof -
  have "held res_regions (r' # Ps) d + queue_regions (dr_dev d) + X'
      = held res_regions Ps d + queue_regions (dr_dev d) + (res_regions r' + X')"
    by (simp add: ac_simps)
  also have "\<dots> = held res_regions (r # Ps) d + queue_regions (dr_dev d) + X"
    by (simp only: assms(4)) (simp add: ac_simps)
  finally have "mem_owned (held res_regions (r' # Ps) d + queue_regions (dr_dev d) + X') (g_Memory d)"
    using assms(1) by (simp only: driver_inv_def)
  with assms show ?thesis by (simp add: driver_inv_def)
qed

text \<open>Into the lists and out of them.\<close>

lemma with_context_simps [simp, frame_simps]:
  "dr_dev (with_context i f d) = dr_dev d" "g_Memory (with_context i f d) = g_Memory d"
  "g_Idrs (with_context i f d) = g_Idrs d" "k_mdls (with_context i f d) = k_mdls d"
  "k_resources_out (with_context i f d) = k_resources_out d"
  "g_VirglContextList (with_context i f d) = upd_first (\<lambda>c. vc_Id c = i) f (g_VirglContextList d)"
  by (simp_all add: with_context_def)

lemma vc_Id_insert [simp]: "vc_Id (insert_resource r c) = vc_Id c"
  by (simp add: insert_resource_def)

lemma distinct_ids_update:
  "(\<And>c. vc_Id (f c) = vc_Id c) \<Longrightarrow> map vc_Id (upd_first P f cs) = map vc_Id cs"
  by (rule map_upd_first)

lemma inv_insert:
  assumes "driver_inv L X (r # Ps) d" and "context_loop i (g_VirglContextList d) = Some c"
  shows "driver_inv L X Ps (with_context i (insert_resource r) d)"
proof -
  have h: "held g Ps (with_context i (insert_resource r) d) = held g (r # Ps) d"
    for g :: "virgl_resource \<Rightarrow> 'x multiset"
    by (simp add: held_def owned_insert [OF assms(2)] ac_simps)
  have "share_ok x" if "x \<in> listed (with_context i (insert_resource r) d)" for x
    using that assms(1)
    by (auto simp: listed_def driver_inv_def insert_resource_def dest!: set_upd_first)
  with assms(1) show ?thesis
    by (simp add: driver_inv_def h distinct_ids_update del: held_list)
qed

definition remove_resource :: "u32 \<Rightarrow> virgl_context \<Rightarrow> virgl_context" where
  "remove_resource h c = c\<lparr>vc_ResourceList := del_first (\<lambda>x. vr_Id x = h) (vc_ResourceList c)\<rparr>"

lemma inv_remove:
  assumes "driver_inv L X Ps d" and "context_loop i (g_VirglContextList d) = Some c"
    and "resource_loop h (vc_ResourceList c) = Some r"
  shows "driver_inv L X (r # Ps) (with_context i (remove_resource h) d)"
proof -
  have h: "held g (r # Ps) (with_context i (remove_resource h) d) = held g Ps d"
    for g :: "virgl_resource \<Rightarrow> 'x multiset"
    using owned_remove [OF assms(2,3), of g] by (simp add: held_def remove_resource_def [abs_def] ac_simps)
  have "share_ok x" if "x \<in> listed (with_context i (remove_resource h) d)" for x
    using that assms(1)
    by (auto simp: listed_def driver_inv_def remove_resource_def dest!: set_upd_first set_del_first)
  moreover have "share_ok r"
    using assms contexts.search_SomeD [OF assms(2)] resources.search_SomeD [OF assms(3)]
    by (auto simp: driver_inv_def listed_def)
  ultimately show ?thesis using assms(1)
    by (simp add: driver_inv_def h distinct_ids_update remove_resource_def del: held_list)
qed

text \<open>Changing resources in place.\<close>

lemma inv_update:
  assumes "driver_inv L X Ps d" and "\<And>c. vc_Id (f c) = vc_Id c"
    and "\<And>c. map (\<lambda>r. (res_regions r, res_ids r, res_mdls r, plain_ids r)) (vc_ResourceList (f c))
           = map (\<lambda>r. (res_regions r, res_ids r, res_mdls r, plain_ids r)) (vc_ResourceList c)"
    and "\<And>c. \<forall>r \<in> set (vc_ResourceList c). share_ok r \<Longrightarrow> \<forall>r \<in> set (vc_ResourceList (f c)). share_ok r"
  shows "driver_inv L X Ps (with_context i f d)"
proof -
  have "total res_regions (vc_ResourceList (f c)) = total res_regions (vc_ResourceList c)"
    "total res_ids (vc_ResourceList (f c)) = total res_ids (vc_ResourceList c)"
    "total res_mdls (vc_ResourceList (f c)) = total res_mdls (vc_ResourceList c)"
    "total plain_ids (vc_ResourceList (f c)) = total plain_ids (vc_ResourceList c)" for c
    using arg_cong [OF assms(3) [of c], of "map fst"]
      arg_cong [OF assms(3) [of c], of "map (\<lambda>x. fst (snd x))"]
      arg_cong [OF assms(3) [of c], of "map (\<lambda>x. fst (snd (snd x)))"]
      arg_cong [OF assms(3) [of c], of "map (\<lambda>x. snd (snd (snd x)))"]
    by (simp_all add: total_def comp_def)
  then have h: "held res_regions Ps (with_context i f d) = held res_regions Ps d"
    "held res_ids Ps (with_context i f d) = held res_ids Ps d"
    "held res_mdls Ps (with_context i f d) = held res_mdls Ps d"
    "held plain_ids Ps (with_context i f d) = held plain_ids Ps d"
    by (simp_all add: held_def owned_same)
  have "share_ok x" if "x \<in> listed (with_context i f d)" for x
    using that assms(1,4) by (fastforce simp: listed_def driver_inv_def dest!: set_upd_first)
  with assms(1,2) show ?thesis by (simp add: driver_inv_def h distinct_ids_update)
qed

lemma share_ok_state [simp]: "share_ok (resource_state b f r) = share_ok r"
  by (simp add: share_ok_def)

lemma inv_busy: "driver_inv L X Ps d \<Longrightarrow> driver_inv L X Ps (with_context i (UpdateResourceState is b f) d)"
proof (rule inv_update)
  fix c :: virgl_context
  assume "\<forall>r \<in> set (vc_ResourceList c). share_ok r"
  moreover have "map share_ok (vc_ResourceList (UpdateResourceState is b f c)) = map share_ok (vc_ResourceList c)"
    by (rule map_UpdateResourceState) simp
  ultimately show "\<forall>r \<in> set (vc_ResourceList (UpdateResourceState is b f c)). share_ok r"
    by (metis (no_types, lifting) in_set_conv_nth length_map nth_map nth_mem)
qed (simp_all add: map_UpdateResourceState)

text \<open>Releasing what a resource holds.\<close>

lemma inv_free_mdl:
  assumes "driver_inv L X (r # Ps) d" and "res_mdls r = {#m#}" and "res_mdls r' = {#}"
    and "res_ids r' = res_ids r" and "res_regions r' = res_regions r" and "share_ok r'"
    and "plain_ids r' = plain_ids r"
  shows "driver_inv L X (r' # Ps) (IoFreeMdl m d)"
proof -
  have "add_mset m (held res_mdls Ps d) \<subseteq># mset (k_mdls d)"
    using assms(1,2) by (simp add: driver_inv_def)
  then have "m \<in># mset (k_mdls d)" "held res_mdls Ps d \<subseteq># mset (k_mdls d) - {#m#}"
    by (simp_all add: insert_subset_eq_iff)
  then have "IoFreeMdl m d = d\<lparr>k_mdls := remove1 m (k_mdls d)\<rparr>"
    "held res_mdls Ps d \<subseteq># mset (remove1 m (k_mdls d))"
    by (simp_all add: IoFreeMdl_def)
  with assms show ?thesis by (simp add: driver_inv_def)
qed

lemma inv_free_region:
  assumes "driver_inv L (add_mset (va, sz) X) Ps d" and "rtl_ok rtl"
  shows "driver_inv L X Ps (d\<lparr>g_Memory := FreeVgpuMemory rtl va sz (g_Memory d)\<rparr>)"
proof -
  have "mem_owned (add_mset (va, sz) (held res_regions Ps d + queue_regions (dr_dev d) + X)) (g_Memory d)"
    using assms(1) by (simp add: driver_inv_def)
  from free_owned [OF this assms(2), of "(va, sz)"] assms(1) show ?thesis
    by (simp add: driver_inv_def)
qed

lemma inv_alloc_region:
  assumes "driver_inv L X Ps d" and "rtl_ok rtl" and "unat sz mod 4096 = 0"
    and "AllocateVgpuMemory rtl sz (g_Memory d) = (Some md, m)"
  shows "driver_inv L (add_mset (md_VirtualAddress md, sz) X) Ps (d\<lparr>g_Memory := m\<rparr>)"
  using alloc_owned [OF _ assms(2-4), of "held res_regions Ps d + queue_regions (dr_dev d) + X"] assms(1)
  by (simp add: driver_inv_def)

lemma inv_alloc_failed:
  assumes "driver_inv L X Ps d" and "AllocateVgpuMemory rtl sz (g_Memory d) = (None, m)"
  shows "driver_inv L X Ps (d\<lparr>g_Memory := m\<rparr>)"
  using alloc_None_same [of rtl sz "g_Memory d"] assms by simp

lemma inv_unmap_io: "driver_inv L X Ps d \<Longrightarrow> driver_inv L X Ps (MmUnmapIoSpace a s d)"
  by (simp add: MmUnmapIoSpace_def inv_fault)

lemma inv_unmap_user: "driver_inv L X Ps d \<Longrightarrow> driver_inv L X Ps (MmUnmapLockedPages a m d)"
  by (simp add: MmUnmapLockedPages_def inv_fault)

lemma inv_free_context [simp]: "driver_inv L X Ps (free_context ctx d) = driver_inv L X Ps d"
  by (simp add: free_context_def)

lemma inv_free_resource: "driver_inv L X (r # Ps) d \<Longrightarrow> driver_inv L X Ps (free_resource ctx i d)"
proof -
  assume i: "driver_inv L X (r # Ps) d"
  then have "Suc (size (held res_ids Ps d)) \<le> k_resources_out d"
    by (simp add: driver_inv_def res_ids_def)
  with inv_drop_resource [OF i] show ?thesis
    by (simp add: driver_inv_def free_resource_def)
qed


text \<open>Changing one resource in place, with an MDL it takes.\<close>

lemma inv_change:
  assumes inv: "driver_inv L X Ps d" and c: "context_loop i (g_VirglContextList d) = Some c"
    and r: "resource_loop h (vc_ResourceList c) = Some r"
    and f: "res_regions (f r) = res_regions r" "res_ids (f r) = res_ids r" "plain_ids (f r) = plain_ids r"
      "res_mdls (f r) = res_mdls r + mset ms" "share_ok (f r)"
  shows "driver_inv L X Ps (with_context i (with_resource h f) (d\<lparr>k_mdls := ms @ k_mdls d\<rparr>))"
proof -
  let ?d = "with_context i (with_resource h f) (d\<lparr>k_mdls := ms @ k_mdls d\<rparr>)"
  have t: "held g Ps ?d + g r = held g Ps d + g (f r)" for g :: "virgl_resource \<Rightarrow> 'x multiset"
    using owned_change [OF c r, of g f] by (simp add: held_def with_context_def ac_simps)
  have same: "held res_regions Ps ?d = held res_regions Ps d" "held res_ids Ps ?d = held res_ids Ps d"
    "held plain_ids Ps ?d = held plain_ids Ps d"
    using t [of res_regions] t [of res_ids] t [of plain_ids] f(1-3) by simp_all
  have "held res_mdls Ps ?d + res_mdls r = (held res_mdls Ps d + mset ms) + res_mdls r"
    using t [of res_mdls] f(4) by (simp add: ac_simps)
  then have mdls: "held res_mdls Ps ?d = held res_mdls Ps d + mset ms" by simp
  have "share_ok x" if "x \<in> listed ?d" for x
  proof -
    have cin: "c \<in> set (g_VirglContextList d)" and rin: "r \<in> set (vc_ResourceList c)"
      using contexts.search_SomeD [OF c] resources.search_SomeD [OF r] by auto
    have ok: "\<forall>c \<in> set (g_VirglContextList d). \<forall>r \<in> set (vc_ResourceList c). share_ok r"
      using inv by (auto simp: driver_inv_def listed_def)
    obtain c' where c': "c' \<in> insert (with_resource h f c) (set (g_VirglContextList d))" "x \<in> set (vc_ResourceList c')"
      using \<open>x \<in> listed ?d\<close> contexts.set_update [OF c, of "with_resource h f"]
      by (auto simp: listed_def)
    show ?thesis
    proof (cases "c' = with_resource h f c")
      case True
      with c'(2) resources.set_update [OF r, of f] have "x \<in> insert (f r) (set (vc_ResourceList c))"
        by (auto simp: with_resource_def)
      with f(5) ok cin show ?thesis by auto
    next
      case False
      with c' ok show ?thesis by auto
    qed
  qed
  moreover have "held res_mdls Ps d + mset ms \<subseteq># mset ms + mset (k_mdls d)"
    using inv by (simp add: driver_inv_def add.commute)
  ultimately show ?thesis using inv
    by (simp add: driver_inv_def same mdls distinct_ids_update with_resource_def)
qed

end
