(* ===== verification/Vgpu_Handlers.thy ===== *)
theory Vgpu_Handlers
  imports Vgpu_Ownership
begin

text \<open>
  What the request handlers keep and what they do: every handler keeps the invariant of
  \<open>Vgpu_Ownership\<close>, whatever the caller sends and whatever the host and the kernel answer,
  and each operation has the effect its name promises on the branches that succeed.
\<close>

unbundle bit_operations_syntax

subsection \<open>Deleting resources\<close>

text \<open>\<open>release r\<close>: what is left of a resource whose share and memory are gone.\<close>

definition released :: "virgl_resource \<Rightarrow> virgl_resource" where
  "released r = r\<lparr>vr_bForBuffer := False\<rparr>"

lemma released_simps [simp]:
  "res_regions (released r) = {#}" "res_mdls (released r) = {#}" "res_ids (released r) = res_ids r"
  "share_ok (released r)" "plain_ids (released r) = plain_ids r"
  by (simp_all add: plain_ids_def released_def res_regions_def res_mdls_def res_ids_def share_ok_def)

definition unshared :: "virgl_resource \<Rightarrow> virgl_resource" where
  "unshared r = set_share ((mb_Share (vr_Buffer r))\<lparr>sh_pMdl := 0\<rparr>) r"

lemma unshared_simps [simp]:
  "res_regions (unshared r) = res_regions r" "res_mdls (unshared r) = {#}" "res_ids (unshared r) = res_ids r"
  "share_ok (unshared r)" "plain_ids (unshared r) = plain_ids r"
  by (simp_all add: plain_ids_def unshared_def set_share_def res_regions_def res_mdls_def res_ids_def share_ok_def)

lemma inv_unshare:
  assumes "driver_inv L X (r # Ps) d" and "vr_bForBuffer r"
  shows "driver_inv L X (unshared r # Ps)
    (if sh_pMdl (mb_Share (vr_Buffer r)) \<noteq> 0 then DeleteUserShareMemory (mb_Share (vr_Buffer r)) d else d)"
proof (cases "sh_pMdl (mb_Share (vr_Buffer r)) = 0")
  case True
  then have "res_mdls r = {#}" by (simp add: res_mdls_def)
  with True inv_pending [OF assms(1), of "unshared r" X] show ?thesis by simp
next
  case False
  have "share_ok r" using assms(1) by (simp add: driver_inv_def)
  with False assms(2) have "sh_UserAdderss (mb_Share (vr_Buffer r)) \<noteq> 0" by (simp add: share_ok_def)
  moreover have "res_mdls r = {#sh_pMdl (mb_Share (vr_Buffer r))#}"
    using False assms(2) by (simp add: res_mdls_def)
  from inv_free_mdl [OF inv_unmap_user [OF assms(1)] this, of "unshared r" "sh_UserAdderss (mb_Share (vr_Buffer r))"
      "sh_pMdl (mb_Share (vr_Buffer r))"]
  have "driver_inv L X (unshared r # Ps) (IoFreeMdl (sh_pMdl (mb_Share (vr_Buffer r)))
      (MmUnmapLockedPages (sh_UserAdderss (mb_Share (vr_Buffer r))) (sh_pMdl (mb_Share (vr_Buffer r))) d))" by simp
  ultimately show ?thesis using False by (simp add: DeleteUserShareMemory_def)
qed


lemma kept_delete:
  assumes "kept (en_kernel e) L X (r # Ps) d" and "env_ok e"
  shows "kept (en_kernel e) L X Ps (free_resource ctx (vr_Id r) (DeleteResource e ctx r d))"
proof -
  let ?k = "en_kernel e"
  let ?buf = "vr_Buffer r"
  have po: "pool_ok ?k" and ro: "rtl_ok (en_rtl e)" using assms(2) by (simp_all add: env_ok_def)
  define d1 where "d1 = (if vr_bForBuffer r then
                  let da = (if sh_pMdl (mb_Share ?buf) \<noteq> 0 then DeleteUserShareMemory (mb_Share ?buf) d else d)
                  in if vr_bForBlob r then
                       MmUnmapIoSpace (md_VirtualAddress (mb_Memory ?buf)) (mb_Size ?buf)
                         (on_dev (UnMapBlobResource ?k ctx (vr_Id r) 0) da)
                     else
                       let db = on_dev (DetachResourceBacking ?k r) da
                       in db\<lparr>g_Memory := FreeVgpuMemory (en_rtl e) (md_VirtualAddress (mb_Memory ?buf))
                              (mb_Size ?buf) (g_Memory db)\<rparr>
                else d)"
  have "\<exists>r'. kept ?k L X (r' # Ps) d1"
  proof (cases "vr_bForBuffer r")
    case False
    with assms(1) show ?thesis by (auto simp: d1_def)
  next
    case b: True
    let ?da = "if sh_pMdl (mb_Share ?buf) \<noteq> 0 then DeleteUserShareMemory (mb_Share ?buf) d else d"
    have da: "kept ?k L X (unshared r # Ps) ?da"
      by (rule kept_step [OF assms(1)]) (rule inv_unshare [OF _ b])
    show ?thesis
    proof (cases "vr_bForBlob r")
      case True
      have "kept ?k L X (unshared r # Ps) (on_dev (UnMapBlobResource ?k ctx (vr_Id r) 0) ?da)"
        by (rule kept_calls [OF da po])
      then have "kept ?k L X (unshared r # Ps) d1"
        using b True by (simp add: d1_def kept_step inv_unmap_io del: if_split)
      then show ?thesis by blast
    next
      case False
      let ?db = "on_dev (DetachResourceBacking ?k r) ?da"
      let ?x = "(md_VirtualAddress (mb_Memory ?buf), mb_Size ?buf)"
      have regions: "res_regions r = {#?x#}" using b False by (simp add: res_regions_def)
      have db: "kept ?k L X (unshared r # Ps) ?db" by (rule kept_calls [OF da po])
      have "kept ?k L (add_mset ?x X) (released r # Ps) ?db"
        by (rule kept_step [OF db], erule inv_pending) (simp_all add: regions)
      then have "kept ?k L X (released r # Ps) (?db\<lparr>g_Memory := FreeVgpuMemory (en_rtl e) (fst ?x) (snd ?x) (g_Memory ?db)\<rparr>)"
        by (rule kept_step) (simp only: fst_conv snd_conv inv_free_region [OF _ ro])
      with b False have "kept ?k L X (released r # Ps) d1" by (simp add: d1_def Let_def del: if_split)
      then show ?thesis by blast
    qed
  qed
  then obtain r' where "kept ?k L X (r' # Ps) d1" by blast
  then have "kept ?k L X (r' # Ps) (on_dev (UnrefResource ?k ctx (vr_Id r)) d1)" by (rule kept_calls [OF _ po])
  then have "kept ?k L X Ps (free_resource ctx (vr_Id r) (on_dev (UnrefResource ?k ctx (vr_Id r)) d1))"
    by (rule kept_step) (rule inv_free_resource)
  moreover have "DeleteResource e ctx r d = on_dev (UnrefResource ?k ctx (vr_Id r)) d1"
    by (simp add: DeleteResource_def d1_def Let_def del: if_split)
  ultimately show ?thesis by simp
qed

lemma kept_destroy_loop:
  "kept (en_kernel e) L X (rs @ Ps) d \<Longrightarrow> env_ok e \<Longrightarrow> kept (en_kernel e) L X Ps (destroy_loop e ctx rs d)"
  by (induction rs arbitrary: d) (simp_all add: kept_delete)

lemma held_remove_context:
  assumes "context_loop i (g_VirglContextList d) = Some c"
  shows "held (g :: _ \<Rightarrow> 'x multiset) (rev (vc_ResourceList c) @ Ps)
      (d\<lparr>g_VirglContextList := del_first (\<lambda>x. vc_Id x = i) (g_VirglContextList d)\<rparr>) = held g Ps d"
  using owned_delete [OF assms, of g] by (simp add: held_def ac_simps)

lemma inv_remove_context:
  assumes "driver_inv L X Ps d" and "context_loop i (g_VirglContextList d) = Some c"
  shows "driver_inv L X (rev (vc_ResourceList c) @ Ps)
      (d\<lparr>g_VirglContextList := del_first (\<lambda>x. vc_Id x = i) (g_VirglContextList d)\<rparr>)"
proof -
  let ?d = "d\<lparr>g_VirglContextList := del_first (\<lambda>x. vc_Id x = i) (g_VirglContextList d)\<rparr>"
  have "share_ok x" if "x \<in> listed ?d" for x
    using that assms(1) by (auto simp: listed_def driver_inv_def dest!: set_del_first)
  moreover have "list_all share_ok (rev (vc_ResourceList c))"
    using assms(1) contexts.search_SomeD [OF assms(2)]
    by (auto simp: driver_inv_def listed_def list_all_iff)
  moreover have "distinct (map vc_Id (g_VirglContextList ?d))"
    using assms(1) by (simp add: driver_inv_def distinct_map_del_first)
  ultimately show ?thesis using assms(1)
    by (simp add: driver_inv_def held_remove_context [OF assms(2)] del: held_list)
qed

lemma kept_destroy_context:
  assumes "kept (en_kernel e) L X Ps d" and "env_ok e" and "context_loop i (g_VirglContextList d) = Some c"
  shows "kept (en_kernel e) L X Ps (snd (CtlDestroyVirglContext e c d))"
proof -
  have i: "vc_Id c = i" using contexts.search_SomeD [OF assms(3)] by simp
  have "kept (en_kernel e) L X (rev (vc_ResourceList c) @ Ps)
      (d\<lparr>g_VirglContextList := del_first (\<lambda>x. vc_Id x = i) (g_VirglContextList d)\<rparr>)"
    by (rule kept_step [OF assms(1)]) (rule inv_remove_context [OF _ assms(3)])
  from kept_calls(2) [OF kept_destroy_loop [OF this assms(2)]] assms(2) show ?thesis
    by (simp add: CtlDestroyVirglContext_def i env_ok_def Let_def kept_def)
qed

subsection \<open>Drawing ids, queries\<close>

definition next_id :: "driver \<Rightarrow> nat" where
  "next_id d = unat (idr_Id (g_Idrs d ! VIRGL_RESOURCE_ID_TYPE))"

lemma ids_draw:
  assumes "ids_ok idrs I" and "unat (idr_Id (idrs ! VIRGL_RESOURCE_ID_TYPE)) < 2 ^ 32"
    and "GetIdFromIdrWithoutCache idrs VIRGL_RESOURCE_ID_TYPE 4 = (i, idrs')"
  shows "ids_ok idrs' (add_mset (ucast i) I)" and "unat (ucast i :: u32) = unat (idr_Id (idrs ! VIRGL_RESOURCE_ID_TYPE))"
    and "(ucast i :: u32) \<notin># I"
proof -
  let ?n = "idr_Id (idrs ! VIRGL_RESOURCE_ID_TYPE)"
  have "copy_low 4 ?n = ?n" using assms(2) by (intro copy_low_idle) simp
  with assms(3) have i: "i = ?n"
    and idrs': "idrs' = idrs[VIRGL_RESOURCE_ID_TYPE := (idrs ! VIRGL_RESOURCE_ID_TYPE)\<lparr>idr_Id := ?n + 1\<rparr>]"
    by (auto simp: GetIdFromIdrWithoutCache_def Let_def)
  show u: "unat (ucast i :: u32) = unat ?n" using assms(2) by (simp add: i unat_ucast_u64_u32)
  have s: "unat (?n + 1) = Suc (unat ?n)" using assms(2) by (intro unat_Suc_u64) simp
  have "count I (ucast i) \<le> of_bool (0 < (ucast i :: u32) \<and> unat (ucast i :: u32) < unat ?n)"
    using assms(1) unfolding ids_ok_def issued_once_def by blast
  then have z: "count I (ucast i) = 0" by (simp add: u)
  then show "(ucast i :: u32) \<notin># I" by (simp add: not_in_iff)
  have p: "0 < unat ?n" using assms(1) by (simp add: ids_ok_def word_less_nat_alt)
  have "issued_once (?n + 1) (add_mset (ucast i) I)"
    unfolding issued_once_def
  proof
    fix j
    have c: "count I j \<le> of_bool (0 < j \<and> unat j < unat ?n)"
      using assms(1) unfolding ids_ok_def issued_once_def by blast
    show "count (add_mset (ucast i) I) j \<le> of_bool (0 < j \<and> unat j < unat (?n + 1))"
    proof (cases "j = ucast i")
      case True
      with z u p show ?thesis by (simp add: s word_less_nat_alt)
    next
      case False
      with c show ?thesis by (auto simp: s of_bool_def split: if_splits)
    qed
  qed
  moreover have "VIRGL_RESOURCE_ID_TYPE < length idrs" using assms(1) by (simp add: ids_ok_def idr_consts)
  ultimately show "ids_ok idrs' (add_mset (ucast i) I)"
    using assms(1,2) s p by (simp add: ids_ok_def idrs' word_less_nat_alt)
qed

lemma queue_ok_draw:
  assumes "queue_ok idrs I dv" and "ids_ok idrs J" and "unat (idr_Id (idrs ! VIRGL_RESOURCE_ID_TYPE)) < 2 ^ 32"
    and "GetIdFromIdrWithoutCache idrs VIRGL_RESOURCE_ID_TYPE 4 = (i, idrs')" and "I' \<subseteq># add_mset (ucast i) I"
  shows "queue_ok idrs' I' dv"
proof -
  let ?n = "idr_Id (idrs ! VIRGL_RESOURCE_ID_TYPE)"
  note u = ids_draw(2) [OF assms(2-4)]
  have "unat (?n + 1) = Suc (unat ?n)" using assms(3) by (intro unat_Suc_u64) simp
  moreover have "VIRGL_RESOURCE_ID_TYPE < length idrs" using assms(2) by (simp add: ids_ok_def idr_consts)
  ultimately have n: "unat (idr_Id (idrs' ! VIRGL_RESOURCE_ID_TYPE)) = Suc (unat ?n)"
    using assms(4) by (auto simp: GetIdFromIdrWithoutCache_def Let_def)
  have "j \<notin># I'" if "unat j < unat ?n" "j \<notin># I" for j :: u32
  proof -
    have "j \<noteq> ucast i" using that(1) u by auto
    with that(2) assms(5) show ?thesis by (auto dest: mset_subset_eqD)
  qed
  with assms(1) show ?thesis by (auto simp: queue_ok_def cmd_ok_def n intro: less_SucI)
qed

lemma inv_new_resource:
  assumes "driver_inv L X Ps d" and "next_id d < 2 ^ 32"
    and "GetIdFromIdrWithoutCache (g_Idrs d) VIRGL_RESOURCE_ID_TYPE 4 = (i, idrs)"
    and "vr_Id r = ucast i" and "res_regions r = {#}" and "res_mdls r = {#}" and "share_ok r"
  shows "driver_inv L X (r # Ps) (d\<lparr>k_resources_out := Suc (k_resources_out d), g_Idrs := idrs\<rparr>)"
proof -
  have "plain_ids r \<subseteq># {#ucast i#}" using assms(4) by (simp add: plain_ids_def)
  then have "held plain_ids Ps d + plain_ids r \<subseteq># add_mset (ucast i) (held plain_ids Ps d)"
    using subset_mset.add_left_mono [of "plain_ids r" "{#ucast i#}" "held plain_ids Ps d"] by simp
  with assms(1) have "queue_ok idrs (held plain_ids Ps d + plain_ids r) (dr_dev d)"
    by (intro queue_ok_draw [OF _ _ assms(2) [unfolded next_id_def] assms(3)]) (auto simp: driver_inv_def)
  with assms ids_draw(1) [OF _ assms(2) [unfolded next_id_def] assms(3), of "held res_ids Ps d"]
  show ?thesis by (simp add: driver_inv_def res_ids_def)
qed

lemma kept_get_caps:
  assumes "kept k L X Ps d" and "pool_ok k" and "GetCaps k i v (dr_dev d) = Some (bytes, dv)"
    and "i < length (cps_Data (g_Capsets (dr_dev d)))"
  shows "kept k L X Ps (d\<lparr>dr_dev := dv\<rparr>)"
proof (rule kept_step [OF assms(1)])
  fix L assume inv: "driver_inv L X Ps d"
  then have "device_acct L (dr_dev d)" "cs_max_size (cps_Data (g_Capsets (dr_dev d)) ! i) \<le> 12264"
    using assms(4) by (auto simp: driver_inv_def caps_inv_def)
  note r = GetCaps_result [OF this(1) assms(2,3) this(2)]
  then have "queue_cmds dv = queue_cmds (dr_dev d)" by (intro queue_cmds_mset) simp
  with r inv show "driver_inv L X Ps (d\<lparr>dr_dev := dv\<rparr>)" by (simp add: driver_inv_def queue_ok_def)
qed

lemma store_all_sizes:
  assumes "\<forall>c \<in> set (cps_Data caps). cs_max_size c \<le> n" and "\<forall>i \<in> set is. rci_capset_max_size (host i) \<le> n"
  shows "\<forall>c \<in> set (cps_Data (store_all host is caps)). cs_max_size c \<le> n"
  using assms
proof (induction "is" arbitrary: caps)
  case (Cons i "is")
  have "\<forall>c \<in> set (cps_Data (store_caps i (host i) caps)). cs_max_size c \<le> n"
    using Cons.prems by (auto simp: store_caps_def dest!: set_update_subset_insert [THEN subsetD])
  with Cons show ?case by simp
qed simp

lemma caps_indices:
  assumes "driver_inv L X Ps d"
  shows "\<forall>i \<in> set (map of_nat [0..<unat (cps_NumCaps (g_Capsets (dr_dev d)))] :: u32 list).
    unat i < length (cps_Data (g_Capsets (dr_dev d)))"
proof
  fix i :: u32 assume "i \<in> set (map of_nat [0..<unat (cps_NumCaps (g_Capsets (dr_dev d)))])"
  then obtain j where j: "i = of_nat j" "j < unat (cps_NumCaps (g_Capsets (dr_dev d)))" by auto
  then have "unat i = j" using less_trans [OF j(2) unat_less_u32] by (simp add: unat_of_nat_u32)
  with j(2) assms show "unat i < length (cps_Data (g_Capsets (dr_dev d)))" by (simp add: driver_inv_def caps_inv_def)
qed

lemma kept_get_caps_info:
  assumes "kept (en_kernel e) L X Ps d" and "env_ok e" and "GetCapsInfo (en_kernel e) (dr_dev d) = Some dv"
  shows "kept (en_kernel e) L X Ps (d\<lparr>dr_dev := dv\<lparr>g_Capsets := (g_Capsets dv)\<lparr>cps_Initialized := True\<rparr>\<rparr>\<rparr>)"
proof (rule kept_step [OF assms(1)])
  fix L assume inv: "driver_inv L X Ps d"
  let ?caps = "g_Capsets (dr_dev d)" and ?k = "en_kernel e"
  let ?is = "map of_nat [0..<unat (cps_NumCaps ?caps)] :: u32 list"
  have "\<forall>i \<in> set ?is. unat i < length (cps_Data ?caps)" by (rule caps_indices [OF inv])
  moreover have "device_acct L (dr_dev d)" "pool_ok ?k"
    using inv assms(2) by (simp_all add: driver_inv_def env_ok_def)
  ultimately have r: "device_acct L dv" "map mset (dv_VirtQueues dv) = map mset (dv_VirtQueues (dr_dev d))"
    "g_Capsets dv = store_all (\<lambda>i. the (kn_capset_info ?k i)) ?is ?caps"
    "\<forall>i \<in> set ?is. kn_capset_info ?k i \<noteq> None"
    using caps_info_loop_result [OF _ _ _ assms(3) [unfolded GetCapsInfo_def]] by blast+
  have "\<forall>i \<in> set ?is. rci_capset_max_size (the (kn_capset_info ?k i)) \<le> 12264"
    using assms(2) r(4) by (fastforce simp: env_ok_def)
  then have "caps_inv (g_Capsets dv)"
    using inv store_all_sizes [of ?caps 12264 ?is "\<lambda>i. the (kn_capset_info ?k i)"]
    by (simp add: r(3) caps_inv_def driver_inv_def store_all_data)
  moreover have "device_acct L (dv\<lparr>g_Capsets := c\<rparr>)" for c using r(1) by (simp add: device_acct_def)
  moreover have "queue_cmds (dv\<lparr>g_Capsets := c\<rparr>) = queue_cmds (dr_dev d)"
    "queue_regions (dv\<lparr>g_Capsets := c\<rparr>) = queue_regions (dr_dev d)" for c
    using queue_cmds_mset [OF r(2)] queue_regions_mset [OF r(2)]
    by (simp_all add: queue_cmds_def queue_regions_def)
  ultimately show "driver_inv L X Ps (d\<lparr>dr_dev := dv\<lparr>g_Capsets := (g_Capsets dv)\<lparr>cps_Initialized := True\<rparr>\<rparr>\<rparr>)"
    using inv by (simp add: driver_inv_def queue_ok_def caps_inv_def)
qed

subsection \<open>Handlers keep the invariant\<close>

text \<open>\<open>reply_all P R\<close>: a handler that returns does so in a state with \<open>P\<close>.\<close>

definition reply_all :: "(driver \<Rightarrow> bool) \<Rightarrow> reply option \<Rightarrow> bool" where
  "reply_all P R \<longleftrightarrow> (case R of None \<Rightarrow> True | Some (status, n, out, d) \<Rightarrow> P d)"

lemma reply_all_simps [simp]:
  "reply_all P None" "reply_all P (Some (status, n, out, d)) = P d"
  by (simp_all add: reply_all_def)

lemma reply_input: "P d \<Longrightarrow> (\<And>status n. reply_all P (body status n)) \<Longrightarrow> reply_all P (with_input r sz d body)"
  by (simp add: with_input_def Let_def)

lemma reply_output: "P d \<Longrightarrow> (\<And>status n. reply_all P (body status n)) \<Longrightarrow> reply_all P (with_output r sz d body)"
  by (simp add: with_output_def Let_def)

lemma reply_caller:
  "P d \<Longrightarrow> (\<And>c. context_loop (rq_pid r) (g_VirglContextList d) = Some c \<Longrightarrow> vc_Id c = rq_pid r \<Longrightarrow> reply_all P (body c)) \<Longrightarrow>
   reply_all P (with_caller r n d body)"
  using contexts.search_SomeD [of "rq_pid r" "g_VirglContextList d"]
  by (simp add: with_caller_def GetVirglContextFromListUnsafe_def split: option.splits)

lemmas reply_frame = reply_input reply_output reply_caller

lemma GetParams_kept:
  assumes "kept (en_kernel e) L X Ps d" and "env_ok e"
  shows "reply_all (kept (en_kernel e) L X Ps) (CtlGetParams e r d)"
proof -
  define R where "R = (if cps_Initialized (g_Capsets (dr_dev d)) then Some d
      else map_option (\<lambda>dv. d\<lparr>dr_dev := dv\<lparr>g_Capsets := (g_Capsets dv)\<lparr>cps_Initialized := True\<rparr>\<rparr>\<rparr>)
             (GetCapsInfo (en_kernel e) (dr_dev d)))"
  show ?thesis
  proof (cases R)
    case None
    then show ?thesis by (simp add: CtlGetParams_def R_def [symmetric])
  next
    case (Some d1)
    have "kept (en_kernel e) L X Ps d1"
      using Some assms kept_get_caps_info [OF assms] by (auto simp: R_def split: if_splits)
    then show ?thesis
      unfolding CtlGetParams_def R_def [symmetric] Some option.case
      by (intro reply_frame) (simp_all add: Let_def)
  qed
qed

lemma find_caps_bound: "find_caps cs i v n = Some m \<Longrightarrow> n \<le> m \<and> m < n + length cs \<and> cs_id (cs ! (m - n)) = i \<and> v \<le> cs_max_version (cs ! (m - n))"
  by (induction cs i v n rule: find_caps.induct) (force simp: nth_Cons' split: if_splits)+

lemma GetCaps_kept:
  assumes "kept (en_kernel e) L X Ps d" and "env_ok e"
  shows "reply_all (kept (en_kernel e) L X Ps) (CtlGetCaps e r d)"
proof -
  have "reply_all (kept (en_kernel e) L X Ps) (case GetCaps (en_kernel e) index v (dr_dev d) of
      None \<Rightarrow> None | Some (bytes, dv) \<Rightarrow> Some (STATUS_SUCCESS, n, bytes, d\<lparr>dr_dev := dv\<rparr>))"
    if "find_caps (take m (cps_Data (g_Capsets (dr_dev d)))) i v 0 = Some index" for index v n i m
    using find_caps_bound [OF that] kept_get_caps [OF assms(1)] assms(2)
    by (auto simp: env_ok_def split: option.splits)
  then show ?thesis
    using assms(1) unfolding CtlGetCaps_def Let_def
    by (intro reply_frame) (auto split: option.splits intro: reply_frame)
qed

lemma inv_add_context:
  assumes "driver_inv L X Ps d" and "context_loop (vc_Id c) (g_VirglContextList d) = None" and "vc_ResourceList c = []"
  shows "driver_inv L X Ps (d\<lparr>g_VirglContextList := c # g_VirglContextList d\<rparr>)"
proof -
  have h: "held g Ps (d\<lparr>g_VirglContextList := c # g_VirglContextList d\<rparr>) = held g Ps d"
    for g :: "virgl_resource \<Rightarrow> 'x multiset"
    using assms(3) by (simp add: held_def owned_total_def)
  have "listed (d\<lparr>g_VirglContextList := c # g_VirglContextList d\<rparr>) = listed d"
    using assms(3) by (simp add: listed_def)
  moreover have "vc_Id c \<notin> vc_Id ` set (g_VirglContextList d)"
    using assms(2) contexts.search_None_iff by auto
  ultimately show ?thesis using assms(1) by (simp add: driver_inv_def h)
qed

lemma InitVirglContext_kept:
  assumes "kept (en_kernel e) L X Ps d" and "env_ok e"
  shows "reply_all (kept (en_kernel e) L X Ps) (CtlInitVirglContext e r n d)"
proof (cases "init_context_check e r n d")
  case (Inl a)
  then show ?thesis using assms(1) by (simp add: CtlInitVirglContext_def case_prod_beta)
next
  case (Inr a)
  obtain status m ci where a: "a = (status, m, ci)" by (cases a)
  let ?c = "\<lparr>vc_Id = rq_pid r, vc_ResourceList = []\<rparr>"
  have "context_loop (rq_pid r) (g_VirglContextList d) = None"
    using Inr by (simp add: init_context_check_def GetVirglContextFromList_def
        GetVirglContextFromListUnsafe_def split: option.splits)
  then have "kept (en_kernel e) L X Ps (d\<lparr>g_VirglContextList := ?c # g_VirglContextList d\<rparr>)"
    by (intro kept_step [OF assms(1)] inv_add_context) simp_all
  from kept_calls(1) [OF this] assms show ?thesis
    by (simp add: CtlInitVirglContext_def Inr a init_context_insert_def env_ok_def Let_def)
qed

text \<open>Creation: \<open>fresh\<close> is the state after the entry is taken and the id drawn.\<close>

definition fresh :: "driver \<Rightarrow> idrandom list \<Rightarrow> driver" where
  "fresh d idrs = d\<lparr>k_resources_out := Suc (k_resources_out d), g_Idrs := idrs\<rparr>"

lemma fresh_simps [simp]:
  "g_VirglContextList (fresh d idrs) = g_VirglContextList d" "g_Memory (fresh d idrs) = g_Memory d"
  "dr_dev (fresh d idrs) = dr_dev d" "k_mem (fresh d idrs) = k_mem d" "g_Idrs (fresh d idrs) = idrs"
  by (simp_all add: fresh_def)

lemma kept_fresh:
  assumes "kept k L X Ps d" and "next_id d < 2 ^ 32"
    and "GetIdFromIdrWithoutCache (g_Idrs d) VIRGL_RESOURCE_ID_TYPE 4 = (i, idrs)"
    and "vr_Id r = ucast i" and "res_regions r = {#}" and "res_mdls r = {#}" and "share_ok r"
  shows "kept k L X (r # Ps) (fresh d idrs)"
  unfolding fresh_def by (rule kept_step [OF assms(1)]) (rule inv_new_resource [OF _ assms(2-7)])

lemma round_up_page: "unat (ucast (ROUND_UP (x :: u32) PAGE_SIZE) :: u64) mod 4096 = 0"
  by (simp add: unat_ucast_u32_u64 ROUND_UP_aligned)

lemma kept_insert:
  assumes "kept k L X (r # Ps) d" and "context_loop i (g_VirglContextList d) = Some c"
  shows "kept k L X Ps (with_context i (insert_resource r) d)"
  by (rule kept_step [OF assms(1)]) (rule inv_insert [OF _ assms(2)])

lemma CreateResource_kept:
  assumes "kept (en_kernel e) L X Ps d" and "env_ok e" and "next_id d < 2 ^ 32"
  shows "reply_all (kept (en_kernel e) L X Ps) (CtlCreateResource e r d)"
  unfolding CtlCreateResource_unfold
proof (intro reply_frame, rule assms(1), rule assms(1), rule assms(1), goal_cases)
  case (1 _ _ status n c)
  let ?k = "en_kernel e" and ?p = "decode_drm_resource_create (rq_in r)"
  have po: "pool_ok ?k" and ro: "rtl_ok (en_rtl e)" using assms(2) by (simp_all add: env_ok_def)
  show ?case
  proof (cases "rq_resource r")
    case None
    then show ?thesis using assms(1) by simp
  next
    case (Some stale)
    obtain i idrs where i: "GetIdFromIdrWithoutCache (g_Idrs d) VIRGL_RESOURCE_ID_TYPE 4 = (i, idrs)"
      by (cases "GetIdFromIdrWithoutCache (g_Idrs d) VIRGL_RESOURCE_ID_TYPE 4")
    define res where "res = stale\<lparr>vr_Id := ucast i, vr_FenceId := 0, vr_StateEvent := True\<rparr>"
    define plain where "plain = res\<lparr>vr_bForBuffer := False, vr_bForBlob := False\<rparr>"
    define d2 where "d2 = on_dev (Create3DResource ?k (vc_Id c) (ucast i) (create_param ?p) 0) (fresh d idrs)"
    have ctx: "context_loop (vc_Id c) (g_VirglContextList d2) = Some c"
      using 1 by (simp add: d2_def)
    have "kept ?k L X (plain # Ps) (fresh d idrs)"
      by (rule kept_fresh [OF assms(1,3) i])
        (simp_all add: plain_def res_def res_regions_def res_mdls_def share_ok_def)
    then have k2: "kept ?k L X (plain # Ps) d2" unfolding d2_def by (rule kept_calls [OF _ po])
    show ?thesis
    proof (cases "drc_size ?p = 1")
      case True
      with kept_insert [OF k2 ctx] Some i show ?thesis
        by (simp add: fresh_def d2_def plain_def res_def Let_def)
    next
      case buffer: False
      define sz where "sz = (if drc_size ?p = 0 then PAGE_SIZE else ucast (ROUND_UP (drc_size ?p) PAGE_SIZE) :: u64)"
      have al: "unat sz mod 4096 = 0" by (simp add: sz_def round_up_page)
      obtain a m where a: "AllocateVgpuMemory (en_rtl e) sz (g_Memory d2) = (a, m)"
        by (cases "AllocateVgpuMemory (en_rtl e) sz (g_Memory d2)")
      show ?thesis
      proof (cases a)
        case None
        have "kept ?k L X Ps (d2\<lparr>g_Memory := m\<rparr>)"
          by (rule kept_step [OF k2]) (rule inv_alloc_failed [OF _ a [unfolded None]], erule inv_drop_resource)
        with a None buffer Some i show ?thesis
          by (simp add: fresh_def d2_def sz_def [symmetric] Let_def)
      next
        case (Some md)
        define new where "new = res\<lparr>vr_bForBuffer := True, vr_bForBlob := False,
          vr_Buffer := (vr_Buffer res)\<lparr>mb_Share := (mb_Share (vr_Buffer res))\<lparr>sh_pMdl := 0\<rparr>, mb_Size := sz,
            mb_Memory := md\<rparr>\<rparr>"
        define d3 where "d3 = d2\<lparr>g_Memory := m, k_mem := zero_bytes (md_VirtualAddress md) sz (k_mem d2)\<rparr>"
        have "kept ?k L (add_mset (md_VirtualAddress md, sz) X) (plain # Ps) (d2\<lparr>g_Memory := m\<rparr>)"
          by (rule kept_step [OF k2]) (rule inv_alloc_region [OF _ ro al a [unfolded Some]])
        then have "kept ?k L X (new # Ps) d3"
          by (rule kept_step)
            (simp add: d3_def, erule inv_pending, simp_all add: plain_def new_def res_ids_def res_mdls_def
              res_regions_def share_ok_def plain_ids_def)
        then have "kept ?k L X (new # Ps) (on_dev (AttachResourceBacking ?k (vc_Id c) new) d3)"
          by (rule kept_calls [OF _ po])
        from kept_insert [OF this, of "vc_Id c" c] ctx a Some buffer \<open>rq_resource r = Some stale\<close> i
        show ?thesis
          by (simp add: fresh_def d2_def sz_def [symmetric] Let_def new_def res_def d3_def)
      qed
    qed
  qed
qed

lemma plain_le_ids: "held plain_ids Ps d \<subseteq># held res_ids Ps d"
proof -
  have p: "plain_ids r \<subseteq># res_ids r" for r by (simp add: plain_ids_def res_ids_def)
  have t: "total plain_ids rs \<subseteq># total res_ids rs" for rs
    by (induction rs) (auto intro: subset_mset.add_mono p)
  have "owned_total plain_ids cs \<subseteq># owned_total res_ids cs" for cs
    unfolding owned_total_def by (induction cs) (auto intro: subset_mset.add_mono t)
  then show ?thesis unfolding held_def by (intro subset_mset.add_mono t)
qed

lemma CreateBlobResource_kept:
  assumes "kept (en_kernel e) L X Ps d" and "env_ok e" and "next_id d < 2 ^ 32"
  shows "reply_all (kept (en_kernel e) L X Ps) (CtlCreateBlobResource e r d)"
  unfolding CtlCreateBlobResource_unfold
proof (intro reply_frame, rule assms(1), rule assms(1), rule assms(1), goal_cases)
  case (1 _ _ status n c)
  let ?k = "en_kernel e" and ?p = "decode_drm_resource_create_blob (rq_in r)"
  have po: "pool_ok ?k" using assms(2) by (simp add: env_ok_def)
  show ?case
  proof (cases "rq_resource r")
    case None
    then show ?thesis using assms(1) by simp
  next
    case (Some stale)
    obtain i idrs where i: "GetIdFromIdrWithoutCache (g_Idrs d) VIRGL_RESOURCE_ID_TYPE 4 = (i, idrs)"
      by (cases "GetIdFromIdrWithoutCache (g_Idrs d) VIRGL_RESOURCE_ID_TYPE 4")
    define res where "res = stale\<lparr>vr_bForBlob := True, vr_bForBuffer := True,
      vr_Buffer := (vr_Buffer stale)\<lparr>mb_Share := (mb_Share (vr_Buffer stale))\<lparr>sh_pMdl := 0\<rparr>\<rparr>,
      vr_FenceId := 0, vr_Id := ucast i, vr_StateEvent := False\<rparr>"
    define d2 where "d2 = on_dev (CreateBlobResource ?k (vc_Id c) (ucast i) (blob_param ?p) 0) (fresh d idrs)"
    define d3 where "d3 = with_context (vc_Id c) (insert_resource res) d2"
    have ctx: "context_loop (vc_Id c) (g_VirglContextList d2) = Some c"
      using 1 by (simp add: d2_def)
    have "kept ?k L X (res # Ps) (fresh d idrs)"
      by (rule kept_fresh [OF assms(1,3) i])
        (simp_all add: res_def res_regions_def res_mdls_def share_ok_def)
    then have "kept ?k L X (res # Ps) d2" unfolding d2_def by (rule kept_calls [OF _ po])
    from kept_insert [OF this ctx] have k3: "kept ?k L X Ps d3" by (simp add: d3_def)
    have i3: "g_Idrs d3 = idrs" by (simp add: d3_def d2_def)
    obtain L' where "driver_inv L' X Ps d" using assms(1) by (auto simp: kept_def)
    then have q: "ids_ok (g_Idrs d) (held res_ids Ps d)" "queue_ok (g_Idrs d) (held plain_ids Ps d) (dr_dev d)"
      by (simp_all add: driver_inv_def)
    have n: "unat (ucast i :: u32) < unat (idr_Id (idrs ! VIRGL_RESOURCE_ID_TYPE))"
      using ids_draw(1) [OF q(1) assms(3) [unfolded next_id_def] i]
      by (auto simp: ids_ok_def issued_once_def of_bool_def split: if_splits dest!: spec [of _ "ucast i"])
    have "held plain_ids Ps d3 = held plain_ids Ps d"
      using owned_insert [OF ctx, of plain_ids res]
      by (simp add: d3_def d2_def held_def with_context_def fresh_def plain_ids_def res_def)
    moreover have "(ucast i :: u32) \<notin># held plain_ids Ps d"
      using plain_le_ids ids_draw(3) [OF q(1) assms(3) [unfolded next_id_def] i] by (auto dest: mset_subset_eqD)
    ultimately have "kept ?k L X Ps (on_dev (MapBlobResource ?k (vc_Id c) (ucast i) 0) d3)"
      using n i3 by (intro kept_map_call [OF k3 po]) simp
    with Some i show ?thesis
      by (simp add: fresh_def d2_def Let_def res_def d3_def)
  qed
qed

lemma CloseResource_kept:
  assumes "kept (en_kernel e) L X Ps d" and "env_ok e"
  shows "reply_all (kept (en_kernel e) L X Ps) (CtlCloseResource e r d)"
  unfolding CtlCloseResource_unfold
proof (intro reply_frame, rule assms(1), rule assms(1), goal_cases)
  case (1 status n c)
  let ?h = "dcl_handle (decode_drm_gem_close (rq_in r))"
  show ?case
  proof (cases "resource_loop ?h (vc_ResourceList c)")
    case None
    then show ?thesis using assms(1) by (simp add: GetResourceFromList_def GetResourceFromListUnsafe_def)
  next
    case (Some res)
    have "kept (en_kernel e) L X (res # Ps) (with_context (vc_Id c) (remove_resource ?h) d)"
      by (rule kept_step [OF assms(1)]) (rule inv_remove [OF _ _ Some], use 1 in simp_all)
    from kept_delete [OF this assms(2), of "vc_Id c"] Some resources.search_SomeD [OF Some]
    show ?thesis
      by (simp add: GetResourceFromList_def GetResourceFromListUnsafe_def remove_resource_def [abs_def] Let_def)
  qed
qed

lemma Wait_kept: "kept k L X Ps d \<Longrightarrow> reply_all (kept k L X Ps) (CtlWait e r d)"
  unfolding CtlWait_unfold
  by (intro reply_frame) (simp_all add: Let_def split: option.splits)

lemma CreateUserShareMemory_result:
  assumes "CreateUserShareMemory r sh d = (ok, sh', d')"
  shows "if ok then sh_UserAdderss sh' \<noteq> 0 \<and> sh_pMdl sh' = rq_mdl r \<and> rq_mdl r \<noteq> 0
         \<and> d' = d\<lparr>k_mdls := [rq_mdl r] @ k_mdls d, k_umaps := (sh_UserAdderss sh', rq_mdl r) # k_umaps d\<rparr>
         else d' = d"
  using assms by (auto simp: CreateUserShareMemory_def IoFreeMdl_def Let_def split: if_splits option.splits)

lemma with_context_umaps [simp]:
  "with_context i f (d\<lparr>k_mdls := ms, k_umaps := us\<rparr>) = (with_context i f (d\<lparr>k_mdls := ms\<rparr>))\<lparr>k_umaps := us\<rparr>"
  by (simp add: with_context_def)

lemma share_simps:
  "res_regions (set_share sh r) = res_regions r" "res_ids (set_share sh r) = res_ids r"
  "plain_ids (set_share sh r) = plain_ids r"
  "res_mdls (set_share sh r) = (if vr_bForBuffer r \<and> sh_pMdl sh \<noteq> 0 then {#sh_pMdl sh#} else {#})"
  "share_ok (set_share sh r) \<longleftrightarrow> (vr_bForBuffer r \<longrightarrow> sh_pMdl sh \<noteq> 0 \<longrightarrow> sh_UserAdderss sh \<noteq> 0)"
  by (simp_all add: set_share_def res_regions_def res_ids_def plain_ids_def res_mdls_def share_ok_def)

lemma res_mdls_none: "sh_pMdl (mb_Share (vr_Buffer r)) = 0 \<Longrightarrow> res_mdls r = {#}"
  by (simp add: res_mdls_def)

lemma Map_kept:
  assumes "kept k L X Ps d"
  shows "reply_all (kept k L X Ps) (CtlMap e r d)"
  unfolding CtlMap_unfold
proof (intro reply_frame, rule assms(1), rule assms(1), rule assms(1), goal_cases)
  case (1 _ _ status n c)
  let ?h = "dmp_handle (decode_drm_map (rq_in r))"
  note lookup = GetResourceFromList_def GetResourceFromListUnsafe_def
  show ?case
  proof (cases "resource_loop ?h (vc_ResourceList c)")
    case None
    then show ?thesis using assms(1) by (simp add: lookup)
  next
    case (Some res)
    let ?sh = "(mb_Share (vr_Buffer res))\<lparr>sh_KernelAddress := md_VirtualAddress (mb_Memory (vr_Buffer res)),
                                sh_Size := mb_Size (vr_Buffer res)\<rparr>"
    obtain ok sh' d' where s: "CreateUserShareMemory r ?sh d = (ok, sh', d')"
      by (cases "CreateUserShareMemory r ?sh d")
    have h: "vr_Id res = ?h" using resources.search_SomeD [OF Some] by simp
    have k: "kept k L X Ps (with_context (vc_Id c) (with_resource ?h (set_share (if ok then sh' else sh'\<lparr>sh_pMdl := 0\<rparr>))) d')"
      if b: "vr_bForBuffer res" "sh_pMdl (mb_Share (vr_Buffer res)) = 0"
    proof (rule kept_step [OF assms])
      fix L assume "driver_inv L X Ps d"
      then show "driver_inv L X Ps (with_context (vc_Id c) (with_resource ?h (set_share (if ok then sh' else sh'\<lparr>sh_pMdl := 0\<rparr>))) d')"
        using inv_change [OF _ _ Some, of L X Ps d "vc_Id c" "set_share sh'" "[rq_mdl r]"]
          inv_change [OF _ _ Some, of L X Ps d "vc_Id c" "set_share (sh'\<lparr>sh_pMdl := 0\<rparr>)" "[]"]
          1 b CreateUserShareMemory_result [OF s] res_mdls_none [OF b(2)]
        by (cases ok) (simp_all add: share_simps)
    qed
    show ?thesis
      using assms k Some s h
      by (auto simp: lookup Let_def KeWait_def split: if_splits)
  qed
qed

lemma TransferHost_kept:
  assumes "kept (en_kernel e) L X Ps d" and "env_ok e"
  shows "reply_all (kept (en_kernel e) L X Ps) (CtlTransferHost e ToHost r d)"
  unfolding CtlTransferHost_unfold
proof (intro reply_frame, rule assms(1), rule assms(1), goal_cases)
  case (1 status n c)
  have "kept (en_kernel e) L X Ps (with_context (vc_Id c) (UpdateResourceState [i] True 0) d)" for i
    by (rule kept_step [OF assms(1)]) (rule inv_busy)
  from kept_calls(3) [OF this] assms show ?case
    by (simp add: env_ok_def Let_def del: UpdateResourceState.simps split: option.split)
qed

subsection \<open>A submission keeps the invariant\<close>

lemma kept_scratch:
  "kept k L X Ps d \<Longrightarrow> kept k L X Ps (d\<lparr>k_objects := os\<rparr>)"
  "kept k L X Ps d \<Longrightarrow> kept k L X Ps (d\<lparr>k_mem := m\<rparr>)"
  by (simp_all add: kept_def)

lemma in_fence_kept:
  assumes "kept k L X Ps d"
  shows "case submit_in_fence r cmd d of Inl None \<Rightarrow> True | Inl (Some (status, d')) \<Rightarrow> kept k L X Ps d'
    | Inr d' \<Rightarrow> kept k L X Ps d' \<and> g_VirglContextList d' = g_VirglContextList d"
  using assms by (auto simp: submit_in_fence_def KeWait_def kept_scratch split: prod.splits)

lemma out_fence_kept:
  assumes "kept k L X Ps d"
  shows "case submit_out_fence r cmd d of Inl (status, d') \<Rightarrow> kept k L X Ps d'
    | Inr (f, d') \<Rightarrow> kept k L X Ps d' \<and> g_VirglContextList d' = g_VirglContextList d"
  using assms by (auto simp: submit_out_fence_def kept_scratch split: prod.splits)

lemma handles_kept:
  assumes "kept k L X Ps d"
  shows "case submit_handles r cmd i f d of Inl (status, d') \<Rightarrow> kept k L X Ps d' | Inr (hs, d') \<Rightarrow> kept k L X Ps d'"
proof -
  have "kept k L X Ps (with_context i (UpdateResourceState hs True f) d)" for hs
    by (rule kept_step [OF assms]) (rule inv_busy)
  with assms show ?thesis
    by (auto simp: submit_handles_def Let_def split: prod.splits option.splits)
qed

lemma copy_kept: "kept k L X Ps d \<Longrightarrow> kept k L X Ps (copy_command va n sz bs d)"
  by (rule kept_step, assumption) (simp add: copy_command_def inv_fault Let_def)

lemma fence_id_kept:
  assumes "kept k L X Ps d" and "(f, idrs) = (if b then GetIdFromIdrWithoutCache (g_Idrs d) FENCE_ID_TYPE 8 else (0, g_Idrs d))"
  shows "kept k L X Ps (d\<lparr>g_Idrs := idrs\<rparr>)"
proof (rule kept_step [OF assms(1)])
  fix L assume inv: "driver_inv L X Ps d"
  have "idrs = (if b then snd (GetIdFromIdrWithoutCache (g_Idrs d) FENCE_ID_TYPE 8) else g_Idrs d)"
    using arg_cong [OF assms(2), of snd] by (simp split: if_splits)
  then have "idrs ! VIRGL_RESOURCE_ID_TYPE = g_Idrs d ! VIRGL_RESOURCE_ID_TYPE" "length idrs = length (g_Idrs d)"
    by (simp_all add: idr_frame(1) idr_consts)
  then show "driver_inv L X Ps (d\<lparr>g_Idrs := idrs\<rparr>)"
    using inv by (simp add: driver_inv_def ids_ok_def queue_ok_def cmd_ok_def)
qed

lemma SubmitCommand_queue_ok:
  assumes "SubmitCommand k ctx m bufsz sz hs n f obj dv = (status, dv')" and "queue_ok idrs I dv"
  shows "queue_ok idrs I dv'"
proof -
  from SubmitCommand_push [OF assms(1)] obtain b sg where
    p: "PushQueue k COMMAND_QUEUE sg 2 0 b (snd (AllocateCommandBuffer k 32 0 False 0 dv)) = (status, dv')" and
    b: "bf_cmd b = Cmd_cmd_submit (zero_cmd_submit\<lparr>sb_hdr := set_fence f (hdr_for VIRTIO_GPU_CMD_SUBMIT_3D ctx), sb_size := ucast sz\<rparr>)"
    by blast
  have "queue_cmds (snd (AllocateCommandBuffer k 32 0 False 0 dv)) = queue_cmds dv"
    by (rule queue_cmds_cong) (simp add: alloc_device)
  then have "queue_cmds dv' \<subseteq> insert (bf_cmd b) (queue_cmds dv)"
    using push_cmds [of k COMMAND_QUEUE sg 2 0 b "snd (AllocateCommandBuffer k 32 0 False 0 dv)"] p by simp
  moreover have "cmd_ok idrs I (bf_cmd b)"
    by (simp add: b cmd_ok_def is_query_def map_ids_def del: ctrl_type_code.simps)
  ultimately show ?thesis using assms(2) by (auto simp: queue_ok_def)
qed

lemma submit_region_kept:
  assumes "kept k L (add_mset (md_VirtualAddress m, bufsz) X) Ps d" and "pool_ok k"
    and "SubmitCommand k ctx m bufsz sz hs n f obj (dr_dev d) = (status, dv)"
  shows "kept k L (if NT_SUCCESS status then X else add_mset (md_VirtualAddress m, bufsz) X) Ps (d\<lparr>dr_dev := dv\<rparr>)"
proof (rule kept_chain [OF assms(1)])
  fix L assume inv: "driver_inv L (add_mset (md_VirtualAddress m, bufsz) X) Ps d"
  then have a: "device_acct L (dr_dev d)" by (simp add: driver_inv_def)
  note r = SubmitCommand_result [OF a assms(2,3)]
  obtain L' where L': "L \<subseteq># L'" "NT_SUCCESS status \<longrightarrow> L' = L" "device_acct L' dv" using r(1) by blast
  have "queue_ok (g_Idrs d) (held plain_ids Ps d) dv"
    using SubmitCommand_queue_ok [OF assms(3)] inv by (simp add: driver_inv_def)
  then have "driver_inv L' (if NT_SUCCESS status then X else add_mset (md_VirtualAddress m, bufsz) X) Ps (d\<lparr>dr_dev := dv\<rparr>)"
    using inv L'(3) by (simp add: driver_inv_def r(2,3))
  with L' r(4) show "kept k L (if NT_SUCCESS status then X else add_mset (md_VirtualAddress m, bufsz) X) Ps (d\<lparr>dr_dev := dv\<rparr>)"
    by (auto simp: kept_def)
qed

lemma kept_drop_region: "kept k L (add_mset x X) Ps d \<Longrightarrow> kept k L X Ps d"
  by (rule kept_step, assumption) (rule inv_drop_region)

lemma submit_kept:
  assumes "kept k L (add_mset (md_VirtualAddress m, bufsz) X) Ps d" and "pool_ok k"
    and "SubmitCommand k ctx m bufsz sz hs n f obj (dr_dev d) = (status, dv)"
  shows "kept k L X Ps (d\<lparr>dr_dev := dv\<rparr>)"
  using submit_region_kept [OF assms] by (auto split: if_splits dest: kept_drop_region)

text \<open>The tail of \<open>CtlSubmitCommand\<close>, after the fences and the probe.\<close>

lemma SubmitCommand_kept:
  assumes "kept (en_kernel e) L X Ps d" and "env_ok e"
  shows "reply_all (kept (en_kernel e) L X Ps) (CtlSubmitCommand e r d)"
  unfolding CtlSubmitCommand_unfold
proof (intro reply_frame, rule assms(1), rule assms(1), goal_cases)
  case (1 _ bytes c)
  let ?k = "en_kernel e" and ?cmd = "decode_drm_execbuffer (rq_in r)"
  let ?done = "\<lambda>status d. Some (status, bytes, rq_out r, d)"
  let ?n = "ucast (ROUND_UP (deb_size ?cmd) PAGE_SIZE) :: u64"
  have po: "pool_ok ?k" and ro: "rtl_ok (en_rtl e)" using assms(2) by (simp_all add: env_ok_def)
  have submit: "reply_all (kept ?k L X Ps)
      (let (status, dv) = SubmitCommand ?k (vc_Id c) m ?n z hs nh f obj (dr_dev d) in ?done status (d\<lparr>dr_dev := dv\<rparr>))"
    if "kept ?k L (add_mset (md_VirtualAddress m, ?n) X) Ps d" for m hs f obj d z nh
    using submit_kept [OF that po] by (simp split: prod.split)
  have tail: "reply_all (kept ?k L X Ps)
     (case AllocateVgpuMemory (en_rtl e) ?n (g_Memory d) of
        (None, m) \<Rightarrow> ?done STATUS_UNSUCCESSFUL (d\<lparr>g_Memory := m\<rparr>)
      | (Some md, m) \<Rightarrow>
          (let d = d\<lparr>g_Memory := m\<rparr>;
               d = copy_command (md_VirtualAddress md) ?n (deb_size ?cmd) bs d;
               (f, idrs) = (if obj \<noteq> 0 then GetIdFromIdrWithoutCache (g_Idrs d) FENCE_ID_TYPE 8 else (0, g_Idrs d));
               d = d\<lparr>g_Idrs := idrs\<rparr>
           in case submit_handles r ?cmd (vc_Id c) f d of
                Inl (status, d) \<Rightarrow> ?done status d
              | Inr (hs, d) \<Rightarrow>
                  let (status, dv) = SubmitCommand ?k (vc_Id c) md ?n (ucast (deb_size ?cmd)) hs
                     (ucast (deb_num_bo_handles ?cmd)) f obj (dr_dev d)
                  in ?done status (d\<lparr>dr_dev := dv\<rparr>)))"
    if k: "kept ?k L X Ps d" for obj d bs
  proof (cases "AllocateVgpuMemory (en_rtl e) ?n (g_Memory d)")
    case (Pair a m)
    show ?thesis
    proof (cases a)
      case None
      have "kept ?k L X Ps (d\<lparr>g_Memory := m\<rparr>)"
        by (rule kept_step [OF k]) (rule inv_alloc_failed [OF _ Pair [unfolded None]])
      with Pair None show ?thesis by simp
    next
      case (Some md)
      let ?X = "add_mset (md_VirtualAddress md, ?n) X"
      let ?d2 = "copy_command (md_VirtualAddress md) ?n (deb_size ?cmd) bs (d\<lparr>g_Memory := m\<rparr>)"
      obtain f idrs where f: "(f, idrs) = (if obj \<noteq> 0 then GetIdFromIdrWithoutCache (g_Idrs ?d2) FENCE_ID_TYPE 8
          else (0, g_Idrs ?d2))" by (metis surj_pair)
      have "kept ?k L ?X Ps (d\<lparr>g_Memory := m\<rparr>)"
        by (rule kept_step [OF k]) (rule inv_alloc_region [OF _ ro round_up_page Pair [unfolded Some]])
      then have "kept ?k L ?X Ps (?d2\<lparr>g_Idrs := idrs\<rparr>)"
        by (intro fence_id_kept [OF _ f] copy_kept)
      note h = handles_kept [OF this, of r ?cmd "vc_Id c" f]
      show ?thesis
      proof (cases "submit_handles r ?cmd (vc_Id c) f (?d2\<lparr>g_Idrs := idrs\<rparr>)")
        case (Inl x)
        with h kept_drop_region show ?thesis
          by (cases x) (auto simp: Pair Some f [symmetric] Let_def)
      next
        case (Inr x)
        with h submit show ?thesis
          by (cases x) (auto simp: Pair Some f [symmetric] Let_def)
      qed
    qed
  qed
  show ?case
  proof (cases "submit_in_fence r ?cmd d")
    case (Inl x)
    with in_fence_kept [OF assms(1), of r ?cmd] show ?thesis
      by (cases x) (auto simp: Let_def)
  next
    case (Inr d1)
    with in_fence_kept [OF assms(1), of r ?cmd] have k1: "kept ?k L X Ps d1" by simp
    show ?thesis
    proof (cases "submit_out_fence r ?cmd d1")
      case (Inl x)
      with out_fence_kept [OF k1, of r ?cmd] show ?thesis by (cases x) (auto simp: Inr Let_def)
    next
      case i: (Inr x)
      obtain obj d2 where x: "x = (obj, d2)" by (cases x)
      with out_fence_kept [OF k1, of r ?cmd] i have k2: "kept ?k L X Ps d2" by simp
      obtain status mem where p: "rq_probe r (deb_command ?cmd) (ucast (deb_size ?cmd)) = (status, mem)"
        by (cases "rq_probe r (deb_command ?cmd) (ucast (deb_size ?cmd))")
      show ?thesis
        using k2 tail [OF k2] by (cases mem) (simp_all add: Inr i x p Let_def)
    qed
  qed
qed

end
