(* ===== verification/Vgpu_Driver.thy ===== *)
theory Vgpu_Driver
  imports Vgpu_Handlers
begin

text \<open>
  The callbacks of \<open>vgpu.c\<close> that run once the device works: interrupts and the completion of
  the buffers the host has used, the dispatch of the control codes, the notification of a
  process's end, and the stop of a request.

  \<open>virtqueue_get_buf\<close> belongs to the virtio library: what it returns until it returns NULL is an
  argument, the list of the buffers with the response the host wrote into each.  The event
  inside a buffer is named by the buffer's \<open>pBuf\<close>.  The copy of a submission's handles is not
  tracked as an allocation of its own.
\<close>

unbundle bit_operations_syntax

subsection \<open>Completions\<close>

definition KeSetEvent :: "u64 \<Rightarrow> driver \<Rightarrow> driver" where
  "KeSetEvent object d = d\<lparr>k_signals := k_signals d @ [object]\<rparr>"

text \<open>The body of the loop after \<open>virtqueue_get_buf\<close>.  The cases read the command as the
  structure its type says, \<open>cmd_resource\<close> being \<open>resource_id\<close> of that structure.\<close>

definition complete_buffer :: "env \<Rightarrow> vgpu_buffer \<Rightarrow> virtio_gpu_resp_map_info \<Rightarrow> driver \<Rightarrow> driver" where
  "complete_buffer e b resp d =
     (let header = cmd_hdr (bf_cmd b);
          virglContext = GetVirglContextFromListUnsafe (hdr_ctx_id header) d;
          free = on_dev (FreeCommandBuffer b)
      in case ctrl_type_of (hdr_type header) of
           Some VIRTIO_GPU_CMD_GET_CAPSET \<Rightarrow> KeSetEvent (bf_pBuf b) d
         | Some VIRTIO_GPU_CMD_GET_CAPSET_INFO \<Rightarrow> KeSetEvent (bf_pBuf b) d
         | Some VIRTIO_GPU_CMD_SUBMIT_3D \<Rightarrow>
             let d = (case bf_ResourceIds b of
                        None \<Rightarrow> d
                      | Some ids \<Rightarrow>
                          (case virglContext of
                             None \<Rightarrow> d
                           | Some c \<Rightarrow> with_context (vc_Id c)
                               (UpdateResourceState (take (unat (bf_ResourceIdsCount b)) ids) False
                                  (hdr_fence_id header)) d));
                 d = (if bf_FenceObject b \<noteq> 0 then KeSetEvent (bf_FenceObject b) d else d)
             in free (d\<lparr>g_Memory := FreeVgpuMemory (en_rtl e) (bf_pDataBuf b) (bf_DataBufSize b) (g_Memory d)\<rparr>)
         | Some VIRTIO_GPU_CMD_RESOURCE_MAP_BLOB \<Rightarrow>
             free (case (virglContext, cmd_resource (bf_cmd b)) of
                     (Some c, Some i) \<Rightarrow> MapBlobResourceCallback e c i (rmi_gpa resp) (rmi_size resp) d
                   | _ \<Rightarrow> d)
         | Some t \<Rightarrow>
             if t = VIRTIO_GPU_CMD_TRANSFER_TO_HOST_3D \<or> t = VIRTIO_GPU_CMD_TRANSFER_FROM_HOST_3D then
               free (case (virglContext, cmd_resource (bf_cmd b)) of
                       (Some c, Some i) \<Rightarrow> with_context (vc_Id c) (UpdateResourceState [i] False (hdr_fence_id header)) d
                     | _ \<Rightarrow> d)
             else free d
         | None \<Rightarrow> free d)"

fun VirtioVgpuReadFromQueue :: "env \<Rightarrow> nat \<Rightarrow> (vgpu_buffer \<times> virtio_gpu_resp_map_info) list \<Rightarrow> driver \<Rightarrow> driver" where
  "VirtioVgpuReadFromQueue e q [] d = d"
| "VirtioVgpuReadFromQueue e q ((b, resp) # used) d =
     VirtioVgpuReadFromQueue e q used (complete_buffer e b resp (on_dev (completed q b) d))"

subsection \<open>Interrupts\<close>

record interrupt_info =
  ii_MessageSignaled :: bool
  ii_MessageNumber :: u32

type_synonym used_buffers = "nat \<Rightarrow> (vgpu_buffer \<times> virtio_gpu_resp_map_info) list"

definition NumVirtQueues :: "driver \<Rightarrow> nat" where
  "NumVirtQueues d = length (dv_VirtQueues (dr_dev d))"

definition VirtioVgpuInterruptDpc :: "env \<Rightarrow> interrupt_info \<Rightarrow> used_buffers \<Rightarrow> driver \<Rightarrow> driver" where
  "VirtioVgpuInterruptDpc e info used d =
     (if ii_MessageSignaled info \<and> unat (ii_MessageNumber info) < NumVirtQueues d
      then VirtioVgpuReadFromQueue e (unat (ii_MessageNumber info)) (used (unat (ii_MessageNumber info))) d
      else fold (\<lambda>i. VirtioVgpuReadFromQueue e i (used i)) [0..<NumVirtQueues d] d)"

text \<open>The result is whether the interrupt was serviced; then and only then the DPC is queued.\<close>

definition VirtioVgpuInterruptIsr :: "interrupt_info \<Rightarrow> u8 \<Rightarrow> bool" where
  "VirtioVgpuInterruptIsr info isr_status = (ii_MessageSignaled info \<or> isr_status \<noteq> 0)"

definition queue_log :: "queue_event list \<Rightarrow> driver \<Rightarrow> driver" where
  "queue_log es = on_dev (\<lambda>dv. dv\<lparr>dv_log := dv_log dv @ es\<rparr>)"

definition VirtioVgpuInterruptEnable :: "interrupt_info \<Rightarrow> driver \<Rightarrow> NTSTATUS \<times> driver" where
  "VirtioVgpuInterruptEnable info d =
     (STATUS_SUCCESS,
      if ii_MessageSignaled info then
        if unat (ii_MessageNumber info) < NumVirtQueues d
        then queue_log [QEnableCb (unat (ii_MessageNumber info)), QKick (unat (ii_MessageNumber info))] d
        else d
      else fold (\<lambda>i. queue_log [QEnableCb i, QKick i]) [0..<NumVirtQueues d] d)"

definition VirtioVgpuInterruptDisable :: "interrupt_info \<Rightarrow> driver \<Rightarrow> NTSTATUS \<times> driver" where
  "VirtioVgpuInterruptDisable info d =
     (STATUS_SUCCESS,
      if ii_MessageSignaled info then
        if unat (ii_MessageNumber info) < NumVirtQueues d
        then queue_log [QDisableCb (unat (ii_MessageNumber info))] d
        else d
      else fold (\<lambda>i. queue_log [QDisableCb i]) [0..<NumVirtQueues d] d)"

subsection \<open>Requests\<close>

definition dispatch :: "env \<Rightarrow> u32 \<Rightarrow> request \<Rightarrow> driver \<Rightarrow> reply option" where
  "dispatch e IoControlCode r d =
     (if IoControlCode = IOCTL_VIRTIO_VGPU_CONTEXT_INIT then CtlInitVirglContext e r 0 d
      else if IoControlCode = IOCTL_VIRTIO_VGPU_DESTROY_CONTEXT then
        (case GetVirglContextFromList (rq_pid r) d of
           None \<Rightarrow> Some (STATUS_UNSUCCESSFUL, 0, rq_out r, d)
         | Some c \<Rightarrow> let (status, d') = CtlDestroyVirglContext e c d in Some (status, 0, rq_out r, d'))
      else if IoControlCode = IOCTL_VIRTIO_VGPU_GETPARAM then CtlGetParams e r d
      else if IoControlCode = IOCTL_VIRTIO_VGPU_GET_CAPS then CtlGetCaps e r d
      else if IoControlCode = IOCTL_VIRTIO_VGPU_RESOURCE_CREATE then CtlCreateResource e r d
      else if IoControlCode = IOCTL_VIRTIO_VGPU_RESOURCE_CLOSE then CtlCloseResource e r d
      else if IoControlCode = IOCTL_VIRTIO_VGPU_WAIT then CtlWait e r d
      else if IoControlCode = IOCTL_VIRTIO_VGPU_MAP then CtlMap e r d
      else if IoControlCode = IOCTL_VIRTIO_VGPU_EXECBUFFER then CtlSubmitCommand e r d
      else if IoControlCode = IOCTL_VIRTIO_VGPU_TRANSFER_FROM_HOST then CtlTransferHost e False r d
      else if IoControlCode = IOCTL_VIRTIO_VGPU_TRANSFER_TO_HOST then CtlTransferHost e True r d
      else if IoControlCode = IOCTL_VIRTIO_VGPU_BLOB_RESOURCE_CREATE then CtlCreateBlobResource e r d
      else Some (STATUS_NOT_SUPPORTED, 0, rq_out r, d))"

text \<open>The completions of the request with their status and byte count, and the new state.\<close>

definition VirtioVgpuIoControl ::
  "env \<Rightarrow> u32 \<Rightarrow> request \<Rightarrow> driver \<Rightarrow> ((NTSTATUS \<times> u64) list \<times> u8 list \<times> driver) option" where
  "VirtioVgpuIoControl e IoControlCode r d =
     (case dispatch e IoControlCode r d of
        None \<Rightarrow> None
      | Some (status, bytesReturn, out, d') \<Rightarrow>
          Some (if status \<noteq> STATUS_PENDING then [(status, bytesReturn)] else [], out, d'))"

definition ProcessNotify :: "env \<Rightarrow> u32 \<Rightarrow> bool \<Rightarrow> driver \<Rightarrow> driver" where
  "ProcessNotify e ProcessId Create d =
     (if \<not> Create then
        (case GetVirglContextFromList ProcessId d of
           None \<Rightarrow> d
         | Some c \<Rightarrow> snd (CtlDestroyVirglContext e c d))
      else d)"

text \<open>The action flags as the framework documents them; \<open>unmark\<close> is what
  \<open>WdfRequestUnmarkCancelable\<close> returns.  The result is the completions made.\<close>

definition WdfRequestStopActionSuspend :: u32 where "WdfRequestStopActionSuspend = 1"
definition WdfRequestStopActionPurge :: u32 where "WdfRequestStopActionPurge = 2"
definition WdfRequestStopRequestCancelable :: u32 where "WdfRequestStopRequestCancelable = 0x10000000"

definition VirtioVgpuIoStop :: "u32 \<Rightarrow> NTSTATUS \<Rightarrow> (NTSTATUS \<times> u64) list" where
  "VirtioVgpuIoStop ActionFlags unmark =
     (let bCancellable = ActionFlags AND WdfRequestStopRequestCancelable \<noteq> 0
      in if ActionFlags AND WdfRequestStopActionSuspend \<noteq> 0 then
           if \<not> bCancellable \<or> unmark \<noteq> STATUS_CANCELLED then [(STATUS_CANCELLED, 0)] else []
         else if ActionFlags AND WdfRequestStopActionPurge \<noteq> 0 then
           if \<not> bCancellable \<or> unmark \<noteq> STATUS_CANCELLED then [(STATUS_CANCELLED, 0)] else []
         else [])"

subsection \<open>Completions keep the invariant\<close>

lemma NumVirtQueues_simps [simp]:
  "NumVirtQueues (with_context i f d) = NumVirtQueues d" "NumVirtQueues (KeSetEvent x d) = NumVirtQueues d"
  by (simp_all add: NumVirtQueues_def with_context_def KeSetEvent_def)

lemma inv_event: "driver_inv L X Ps (KeSetEvent x d) = driver_inv L X Ps d"
  by (simp add: KeSetEvent_def)

text \<open>The buffer leaves the queue with the memory it holds.\<close>

lemma completed_regions:
  assumes "q < length (dv_VirtQueues dv)" and "b \<in> set (dv_VirtQueues dv ! q)"
  shows "queue_regions dv = buf_regions b + queue_regions (completed q b dv)"
proof -
  have "mset (concat (dv_VirtQueues dv)) = add_mset b (mset (concat (dv_VirtQueues (completed q b dv))))"
    using mset_concat_remove [OF assms] by (simp add: completed_def)
  then show ?thesis by (simp only: queue_regions_def) simp
qed

lemma inv_get_buf:
  assumes inv: "driver_inv L X Ps d" and q: "q < NumVirtQueues d" and b: "b \<in> set (dv_VirtQueues (dr_dev d) ! q)"
  shows "driver_inv (add_mset (bf_pBuf b) L) (buf_regions b + X) Ps (on_dev (completed q b) d)"
    and "bf_pBuf b \<noteq> 0" and "cmd_wf (bf_cmd b)" and "cmd_ok (g_Idrs d) (held plain_ids Ps d) (bf_cmd b)"
proof -
  let ?dv = "dr_dev d" and ?dv' = "completed q b (dr_dev d)"
  have a: "device_acct L ?dv" and q': "q < length (dv_VirtQueues ?dv)"
    using inv q by (simp_all add: driver_inv_def NumVirtQueues_def)
  note dq = acct_dequeue [OF a q' b]
  have e: "mset (concat (dv_VirtQueues ?dv)) = add_mset b (mset (concat (dv_VirtQueues ?dv')))"
    using mset_concat_remove [OF q' b] by (simp add: completed_def)
  have r: "queue_regions ?dv = buf_regions b + queue_regions ?dv'" by (rule completed_regions [OF q' b])
  have s: "set (concat (dv_VirtQueues ?dv)) = insert b (set (concat (dv_VirtQueues ?dv')))"
    using arg_cong [OF e, of set_mset] by (simp only: set_mset_mset set_mset_add_mset_insert)
  then have c: "queue_cmds ?dv = insert (bf_cmd b) (queue_cmds ?dv')"
    by (simp only: queue_cmds_def image_insert)
  show "bf_pBuf b \<noteq> 0" "cmd_wf (bf_cmd b)" by (rule dq)+
  show "cmd_ok (g_Idrs d) (held plain_ids Ps d) (bf_cmd b)"
    using inv by (simp add: driver_inv_def queue_ok_def c)
  have "device_acct (add_mset (bf_pBuf b) L) ?dv'" using dq(1) by (simp add: completed_def)
  moreover have "g_Capsets ?dv' = g_Capsets ?dv" by (simp add: completed_def)
  ultimately show "driver_inv (add_mset (bf_pBuf b) L) (buf_regions b + X) Ps (on_dev (completed q b) d)"
    using inv by (simp add: driver_inv_def r c queue_ok_def ac_simps)
qed

lemma queue_regions_free [simp]: "queue_regions (FreeCommandBuffer b dv) = queue_regions dv"
  by (rule queue_regions_cong) simp

lemma queue_cmds_free [simp]: "queue_cmds (FreeCommandBuffer b dv) = queue_cmds dv"
  by (rule queue_cmds_cong) simp

lemma inv_free_buffer:
  "driver_inv (add_mset (bf_pBuf b) L) X Ps d \<Longrightarrow> bf_pBuf b \<noteq> 0 \<Longrightarrow>
   driver_inv L X Ps (on_dev (FreeCommandBuffer b) d)"
  by (simp add: driver_inv_def queue_ok_def acct_free)

text \<open>The callback changes a blob only: its address and size are not memory it owns.\<close>

lemma not_plain_blob:
  assumes c: "context_loop ctx (g_VirglContextList d) = Some c" and r: "resource_loop i (vc_ResourceList c) = Some r"
    and i: "i \<notin># held plain_ids Ps d"
  shows "vr_bForBlob r"
proof -
  have "vr_Id r = i" using resources.search_SomeD [OF r] by simp
  moreover have "plain_ids r \<subseteq># held plain_ids Ps d"
    using resources.search_share [OF r, of plain_ids]
      contexts.search_share [OF c, of "\<lambda>c. total plain_ids (vc_ResourceList c)"]
    by (auto simp: held_def owned_total_def intro: subset_mset.trans subset_mset.add_increasing2)
  ultimately show ?thesis using i by (auto simp: plain_ids_def split: if_splits)
qed

lemma inv_map_callback:
  assumes inv: "driver_inv L X Ps d" and c: "context_loop ctx (g_VirglContextList d) = Some c"
    and i: "i \<notin># held plain_ids Ps d"
  shows "driver_inv L X Ps (MapBlobResourceCallback e c i gpa sz d)"
proof (cases "resource_loop i (vc_ResourceList c)")
  case None
  then show ?thesis using inv by (simp add: MapBlobResourceCallback_def GetResourceFromListUnsafe_def)
next
  case (Some r)
  have id: "vc_Id c = ctx" "vr_Id r = i"
    using contexts.search_SomeD [OF c] resources.search_SomeD [OF Some] by auto
  have blob: "vr_bForBlob r" by (rule not_plain_blob [OF c Some i])
  define f :: "u64 \<Rightarrow> virgl_resource \<Rightarrow> virgl_resource" where "f = (\<lambda>m r. r\<lparr>vr_Buffer := (vr_Buffer r)\<lparr>mb_Size := sz,
      mb_Memory := (mb_Memory (vr_Buffer r))\<lparr>md_VirtualAddress := m\<rparr>\<rparr>, vr_StateEvent := True\<rparr>)"
  have "share_ok r"
    using inv contexts.search_SomeD [OF c] resources.search_SomeD [OF Some]
    by (auto simp: driver_inv_def listed_def)
  then have "driver_inv L X Ps (with_context ctx (with_resource i (f m)) (d\<lparr>k_mdls := [] @ k_mdls d\<rparr>))" for m
    by (intro inv_change [OF inv c Some])
      (simp_all add: f_def blob res_regions_def res_ids_def plain_ids_def res_mdls_def share_ok_def)
  then have u: "driver_inv L X Ps (with_context ctx (with_resource i (f m)) d)" for m by simp
  have "with_context ctx g (d\<lparr>k_iomaps := x\<rparr>) = (with_context ctx g d)\<lparr>k_iomaps := x\<rparr>" for g x
    by (simp add: with_context_def)
  then show ?thesis
    using inv u [unfolded f_def]
    by (simp add: MapBlobResourceCallback_def GetResourceFromListUnsafe_def Some id Let_def)
qed

lemma inv_complete:
  assumes inv: "driver_inv L X Ps d" and q: "q < NumVirtQueues d" and b: "b \<in> set (dv_VirtQueues (dr_dev d) ! q)"
    and rtl: "rtl_ok (en_rtl e)"
  shows "driver_inv L X Ps (complete_buffer e b resp (on_dev (completed q b) d))"
proof -
  let ?d = "on_dev (completed q b) d" and ?h = "cmd_hdr (bf_cmd b)"
  note g = inv_get_buf [OF inv q b]
  have idle: "driver_inv (add_mset (bf_pBuf b) L) X Ps ?d" if "\<not> is_submit (bf_cmd b)"
    using g(1) that by (simp add: buf_regions_def)
  have busy: "driver_inv (add_mset (bf_pBuf b) L) Y Ps (with_context c (UpdateResourceState is False f) ?d)"
    if "driver_inv (add_mset (bf_pBuf b) L) Y Ps ?d" for Y c "is" f
    by (rule inv_busy [OF that])
  have map: "driver_inv (add_mset (bf_pBuf b) L) X Ps (MapBlobResourceCallback e c i gpa sz ?d)"
    if "hdr_type ?h = ctrl_type_code VIRTIO_GPU_CMD_RESOURCE_MAP_BLOB" "cmd_resource (bf_cmd b) = Some i"
      "context_loop ctx (g_VirglContextList ?d) = Some c" for c i ctx gpa sz
  proof (rule inv_map_callback [OF idle that(3)])
    show "\<not> is_submit (bf_cmd b)" using that(1) by (simp add: is_submit_def del: ctrl_type_code.simps)
    show "i \<notin># held plain_ids Ps ?d"
      using g(4) that(1,2) by (auto simp: cmd_ok_def map_ids_def)
  qed
  note free = inv_free_buffer [OF _ g(2)]
  obtain t where t: "hdr_type ?h = ctrl_type_code t" using g(3) by (auto simp: cmd_wf_def)
  have nq: "t \<noteq> VIRTIO_GPU_CMD_GET_CAPSET" "t \<noteq> VIRTIO_GPU_CMD_GET_CAPSET_INFO"
    using g(4) by (auto simp: cmd_ok_def is_query_def t simp del: ctrl_type_code.simps)
  consider "t = VIRTIO_GPU_CMD_SUBMIT_3D" | "t = VIRTIO_GPU_CMD_RESOURCE_MAP_BLOB"
    | "t \<noteq> VIRTIO_GPU_CMD_SUBMIT_3D" "t \<noteq> VIRTIO_GPU_CMD_RESOURCE_MAP_BLOB" by blast
  then show ?thesis
  proof cases
    case 1
    then have r: "driver_inv (add_mset (bf_pBuf b) L) (add_mset (bf_pDataBuf b, bf_DataBufSize b) X) Ps ?d"
      using g(1) t by (simp add: buf_regions_def is_submit_def del: ctrl_type_code.simps)
    note freed = free [OF inv_free_region [OF _ rtl]]
    have "driver_inv L X Ps (on_dev (FreeCommandBuffer b)
        (d'\<lparr>g_Memory := FreeVgpuMemory (en_rtl e) (bf_pDataBuf b) (bf_DataBufSize b) (g_Memory d')\<rparr>))"
      if "driver_inv (add_mset (bf_pBuf b) L) (add_mset (bf_pDataBuf b, bf_DataBufSize b) X) Ps d'" for d'
      by (rule freed [OF that])
    with r busy [OF r] inv_event show ?thesis
      unfolding complete_buffer_def Let_def t 1 ctrl_type_of_code
      by (simp split: option.split)
  next
    case 2
    with t have n: "\<not> is_submit (bf_cmd b)" by (simp add: is_submit_def del: ctrl_type_code.simps)
    from free idle [OF n] map t 2 show ?thesis
      unfolding complete_buffer_def Let_def t ctrl_type_of_code
      by (simp add: GetVirglContextFromListUnsafe_def split: option.split del: ctrl_type_code.simps)
  next
    case 3
    with t have n: "\<not> is_submit (bf_cmd b)" by (simp add: is_submit_def del: ctrl_type_code.simps)
    have "driver_inv L X Ps (on_dev (FreeCommandBuffer b) ?d)" by (rule free [OF idle [OF n]])
    moreover have "driver_inv L X Ps (on_dev (FreeCommandBuffer b) (with_context c (UpdateResourceState is False f) ?d))"
      for c "is" f by (rule free [OF busy [OF idle [OF n]]])
    ultimately show ?thesis
      unfolding complete_buffer_def Let_def t ctrl_type_of_code
      using 3 nq by (simp split: virtio_gpu_ctrl_type.split option.split del: ctrl_type_code.simps UpdateResourceState.simps)
  qed
qed

text \<open>The library returns buffers that are in the queue, each once.\<close>

definition used_ok :: "nat \<Rightarrow> (vgpu_buffer \<times> virtio_gpu_resp_map_info) list \<Rightarrow> driver \<Rightarrow> bool" where
  "used_ok q used d \<longleftrightarrow> q < NumVirtQueues d \<and> mset (map fst used) \<subseteq># mset (dv_VirtQueues (dr_dev d) ! q)"

lemma MapBlob_dev [simp]: "dr_dev (MapBlobResourceCallback e c i a s d) = dr_dev d"
  by (simp add: MapBlobResourceCallback_def Let_def split: option.split)

lemma complete_queues [simp]:
  "dv_VirtQueues (dr_dev (complete_buffer e b resp d)) = dv_VirtQueues (dr_dev d)"
  by (simp add: complete_buffer_def Let_def KeSetEvent_def split: option.split virtio_gpu_ctrl_type.split)

lemma ReadFromQueue_queues:
  "used_ok q used d \<Longrightarrow> map mset (dv_VirtQueues (dr_dev (VirtioVgpuReadFromQueue e q used d)))
     = (map mset (dv_VirtQueues (dr_dev d)))[q := mset (dv_VirtQueues (dr_dev d) ! q) - mset (map fst used)]"
proof (induction e q used d rule: VirtioVgpuReadFromQueue.induct)
  case (1 e q d)
  then show ?case by (simp add: used_ok_def NumVirtQueues_def map_update [symmetric])
next
  case (2 e q b resp used d)
  let ?d = "complete_buffer e b resp (on_dev (completed q b) d)"
  have q: "q < length (dv_VirtQueues (dr_dev d))" using "2.prems" by (simp add: used_ok_def NumVirtQueues_def)
  then have "used_ok q used ?d"
    using "2.prems" by (simp add: used_ok_def NumVirtQueues_def completed_def insert_subset_eq_iff)
  from "2.IH" [OF this] q show ?case
    by (simp add: completed_def map_update)
qed

lemma inv_read:
  "driver_inv L X Ps d \<Longrightarrow> used_ok q used d \<Longrightarrow> rtl_ok (en_rtl e) \<Longrightarrow>
   driver_inv L X Ps (VirtioVgpuReadFromQueue e q used d)"
proof (induction e q used d rule: VirtioVgpuReadFromQueue.induct)
  case (2 e q b resp used d)
  let ?d = "complete_buffer e b resp (on_dev (completed q b) d)"
  have q: "q < NumVirtQueues d" and b: "b \<in> set (dv_VirtQueues (dr_dev d) ! q)"
    using "2.prems"(2) by (auto simp: used_ok_def insert_subset_eq_iff)
  have "used_ok q used ?d"
    using "2.prems"(2) q by (simp add: used_ok_def NumVirtQueues_def completed_def insert_subset_eq_iff)
  with "2.IH" [OF inv_complete [OF "2.prems"(1) q b "2.prems"(3)]] "2.prems"(3) show ?case by simp
qed simp

lemma read_all_rule:
  assumes read: "\<And>i d. P d \<Longrightarrow> used_ok i (used i) d \<Longrightarrow> P (VirtioVgpuReadFromQueue e i (used i) d)"
  shows "P d \<Longrightarrow> distinct is \<Longrightarrow> \<forall>i \<in> set is. used_ok i (used i) d \<Longrightarrow>
    P (fold (\<lambda>i. VirtioVgpuReadFromQueue e i (used i)) is d)"
proof (induction "is" arbitrary: d)
  case (Cons i "is")
  let ?d = "VirtioVgpuReadFromQueue e i (used i) d"
  have u: "used_ok i (used i) d" using Cons.prems by simp
  have m: "map mset (dv_VirtQueues (dr_dev ?d))
      = (map mset (dv_VirtQueues (dr_dev d)))[i := mset (dv_VirtQueues (dr_dev d) ! i) - mset (map fst (used i))]"
    by (rule ReadFromQueue_queues [OF u])
  have l: "NumVirtQueues ?d = NumVirtQueues d"
    using arg_cong [OF m, of length] by (simp add: NumVirtQueues_def)
  have "used_ok j (used j) ?d" if "j \<in> set is" for j
  proof -
    have "used_ok j (used j) d" "j \<noteq> i" using that Cons.prems by auto
    then have j: "j < NumVirtQueues d" by (simp add: used_ok_def)
    then have "mset (dv_VirtQueues (dr_dev ?d) ! j) = map mset (dv_VirtQueues (dr_dev ?d)) ! j"
      using l by (simp add: NumVirtQueues_def)
    also have "\<dots> = mset (dv_VirtQueues (dr_dev d) ! j)"
      using j \<open>j \<noteq> i\<close> by (simp add: m NumVirtQueues_def)
    finally show ?thesis using \<open>used_ok j (used j) d\<close> l by (simp add: used_ok_def)
  qed
  with Cons.IH [OF read [OF Cons.prems(1) u]] Cons.prems show ?case by simp
qed simp

definition dpc_ok :: "interrupt_info \<Rightarrow> used_buffers \<Rightarrow> driver \<Rightarrow> bool" where
  "dpc_ok info used d \<longleftrightarrow> (\<forall>i < NumVirtQueues d. used_ok i (used i) d)"

lemma dpc_rule:
  assumes "P d" and "dpc_ok info used d"
    and "\<And>i d. P d \<Longrightarrow> used_ok i (used i) d \<Longrightarrow> P (VirtioVgpuReadFromQueue e i (used i) d)"
  shows "P (VirtioVgpuInterruptDpc e info used d)"
  using assms(1,2) assms(3) [OF assms(1)] read_all_rule [of P used e d "[0..<NumVirtQueues d]", OF assms(3)]
  by (simp add: VirtioVgpuInterruptDpc_def dpc_ok_def)

lemma inv_dpc:
  assumes "driver_inv L X Ps d" and "dpc_ok info used d" and "rtl_ok (en_rtl e)"
  shows "driver_inv L X Ps (VirtioVgpuInterruptDpc e info used d)"
  by (rule dpc_rule [where P = "driver_inv L X Ps", OF assms(1,2)]) (rule inv_read [OF _ _ assms(3)])

lemma inv_log: "driver_inv L X Ps d \<Longrightarrow> driver_inv L X Ps (queue_log es d)"
  by (simp add: driver_inv_def queue_log_def device_acct_def queue_regions_def queue_ok_def queue_cmds_def)

lemma inv_log_fold: "driver_inv L X Ps d \<Longrightarrow> driver_inv L X Ps (fold (\<lambda>i. queue_log (es i)) is d)"
  by (induction "is" arbitrary: d) (simp_all add: inv_log)

subsection \<open>Every callback keeps the invariant\<close>

lemma Destroy_kept:
  assumes "kept (en_kernel e) L X Ps d" and "env_ok e"
  shows "reply_all (kept (en_kernel e) L X Ps) (case GetVirglContextFromList i d of
      None \<Rightarrow> Some (s, n, out, d)
    | Some c \<Rightarrow> let (status, d') = CtlDestroyVirglContext e c d in Some (status, n, out, d'))"
  using assms kept_destroy_context [OF assms]
  by (simp add: GetVirglContextFromList_def GetVirglContextFromListUnsafe_def case_prod_beta split: option.split)

lemma dispatch_kept:
  assumes "kept (en_kernel e) L X Ps d" and "env_ok e" and "next_id d < 2 ^ 32"
  shows "reply_all (kept (en_kernel e) L X Ps) (dispatch e code r d)"
  using InitVirglContext_kept [OF assms(1,2)] Destroy_kept [OF assms(1,2)] GetParams_kept [OF assms(1,2)]
    GetCaps_kept [OF assms(1,2)] CreateResource_kept [OF assms] CreateBlobResource_kept [OF assms]
    CloseResource_kept [OF assms(1,2)] Wait_kept [OF assms(1)] Map_kept [OF assms(1)]
    SubmitCommand_kept [OF assms(1,2)] TransferHost_kept [OF assms(1,2)] assms(1)
  by (simp add: dispatch_def)

lemma ProcessNotify_kept:
  assumes "kept (en_kernel e) L X Ps d" and "env_ok e"
  shows "kept (en_kernel e) L X Ps (ProcessNotify e i create d)"
  using assms kept_destroy_context [OF assms]
  by (simp add: ProcessNotify_def GetVirglContextFromList_def GetVirglContextFromListUnsafe_def split: option.split)


subsection \<open>What the invariant says of the ids\<close>

lemma ids_mset: "held res_ids [] d = mset (concat (map (\<lambda>c. map vr_Id (vc_ResourceList c)) (g_VirglContextList d)))"
proof -
  have "total res_ids rs = mset (map vr_Id rs)" for rs by (induction rs) (simp_all add: res_ids_def)
  then have "owned_total res_ids cs = mset (concat (map (\<lambda>c. map vr_Id (vc_ResourceList c)) cs))" for cs
    unfolding owned_total_def by (induction cs) simp_all
  then show ?thesis by (simp add: held_def)
qed

lemma inv_ids:
  assumes "driver_inv L X [] d"
  shows "distinct (concat (map (\<lambda>c. map vr_Id (vc_ResourceList c)) (g_VirglContextList d)))"
    and "0 \<notin> set (concat (map (\<lambda>c. map vr_Id (vc_ResourceList c)) (g_VirglContextList d)))"
proof -
  let ?is = "concat (map (\<lambda>c. map vr_Id (vc_ResourceList c)) (g_VirglContextList d))"
  have c: "count (mset ?is) i \<le> of_bool (0 < i \<and> unat i < unat (idr_Id (g_Idrs d ! VIRGL_RESOURCE_ID_TYPE)))" for i
    using assms unfolding driver_inv_def ids_ok_def issued_once_def ids_mset by blast
  have le: "count (mset ?is) i \<le> 1" for i by (rule order_trans [OF c]) simp
  have "count (mset ?is) i = (if i \<in> set ?is then 1 else 0)" for i
  proof (cases "i \<in> set ?is")
    case True
    then have "0 < count (mset ?is) i" by (simp only: count_greater_zero_iff set_mset_mset)
    with le [of i] True show ?thesis by (simp only: if_True)
  next
    case False
    then have "count (mset ?is) i = 0" by (simp only: count_eq_zero_iff set_mset_mset not_False_eq_True)
    with False show ?thesis by (simp only: if_False)
  qed
  then show "distinct ?is" by (simp only: distinct_count_atmost_1) blast
  have "count (mset ?is) 0 = 0" using c [of 0] by simp
  then show "0 \<notin> set ?is" by (simp only: count_eq_zero_iff set_mset_mset not_False_eq_True)
qed

lemma inv_context_ids:
  assumes "driver_inv L X [] d" and "c \<in> set (g_VirglContextList d)"
  shows "distinct (map vr_Id (vc_ResourceList c))"
  using inv_ids(1) [OF assms(1)] assms(2) by (auto simp: distinct_concat_iff)

end
