(* ===== verification/Vgpu_System.thy ===== *)
theory Vgpu_System
  imports Vgpu_Driver
begin

text \<open>
  The driver as a transition system: requests of any process, interrupts with whatever buffers
  the host has used, process exits and the enabling and disabling of interrupts, in any order.
  A request that waits takes its step when it goes on.  The invariant of \<open>Vgpu_Ownership\<close> holds
  in every state the driver reaches from the one the start leaves it in, as long as fewer than
  \<open>2 ^ 32 - 1\<close> steps were taken, since each request draws at most one resource id.
\<close>

subsection \<open>Events and runs\<close>

datatype event =
    Request u32 request
  | Interrupt interrupt_info used_buffers
  | Notify u32 bool
  | Enable interrupt_info
  | Disable interrupt_info

inductive step :: "env \<Rightarrow> driver \<Rightarrow> event \<Rightarrow> driver \<Rightarrow> bool" for e where
  request: "VirtioVgpuIoControl e code r d = Some (completions, out, d') \<Longrightarrow> step e d (Request code r) d'"
| interrupt: "dpc_ok info used d \<Longrightarrow> step e d (Interrupt info used) (VirtioVgpuInterruptDpc e info used d)"
| notify: "step e d (Notify pid create) (ProcessNotify e pid create d)"
| enable: "step e d (Enable info) (snd (VirtioVgpuInterruptEnable info d))"
| disable: "step e d (Disable info) (snd (VirtioVgpuInterruptDisable info d))"

inductive_cases step_RequestE: "step e d (Request code r) d'"
inductive_cases step_InterruptE: "step e d (Interrupt info used) d'"
inductive_simps step_simps [simp]:
  "step e d (Notify pid create) d'" "step e d (Enable info) d'" "step e d (Disable info) d'"
  "step e d (Interrupt info used) d'" "step e d (Request code r) d'"

inductive steps :: "env \<Rightarrow> driver \<Rightarrow> event list \<Rightarrow> driver \<Rightarrow> bool" for e where
  none: "steps e d [] d"
| more: "steps e d evs d1 \<Longrightarrow> step e d1 ev d2 \<Longrightarrow> steps e d (evs @ [ev]) d2"

text \<open>The state the driver starts in: no contexts, no buffers, empty queues, an unused vgpu
  memory and fresh id counters.\<close>

definition started :: "driver \<Rightarrow> bool" where
  "started d \<longleftrightarrow>
     2 \<le> NumVirtQueues d \<and> concat (dv_VirtQueues (dr_dev d)) = [] \<and> dv_pool (dr_dev d) = []
   \<and> dv_lookaside (dr_dev d) = 0 \<and> dv_faults (dr_dev d) = [] \<and> caps_inv (g_Capsets (dr_dev d))
   \<and> g_VirglContextList d = [] \<and> mem_owned {#} (g_Memory d)
   \<and> (\<exists>idrs. length idrs = IDR_MAX_SIZE \<and> g_Idrs d = InitializeIdr idrs)"

lemma started_inv: "started d \<Longrightarrow> driver_inv {#} {#} [] d \<and> next_id d = 1"
  by (auto simp: started_def driver_inv_def device_acct_def NumVirtQueues_def held_def owned_total_def
      queue_regions_def ids_ok_def issued_once_def listed_def queue_ok_def queue_cmds_def next_id_def
      InitializeIdr_nth idr_consts simp del: concat_eq_Nil_conv set_concat)

subsection \<open>A request draws at most one id\<close>

lemma next_id_simps [simp]:
  "next_id (on_dev f d) = next_id d" "next_id (with_context i g d) = next_id d" "next_id (fault_at x d) = next_id d"
  "next_id (free_resource ctx i d) = next_id d" "next_id (IoFreeMdl m d) = next_id d" "next_id (KeSetEvent o1 d) = next_id d"
  "next_id (MmUnmapIoSpace a s d) = next_id d" "next_id (d\<lparr>g_Memory := mem\<rparr>) = next_id d"
  "next_id (d\<lparr>k_mem := km\<rparr>) = next_id d" "next_id (d\<lparr>k_objects := os\<rparr>) = next_id d" "next_id (d\<lparr>dr_dev := dv\<rparr>) = next_id d"
  "next_id (d\<lparr>g_VirglContextList := cs\<rparr>) = next_id d" "next_id (d\<lparr>k_resources_out := n\<rparr>) = next_id d"
  "next_id (copy_command va al sz bs d) = next_id d" "next_id (d\<lparr>k_mdls := ms\<rparr>) = next_id d"
  "next_id (d\<lparr>k_iomaps := is\<rparr>) = next_id d" "next_id (d\<lparr>k_umaps := us\<rparr>) = next_id d"
  "next_id (MmUnmapLockedPages a m d) = next_id d" "next_id (free_context ctx d) = next_id d"
  by (simp_all add: next_id_def fault_at_def free_resource_def IoFreeMdl_def MmUnmapIoSpace_def KeSetEvent_def
      MmUnmapLockedPages_def free_context_def
      copy_command_def Let_def)

lemma next_id_delete [simp]: "next_id (DeleteResource e ctx r d) = next_id d"
  by (simp add: DeleteResource_def DeleteUserShareMemory_def Let_def)

lemma next_id_destroy_loop [simp]: "next_id (destroy_loop e ctx rs d) = next_id d"
  by (induction rs arbitrary: d) simp_all

lemma next_id_destroy [simp]: "next_id (snd (CtlDestroyVirglContext e c d)) = next_id d"
  by (simp add: CtlDestroyVirglContext_def Let_def)

lemma next_id_draw:
  assumes "GetIdFromIdrWithoutCache (g_Idrs d) VIRGL_RESOURCE_ID_TYPE 4 = (i, idrs)"
  shows "next_id (d'\<lparr>g_Idrs := idrs\<rparr>) \<le> Suc (next_id d)"
proof -
  have "unat (x + 1) \<le> Suc (unat x)" for x :: u64 by (simp add: unat_word_ariths)
  moreover have "idrs = (g_Idrs d)[VIRGL_RESOURCE_ID_TYPE := (g_Idrs d ! VIRGL_RESOURCE_ID_TYPE)
      \<lparr>idr_Id := idr_Id (g_Idrs d ! VIRGL_RESOURCE_ID_TYPE) + 1\<rparr>]"
    using assms by (auto simp: GetIdFromIdrWithoutCache_def Let_def)
  ultimately show ?thesis
    by (cases "VIRGL_RESOURCE_ID_TYPE < length (g_Idrs d)") (simp_all add: next_id_def list_update_beyond)
qed

abbreviation one_id :: "driver \<Rightarrow> driver \<Rightarrow> bool" where
  "one_id d \<equiv> \<lambda>d'. next_id d' \<le> Suc (next_id d)"

lemma share_id: "CreateUserShareMemory r sh d = (ok, sh', d') \<Longrightarrow> next_id d' = next_id d"
  using CreateUserShareMemory_result [of r sh d ok sh' d'] by (auto split: if_splits)

lemma reply_option: "(\<And>x. R = Some x \<Longrightarrow> reply_all P (f x)) \<Longrightarrow> reply_all P (case R of None \<Rightarrow> None | Some x \<Rightarrow> f x)"
  by (cases R) simp_all

lemma requests_id:
  "reply_all (one_id d) (CtlInitVirglContext e r n d)" "reply_all (one_id d) (CtlGetCaps e r d)"
  "reply_all (one_id d) (CtlGetParams e r d)" "reply_all (one_id d) (CtlCloseResource e r d)"
  "reply_all (one_id d) (CtlWait e r d)" "reply_all (one_id d) (CtlTransferHost e h r d)"
proof -
  show "reply_all (one_id d) (CtlInitVirglContext e r n d)"
    by (simp add: CtlInitVirglContext_def init_context_insert_def Let_def split: sum.split prod.split)
  show "reply_all (one_id d) (CtlGetCaps e r d)"
    unfolding CtlGetCaps_def Let_def
    by (intro reply_input) (simp, simp split: option.split, intro allI impI reply_output,
        simp_all split: option.split)
  show "reply_all (one_id d) (CtlGetParams e r d)"
    unfolding CtlGetParams_def
    by (rule reply_option, intro reply_frame) (auto simp: Let_def split: if_splits)
  show "reply_all (one_id d) (CtlCloseResource e r d)"
    unfolding CtlCloseResource_unfold by (intro reply_frame) (simp_all add: Let_def split: option.split)
  show "reply_all (one_id d) (CtlWait e r d)"
    unfolding CtlWait_unfold by (intro reply_frame) (simp_all add: Let_def split: option.split)
  show "reply_all (one_id d) (CtlTransferHost e h r d)"
    unfolding CtlTransferHost_unfold by (intro reply_frame) (simp_all add: Let_def split: option.split)
qed


lemma fence_id_same [simp]:
  "next_id (d'\<lparr>g_Idrs := snd (GetIdFromIdrWithoutCache (g_Idrs d) FENCE_ID_TYPE 8)\<rparr>) = next_id d"
  by (simp add: next_id_def idr_frame(1) idr_consts)

lemma Map_id: "reply_all (one_id d) (CtlMap e r d)"
  unfolding CtlMap_unfold
proof (intro reply_frame, simp, simp, simp, goal_cases)
  case (1 _ _ s n c)
  then show ?case
    by (auto simp: Let_def KeWait_def dest: share_id split: option.split prod.split)
qed

lemma Create_id: "reply_all (one_id d) (CtlCreateResource e r d)"
  unfolding CtlCreateResource_unfold
proof (intro reply_frame, simp, simp, simp, goal_cases)
  case (1 _ _ s n c)
  obtain i idrs where "GetIdFromIdrWithoutCache (g_Idrs d) VIRGL_RESOURCE_ID_TYPE 4 = (i, idrs)"
    by (cases "GetIdFromIdrWithoutCache (g_Idrs d) VIRGL_RESOURCE_ID_TYPE 4")
  with next_id_draw [OF this] show ?case
    by (simp add: Let_def split: option.split prod.split)
qed

lemma Create_blob_id: "reply_all (one_id d) (CtlCreateBlobResource e r d)"
  unfolding CtlCreateBlobResource_unfold
proof (intro reply_frame, simp, simp, simp, goal_cases)
  case (1 _ _ s n c)
  obtain i idrs where "GetIdFromIdrWithoutCache (g_Idrs d) VIRGL_RESOURCE_ID_TYPE 4 = (i, idrs)"
    by (cases "GetIdFromIdrWithoutCache (g_Idrs d) VIRGL_RESOURCE_ID_TYPE 4")
  with next_id_draw [OF this] show ?case
    by (simp add: Let_def split: option.split)
qed


lemma fences_id:
  "submit_in_fence r cmd d = Inl (Some (s, d')) \<Longrightarrow> next_id d' = next_id d"
  "submit_in_fence r cmd d = Inr d' \<Longrightarrow> next_id d' = next_id d"
  "submit_out_fence r cmd d = Inl (s, d') \<Longrightarrow> next_id d' = next_id d"
  "submit_out_fence r cmd d = Inr (x, d') \<Longrightarrow> next_id d' = next_id d"
  "submit_handles r cmd i f d = Inl (s, d') \<Longrightarrow> next_id d' = next_id d"
  "submit_handles r cmd i f d = Inr (hs, d') \<Longrightarrow> next_id d' = next_id d"
  by (auto simp: submit_in_fence_def submit_out_fence_def submit_handles_def KeWait_def Let_def
      split: if_splits prod.splits option.splits)

lemma fence_draw_id:
  "GetIdFromIdrWithoutCache (g_Idrs d) FENCE_ID_TYPE 8 = (f, idrs) \<Longrightarrow> next_id (d\<lparr>g_Idrs := idrs\<rparr>) = next_id d"
  using fence_id_same [of d d] by simp

lemma next_id_idle [simp]: "next_id (d\<lparr>g_Idrs := g_Idrs d\<rparr>) = next_id d"
  by (simp add: next_id_def)

lemma Submit_id: "reply_all (one_id d) (CtlSubmitCommand e r d)"
  unfolding CtlSubmitCommand_unfold Let_def
proof (intro reply_frame, simp, simp, goal_cases)
  case (1 _ bytes c)
  show ?case
    by (simp split: sum.split option.split prod.split) (auto dest!: fences_id fence_draw_id)
qed

lemma dispatch_id: "reply_all (one_id d) (dispatch e code r d)"
  using requests_id [of d] Map_id [of d] Create_id [of d] Create_blob_id [of d] Submit_id [of d]
  by (simp add: dispatch_def case_prod_beta split: option.split)

subsection \<open>Every step keeps the invariant\<close>

lemma complete_id [simp]: "next_id (complete_buffer e b resp d) = next_id d"
  by (simp add: complete_buffer_def MapBlobResourceCallback_def Let_def
      split: option.split virtio_gpu_ctrl_type.split)

lemma read_id [simp]: "next_id (VirtioVgpuReadFromQueue e q used d) = next_id d"
  by (induction e q used d rule: VirtioVgpuReadFromQueue.induct) simp_all

lemma fold_id: "(\<And>i d. next_id (f i d) = next_id d) \<Longrightarrow> next_id (fold f is d) = next_id d"
  by (induction "is" arbitrary: d) simp_all

lemma callbacks_id [simp]:
  "next_id (VirtioVgpuInterruptDpc e info used d) = next_id d"
  "next_id (snd (VirtioVgpuInterruptEnable info d)) = next_id d"
  "next_id (snd (VirtioVgpuInterruptDisable info d)) = next_id d"
  "next_id (ProcessNotify e pid create d) = next_id d"
  by (simp_all add: VirtioVgpuInterruptDpc_def VirtioVgpuInterruptEnable_def VirtioVgpuInterruptDisable_def
      ProcessNotify_def queue_log_def fold_id split: option.split)

theorem step_kept:
  assumes "step e d ev d'" and "kept (en_kernel e) L X Ps d" and "env_ok e" and "next_id d < 2 ^ 32"
  shows "kept (en_kernel e) L X Ps d' \<and> next_id d' \<le> Suc (next_id d)"
  using assms(1)
proof cases
  case (request code r completions out)
  then obtain st n where "dispatch e code r d = Some (st, n, out, d')"
    by (auto simp: VirtioVgpuIoControl_def split: option.splits prod.splits)
  with dispatch_kept [OF assms(2-4), of code r] dispatch_id [of d e code r] show ?thesis by simp
next
  case (interrupt info used)
  have "rtl_ok (en_rtl e)" using assms(3) by (simp add: env_ok_def)
  then have "kept (en_kernel e) L X Ps (VirtioVgpuInterruptDpc e info used d)"
    by (intro kept_step [OF assms(2)] inv_dpc [OF _ interrupt(3)])
  with interrupt show ?thesis by simp
next
  case (notify pid create)
  with ProcessNotify_kept [OF assms(2,3)] show ?thesis by simp
next
  case (enable info)
  have "kept (en_kernel e) L X Ps (snd (VirtioVgpuInterruptEnable info d))"
    by (rule kept_step [OF assms(2)]) (simp add: VirtioVgpuInterruptEnable_def inv_log inv_log_fold)
  with enable show ?thesis by simp
next
  case (disable info)
  have "kept (en_kernel e) L X Ps (snd (VirtioVgpuInterruptDisable info d))"
    by (rule kept_step [OF assms(2)]) (simp add: VirtioVgpuInterruptDisable_def inv_log inv_log_fold)
  with disable show ?thesis by simp
qed

lemma steps_kept_from:
  assumes "steps e d evs d'" and "kept (en_kernel e) L X Ps d" and "env_ok e" and "next_id d + length evs \<le> 2 ^ 32"
  shows "kept (en_kernel e) L X Ps d' \<and> next_id d' \<le> next_id d + length evs"
  using assms
proof (induction rule: steps.induct)
  case (more d evs d1 ev d2)
  then have "kept (en_kernel e) L X Ps d1" "next_id d1 \<le> next_id d + length evs" by simp_all
  moreover from this more.prems have "next_id d1 < 2 ^ 32" by simp
  ultimately show ?case using step_kept [OF more.hyps(2) _ more.prems(2)] by fastforce
qed simp

lemma steps_kept:
  assumes "steps e d evs d'" and "started d" and "env_ok e" and "length evs < 2 ^ 32 - 1"
  shows "kept (en_kernel e) {#} {#} [] d' \<and> next_id d' \<le> Suc (length evs)"
  using steps_kept_from [OF assms(1) _ assms(3), of "{#}" "{#}" "[]"] started_inv [OF assms(2)] assms(4)
  by (simp add: keptI)

end
