(* ===== verification/Vgpu_Samples.thy ===== *)
theory Vgpu_Samples
  imports Vgpu_Driver
begin

text \<open>
  A concrete machine, driver state and request on which the properties are exercised: the
  kernel and the host of \<open>Vgpu_Command\<close>, the first-fit searches and eight pages of vgpu memory
  of \<open>Vgpu_Memory\<close>, process 7 with a context of three resources: a buffer, a busy buffer with a
  fence and a blob.
\<close>

definition sample_env :: env where
  "sample_env = \<lparr>en_kernel = sample_kernel, en_rtl = rtl_first_fit, en_iomap = \<lambda>gpa sz. gpa + 0x10000000\<rparr>"

lemma sample_env_ok: "env_ok sample_env" "accepts_all (en_kernel sample_env)"
  by (auto simp: env_ok_def sample_env_def sample_kernel_ok rtl_first_fit_ok) (simp add: sample_kernel_def)

text \<open>The driver as it starts.\<close>

definition sample_start :: driver where
  "sample_start = \<lparr>dr_dev = sample_device, dr_config = \<lparr>cfg_staging = 1, cfg_num_queues = 2, cfg_num_capsets = 1,
       cfg_memory_size = 0x8000, cfg_capabilities = 3\<rparr>, dr_Capabilities = 3,
     g_Idrs = InitializeIdr Idrs_static, g_Memory = sample_memory, g_VirglContextList = [],
     k_mem = \<lambda>a. 0xFF, k_resources_out = 0, k_freed = [], k_mdls = [],
     k_umaps = [], k_iomaps = [], k_objects = [], k_signals = []\<rparr>"

definition sample_buffer :: "u64 \<Rightarrow> u64 \<Rightarrow> vgpu_memory_buffer" where
  "sample_buffer va sz = \<lparr>mb_Size = sz,
     mb_Share = \<lparr>sh_pMdl = 0, sh_Size = 0, sh_UserAdderss = 0, sh_KernelAddress = 0\<rparr>,
     mb_Memory = \<lparr>md_VirtualAddress = va, md_PhysicalAddress = va + 0x100000\<rparr>\<rparr>"

definition sample_resource :: virgl_resource where
  "sample_resource = \<lparr>vr_Id = 1, vr_StateEvent = True, vr_bForBuffer = True, vr_bForBlob = False,
     vr_FenceId = 0, vr_Buffer = sample_buffer 0x100000 0x1000\<rparr>"

definition sample_busy :: virgl_resource where
  "sample_busy = \<lparr>vr_Id = 2, vr_StateEvent = False, vr_bForBuffer = True, vr_bForBlob = False,
     vr_FenceId = 5, vr_Buffer = sample_buffer 0x101000 0x2000\<rparr>"

definition sample_blob :: virgl_resource where
  "sample_blob = \<lparr>vr_Id = 3, vr_StateEvent = False, vr_bForBuffer = True, vr_bForBlob = True,
     vr_FenceId = 0, vr_Buffer = sample_buffer 0 0\<rparr>"

definition sample_context :: virgl_context where
  "sample_context = \<lparr>vc_Id = 7, vc_ResourceList = [sample_blob, sample_busy, sample_resource]\<rparr>"

definition sample_driver :: driver where
  "sample_driver = sample_start\<lparr>g_VirglContextList := [sample_context],
     g_Idrs := [\<lparr>idr_Id = 4, idr_FreeIdList = [], idr_Initilaized = True\<rparr>,
                \<lparr>idr_Id = 6, idr_FreeIdList = [], idr_Initilaized = True\<rparr>],
     g_Memory := sample_state [True, True, True, False, False, False, False, False] 0x5000 3,
     k_resources_out := 3\<rparr>"

definition sample_request :: "u8 list \<Rightarrow> nat \<Rightarrow> request" where
  "sample_request bs n =
     \<lparr>rq_pid = 7, rq_in_status = STATUS_SUCCESS, rq_in = bs, rq_out_status = STATUS_SUCCESS,
      rq_out = replicate n 0, rq_len_failed = 0,
      rq_probe = \<lambda>a sz. (STATUS_SUCCESS, Some (replicate (unat sz) 0xAB)),
      rq_resource = Some sample_blob, rq_pool = True, rq_mdl = 0x5000, rq_map = Some 0x7000,
      rq_reference = \<lambda>h. (STATUS_SUCCESS, h + 0x9000), rq_signalled = \<lambda>object. True\<rparr>"

lemma sample_simps [simp]:
  "rq_pid (sample_request bs n) = 7" "rq_in (sample_request bs n) = bs" "rq_in_status (sample_request bs n) = STATUS_SUCCESS"
  "rq_out_status (sample_request bs n) = STATUS_SUCCESS" "rq_out (sample_request bs n) = replicate n 0"
  "rq_probe (sample_request bs n) a sz = (STATUS_SUCCESS, Some (replicate (unat sz) 0xAB))"
  "rq_resource (sample_request bs n) = Some sample_blob" "rq_pool (sample_request bs n)"
  "rq_mdl (sample_request bs n) = 0x5000" "rq_map (sample_request bs n) = Some 0x7000"
  by (simp_all add: sample_request_def)

lemma sample_driver_simps [simp]:
  "g_VirglContextList sample_driver = [sample_context]" "dr_dev sample_driver = sample_device"
  "k_mdls sample_driver = []" "k_resources_out sample_driver = 3" "k_freed sample_driver = []"
  "g_Memory sample_driver = sample_state [True, True, True, False, False, False, False, False] 0x5000 3"
  by (simp_all add: sample_driver_def sample_start_def)

lemma sample_memory_used:
  "mem_owned {#(0x101000, 0x2000), (0x100000, 0x1000)#}
     (sample_state [True, True, True, False, False, False, False, False] 0x5000 3)"
proof -
  have "mem_owned {#(0x100000, 0x1000)#} (sample_state [True, False, False, False, False, False, False, False] 0x7000 1)"
    using alloc_owned [OF sample_memory_owned rtl_first_fit_ok _ sample_steps(1)] by simp
  from alloc_owned [OF this rtl_first_fit_ok _ sample_steps(2)] show ?thesis by simp
qed

lemma sample_driver_inv: "driver_inv {#} {#} [] sample_driver"
proof -
  have "held res_regions [] sample_driver = {#(0x101000, 0x2000), (0x100000, 0x1000)#}"
    by (simp add: held_def owned_total_def sample_context_def sample_resource_def sample_busy_def sample_blob_def
        res_regions_def sample_buffer_def)
  moreover have "queue_regions sample_device = {#}" "queue_cmds sample_device = {}"
    by (simp_all add: queue_regions_def queue_cmds_def sample_device_def)
  moreover have "held res_ids [] sample_driver = {#3, 2, 1#}" "held res_mdls [] sample_driver = {#}"
    by (simp_all add: held_def owned_total_def sample_context_def sample_resource_def sample_busy_def sample_blob_def
        res_ids_def res_mdls_def sample_buffer_def)
  moreover have "ids_ok (g_Idrs sample_driver) {#3, 2, 1#}"
  proof -
    have "count {#3, 2, 1 :: u32#} i \<le> of_bool (0 < i \<and> unat i < 4)" for i
      by (cases "i = 1"; cases "i = 2"; cases "i = 3") simp_all
    then show ?thesis by (simp add: ids_ok_def issued_once_def sample_driver_def idr_consts)
  qed
  moreover have "\<forall>r \<in> listed sample_driver. share_ok r"
    by (simp add: listed_def sample_context_def share_ok_def sample_resource_def sample_busy_def sample_blob_def
        sample_buffer_def)
  moreover have "caps_inv (g_Capsets sample_device)" by (simp add: caps_inv_def sample_device_def)
  ultimately show ?thesis
    using sample_memory_used sample_device_acct by (simp add: driver_inv_def queue_ok_def sample_context_def)
qed

end
