(* ===== verification/Vgpu_Requests.thy ===== *)
theory Vgpu_Requests
  imports Vgpu_Samples
begin

text \<open>
  What the operations do: the functional properties of the handlers and of the completions, on
  the branches that succeed and on those that fail, each exercised on the state of
  \<open>Vgpu_Samples\<close>.
\<close>

unbundle bit_operations_syntax

subsection \<open>Requests that pass the checks\<close>

definition takes_input :: "request \<Rightarrow> u8 list \<Rightarrow> bool" where
  "takes_input r bs \<longleftrightarrow> NT_SUCCESS (rq_in_status r) \<and> rq_in r = bs"

definition has_output :: "request \<Rightarrow> nat \<Rightarrow> bool" where
  "has_output r n \<longleftrightarrow> NT_SUCCESS (rq_out_status r) \<and> length (rq_out r) = n"

definition caller :: "request \<Rightarrow> driver \<Rightarrow> virgl_context \<Rightarrow> bool" where
  "caller r d c \<longleftrightarrow> GetVirglContextFromListUnsafe (rq_pid r) d = Some c"

lemma takes_inputD:
  "takes_input r bs \<Longrightarrow> of_nat (length bs) = sz \<Longrightarrow> with_input r sz d body = body (rq_in_status r) sz"
  by (simp add: takes_input_def with_input_def retrieved_def)

lemma has_outputD:
  "has_output r n \<Longrightarrow> of_nat n = sz \<Longrightarrow> with_output r sz d body = body (rq_out_status r) sz"
  by (simp add: has_output_def with_output_def retrieved_def)

lemma callerD: "caller r d c \<Longrightarrow> with_caller r n d body = body c"
  "caller r d c \<Longrightarrow> context_loop (rq_pid r) (g_VirglContextList d) = Some c" "caller r d c \<Longrightarrow> vc_Id c = rq_pid r"
  using contexts.search_SomeD [of "rq_pid r" "g_VirglContextList d" c]
  by (auto simp: caller_def with_caller_def GetVirglContextFromListUnsafe_def)

lemmas frame_passed = takes_inputD has_outputD callerD(1)

lemma sample_caller: "caller (sample_request bs n) sample_driver sample_context"
  by (simp add: caller_def GetVirglContextFromListUnsafe_def sample_context_def)

lemma sample_input: "takes_input (sample_request bs n) bs" "has_output (sample_request bs n) n"
  by (simp_all add: takes_input_def has_output_def)

subsection \<open>Resource states\<close>

lemma vr_Id_resource_state: "vr_Id (resource_state b f r) = vr_Id r" by simp

lemma resource_state_idem [simp]:
  "resource_state b f (resource_state b f r) = resource_state b f r"
  by (simp add: resource_state_def)

lemma upd_first_map:
  assumes "distinct (map vr_Id rs)"
  shows "upd_first (\<lambda>r. vr_Id r = i) f rs = map (\<lambda>r. if vr_Id r = i then f r else r) rs"
  using assms
proof (induction rs)
  case (Cons r rs)
  then have "\<forall>x \<in> set rs. vr_Id x \<noteq> vr_Id r" by (auto simp: image_iff)
  with Cons show ?case by (auto intro!: map_idI [symmetric])
qed simp

lemma UpdateResourceState_step:
  assumes "distinct (map vr_Id (vc_ResourceList c))"
  shows "(case GetResourceFromListUnsafe c i of None \<Rightarrow> c | Some r \<Rightarrow> with_resource i (resource_state b f) c)
    = c\<lparr>vc_ResourceList := map (\<lambda>r. if vr_Id r = i then resource_state b f r else r) (vc_ResourceList c)\<rparr>"
proof (cases "resource_loop i (vc_ResourceList c)")
  case None
  then have "map (\<lambda>r. if vr_Id r = i then resource_state b f r else r) (vc_ResourceList c) = vc_ResourceList c"
    by (intro map_idI) (auto simp: resources.search_None_iff)
  with None show ?thesis by (simp add: GetResourceFromListUnsafe_def)
next
  case (Some r)
  with assms show ?thesis by (simp add: GetResourceFromListUnsafe_def with_resource_def upd_first_map)
qed

lemma UpdateResourceState_map:
  assumes "distinct (map vr_Id (vc_ResourceList c))"
  shows "UpdateResourceState is Busy FenceId c =
    c\<lparr>vc_ResourceList := map (\<lambda>r. if vr_Id r \<in> set is then resource_state Busy FenceId r else r) (vc_ResourceList c)\<rparr>"
  using assms
proof (induction "is" arbitrary: c)
  case Nil
  then show ?case by simp
next
  case (Cons i "is")
  let ?c = "c\<lparr>vc_ResourceList := map (\<lambda>r. if vr_Id r = i then resource_state Busy FenceId r else r) (vc_ResourceList c)\<rparr>"
  have "map vr_Id (vc_ResourceList ?c) = map vr_Id (vc_ResourceList c)" by simp
  with Cons.prems have "distinct (map vr_Id (vc_ResourceList ?c))" by (simp only:)
  from Cons.IH [OF this] show ?case
    by (auto simp: UpdateResourceState_step [OF Cons.prems] intro!: map_cong)
qed

text \<open>C32: marking the resources of a list of handles is marking each resource of the context
  whose id is in the list, once: neither the order of the handles, nor repeated handles, nor
  handles of resources that are gone matter.\<close>

theorem UpdateResourceState_reference:
  assumes "distinct (map vr_Id (vc_ResourceList c))"
  shows "UpdateResourceState is Busy FenceId c =
    c\<lparr>vc_ResourceList := map (\<lambda>r. if vr_Id r \<in> set is then resource_state Busy FenceId r else r) (vc_ResourceList c)\<rparr>"
  using assms by (rule UpdateResourceState_map)

theorem UpdateResourceState_reference_witness:
  "map vr_StateEvent (vc_ResourceList (UpdateResourceState [1, 9, 3, 1] True 0 sample_context)) = [False, False, False]
   \<and> map vr_StateEvent (vc_ResourceList (UpdateResourceState [2, 3] False 5 sample_context)) = [True, True, True]"
proof -
  have "distinct (map vr_Id (vc_ResourceList sample_context))"
    by (simp add: sample_context_def sample_blob_def sample_busy_def sample_resource_def)
  from UpdateResourceState_reference [OF this] show ?thesis
    by (simp add: sample_context_def sample_blob_def sample_busy_def sample_resource_def resource_state_def
        del: UpdateResourceState.simps)
qed

subsection \<open>Waiting\<close>

lemma CtlWait_eq:
  assumes "takes_input r (encode_drm_3d_wait cmd)" and "has_output r 4" and "caller r d c"
  shows "CtlWait e r d =
    (case GetResourceFromListUnsafe c (dwt_handle cmd) of
       None \<Rightarrow> Some (STATUS_UNSUCCESSFUL, 4, rq_out r, d)
     | Some res \<Rightarrow>
         if vr_StateEvent res then
           Some (if dwt_flags cmd AND VIRTGPU_WAIT_NOWAIT \<noteq> 0 then rq_out_status r else STATUS_SUCCESS, 4, le32 0, d)
         else if dwt_flags cmd AND VIRTGPU_WAIT_NOWAIT \<noteq> 0 then Some (rq_out_status r, 4, le32 1, d)
         else None)"
  using assms
  by (simp add: CtlWait_unfold frame_passed takes_input_def KeWait_def Let_def split: option.split)

subsection \<open>Fences\<close>

text \<open>A completed submission whose handles name a resource.\<close>

definition completes :: "vgpu_buffer \<Rightarrow> u32 \<Rightarrow> u32 list \<Rightarrow> u64 \<Rightarrow> bool" where
  "completes b ctx hs f \<longleftrightarrow> is_submit (bf_cmd b) \<and> hdr_ctx_id (cmd_hdr (bf_cmd b)) = ctx
     \<and> hdr_fence_id (cmd_hdr (bf_cmd b)) = f \<and> bf_ResourceIds b = Some hs
     \<and> unat (bf_ResourceIdsCount b) = length hs"

lemma complete_submit_context:
  assumes "completes b ctx hs f" and "context_loop ctx (g_VirglContextList d) = Some c"
  shows "g_VirglContextList (complete_buffer e b resp d)
    = upd_first (\<lambda>c. vc_Id c = ctx) (UpdateResourceState hs False f) (g_VirglContextList d)"
proof -
  have "hdr_type (cmd_hdr (bf_cmd b)) = ctrl_type_code VIRTIO_GPU_CMD_SUBMIT_3D" "vc_Id c = ctx"
    using assms contexts.search_SomeD [OF assms(2)] by (auto simp: completes_def is_submit_def)
  with assms show ?thesis
    by (simp add: complete_buffer_def completes_def GetVirglContextFromListUnsafe_def KeSetEvent_def Let_def
        del: ctrl_type_code.simps UpdateResourceState.simps)
qed

lemma complete_submit_resource:
  assumes "completes b ctx hs f" and "context_loop ctx (g_VirglContextList d) = Some c"
    and "distinct (map vr_Id (vc_ResourceList c))" and "resource_loop i (vc_ResourceList c) = Some res" and "i \<in> set hs"
  shows "\<exists>c'. context_loop ctx (g_VirglContextList (complete_buffer e b resp d)) = Some c' \<and> vc_Id c' = ctx
     \<and> resource_loop i (vc_ResourceList c') = Some (resource_state False f res)"
proof -
  let ?c = "UpdateResourceState hs False f c"
  have "resource_loop i (map (\<lambda>r. if vr_Id r \<in> set hs then resource_state False f r else r) rs)
      = (if i \<in> set hs then map_option (resource_state False f) (resource_loop i rs) else resource_loop i rs)" for rs
    by (induction rs) auto
  then have "resource_loop i (vc_ResourceList ?c) = Some (resource_state False f res)"
    using assms(3-5) by (simp add: UpdateResourceState_map)
  moreover have "context_loop ctx (g_VirglContextList (complete_buffer e b resp d)) = Some ?c"
    using contexts.search_update [of "UpdateResourceState hs False f" ctx ctx] assms(2)
    by (simp add: complete_submit_context [OF assms(1,2)])
  moreover have "vc_Id ?c = ctx" using contexts.search_SomeD [OF assms(2)] by simp
  ultimately show ?thesis by blast
qed

text \<open>C19: when a submission with fence \<open>f\<close> is complete, a process that waits for a resource the
  submission named returns, provided no later fence has been put on the resource; if a later
  one has, the wait goes on.\<close>

theorem fence_completion_wakes:
  assumes "completes b (rq_pid r) hs f" and "f \<noteq> 0" and "caller r d c"
    and "distinct (map vr_Id (vc_ResourceList c))"
    and "GetResourceFromListUnsafe c (dwt_handle cmd) = Some res" and "dwt_handle cmd \<in> set hs"
    and "\<not> vr_StateEvent res" and "dwt_flags cmd = 0"
    and "takes_input r (encode_drm_3d_wait cmd)" and "has_output r 4"
  shows "CtlWait e r (complete_buffer e b resp d) =
    (if vr_FenceId res \<le> f then Some (STATUS_SUCCESS, 4, le32 0, complete_buffer e b resp d) else None)"
proof -
  note c = callerD(2) [OF assms(3)]
  from complete_submit_resource [OF assms(1) c assms(4) _ assms(6), of res] assms(5) obtain c' where
    c': "context_loop (rq_pid r) (g_VirglContextList (complete_buffer e b resp d)) = Some c'"
      "resource_loop (dwt_handle cmd) (vc_ResourceList c') = Some (resource_state False f res)"
    by (auto simp: GetResourceFromListUnsafe_def)
  then have "caller r (complete_buffer e b resp d) c'"
    by (simp add: caller_def GetVirglContextFromListUnsafe_def)
  from CtlWait_eq [OF assms(9,10) this] assms(2,7,8) c'(2) show ?thesis
    by (simp add: GetResourceFromListUnsafe_def resource_state_def)
qed

text \<open>C31: when a submission without a fence that names a resource completes, the next wait for that
  resource returns at once, whatever fence the resource carries: also while a submission with a fence
  that names the same resource, and made it busy, is still with the host.\<close>

theorem unfenced_completion_ends_waits:
  assumes "completes b (rq_pid r) hs 0" and "caller r d c"
    and "distinct (map vr_Id (vc_ResourceList c))"
    and "GetResourceFromListUnsafe c (dwt_handle cmd) = Some res" and "dwt_handle cmd \<in> set hs"
    and "dwt_flags cmd = 0" and "takes_input r (encode_drm_3d_wait cmd)" and "has_output r 4"
  shows "CtlWait e r (complete_buffer e b resp d) = Some (STATUS_SUCCESS, 4, le32 0, complete_buffer e b resp d)"
proof -
  note c = callerD(2) [OF assms(2)]
  from complete_submit_resource [OF assms(1) c assms(3) _ assms(5), of res] assms(4) obtain c' where
    c': "context_loop (rq_pid r) (g_VirglContextList (complete_buffer e b resp d)) = Some c'"
      "resource_loop (dwt_handle cmd) (vc_ResourceList c') = Some (resource_state False 0 res)"
    by (auto simp: GetResourceFromListUnsafe_def)
  then have "caller r (complete_buffer e b resp d) c'"
    by (simp add: caller_def GetVirglContextFromListUnsafe_def)
  from CtlWait_eq [OF assms(7,8) this] assms(6) c'(2) show ?thesis
    by (simp add: GetResourceFromListUnsafe_def resource_state_def)
qed

definition sample_submit :: "u64 \<Rightarrow> vgpu_buffer" where
  "sample_submit f = sample_lookaside
     \<lparr>bf_pBuf := 0x8001, bf_cmd := Cmd_cmd_submit (zero_cmd_submit
        \<lparr>sb_hdr := set_fence f (hdr_for VIRTIO_GPU_CMD_SUBMIT_3D 7), sb_size := 16\<rparr>),
      bf_pDataBuf := 0x103000, bf_DataBufSize := 0x1000, bf_ResourceIds := Some [2, 1],
      bf_ResourceIdsCount := 2, bf_FenceObject := 0\<rparr>"

definition sample_response :: virtio_gpu_resp_map_info where
  "sample_response = \<lparr>rmi_hdr = zero_hdr, rmi_map_info = 0, rmi_gpa = 0x1000, rmi_size = 0x2000, rmi_padding = 0\<rparr>"

lemma sample_completes: "completes (sample_submit f) 7 [2, 1] f"
  by (simp add: completes_def sample_submit_def is_submit_def del: ctrl_type_code.simps)

lemma sample_distinct: "distinct (map vr_Id (vc_ResourceList sample_context))"
  by (simp add: sample_context_def sample_blob_def sample_busy_def sample_resource_def)

lemma sample_lookup:
  "GetResourceFromListUnsafe sample_context 2 = Some sample_busy"
  "GetResourceFromListUnsafe sample_context 1 = Some sample_resource"
  "GetResourceFromListUnsafe sample_context 3 = Some sample_blob"
  "GetResourceFromListUnsafe sample_context 9 = None"
  by (simp_all add: GetResourceFromListUnsafe_def sample_context_def sample_blob_def sample_busy_def sample_resource_def)

theorem fence_completion_wakes_witness:
  "CtlWait sample_env (sample_request (encode_drm_3d_wait \<lparr>dwt_handle = 2, dwt_flags = 0\<rparr>) 4)
       (complete_buffer sample_env (sample_submit 5) sample_response sample_driver)
     = Some (STATUS_SUCCESS, 4, [0, 0, 0, 0], complete_buffer sample_env (sample_submit 5) sample_response sample_driver)
   \<and> CtlWait sample_env (sample_request (encode_drm_3d_wait \<lparr>dwt_handle = 2, dwt_flags = 0\<rparr>) 4)
       (complete_buffer sample_env (sample_submit 4) sample_response sample_driver) = None"
proof -
  let ?cmd = "\<lparr>dwt_handle = 2, dwt_flags = 0\<rparr>"
  have "CtlWait sample_env (sample_request (encode_drm_3d_wait ?cmd) 4)
      (complete_buffer sample_env (sample_submit f) sample_response sample_driver)
    = (if vr_FenceId sample_busy \<le> f
       then Some (STATUS_SUCCESS, 4, le32 0, complete_buffer sample_env (sample_submit f) sample_response sample_driver) else None)"
    if "f \<noteq> 0" for f
    by (rule fence_completion_wakes [where hs = "[2, 1]" and c = sample_context and cmd = ?cmd])
      (simp_all add: sample_completes that sample_caller sample_distinct sample_lookup sample_input sample_busy_def)
  from this [of 5] this [of 4] show ?thesis by (simp add: sample_busy_def le32_def)
qed

theorem unfenced_completion_ends_waits_witness:
  "CtlWait sample_env (sample_request (encode_drm_3d_wait \<lparr>dwt_handle = 2, dwt_flags = 0\<rparr>) 4) sample_driver = None
   \<and> CtlWait sample_env (sample_request (encode_drm_3d_wait \<lparr>dwt_handle = 2, dwt_flags = 0\<rparr>) 4)
       (complete_buffer sample_env (sample_submit 0) sample_response sample_driver)
     = Some (STATUS_SUCCESS, 4, [0, 0, 0, 0], complete_buffer sample_env (sample_submit 0) sample_response sample_driver)"
proof -
  let ?cmd = "\<lparr>dwt_handle = 2, dwt_flags = 0\<rparr>"
  have "CtlWait sample_env (sample_request (encode_drm_3d_wait ?cmd) 4)
      (complete_buffer sample_env (sample_submit 0) sample_response sample_driver)
    = Some (STATUS_SUCCESS, 4, le32 0, complete_buffer sample_env (sample_submit 0) sample_response sample_driver)"
    by (rule unfenced_completion_ends_waits [where hs = "[2, 1]" and c = sample_context and res = sample_busy and cmd = ?cmd])
      (simp_all add: sample_completes sample_caller sample_distinct sample_lookup sample_input)
  moreover have "CtlWait sample_env (sample_request (encode_drm_3d_wait ?cmd) 4) sample_driver = None"
    by (simp add: CtlWait_eq [OF sample_input sample_caller] sample_lookup sample_busy_def)
  ultimately show ?thesis by (simp add: le32_def)
qed

subsection \<open>Sharing a resource\<close>

text \<open>The state after a resource of a context has been changed.\<close>

lemma change_lookup:
  assumes "caller r d c" and "resource_loop h (vc_ResourceList c) = Some res" and "\<And>x. vr_Id (f x) = vr_Id x"
    and "rq_pid r' = rq_pid r"
  shows "\<exists>c'. caller r' (with_context (vc_Id c) (with_resource h f) (d\<lparr>k_mdls := ms, k_umaps := us\<rparr>)) c'
    \<and> resource_loop h (vc_ResourceList c') = Some (f res)"
proof -
  let ?c = "with_resource h f c"
  have "resource_loop h (vc_ResourceList ?c) = Some (f res)"
    using resources.search_update [of f h h "vc_ResourceList c"] assms(2,3) by (simp add: with_resource_def)
  moreover have "vc_Id (with_resource h f x) = vc_Id x" for x by (simp add: with_resource_def)
  then have "caller r' (with_context (vc_Id c) (with_resource h f) (d\<lparr>k_mdls := ms, k_umaps := us\<rparr>)) ?c"
    using contexts.search_update [of "with_resource h f" "rq_pid r" "rq_pid r" "g_VirglContextList d"]
      callerD(2,3) [OF assms(1)] assms(4)
    by (simp add: caller_def GetVirglContextFromListUnsafe_def)
  ultimately show ?thesis by blast
qed

text \<open>C33: mapping an idle buffer gives the process the address the kernel mapped it at, with one
  MDL allocated; mapping it again, with whatever kernel answers, gives the same address and
  changes nothing.\<close>

theorem map_is_stable:
  assumes "takes_input r (encode_drm_map cmd)" and "has_output r 8" and "caller r d c"
    and "GetResourceFromList c (dmp_handle cmd) = Some res" and "vr_bForBuffer res" and "vr_StateEvent res"
    and "sh_pMdl (mb_Share (vr_Buffer res)) = 0" and "rq_mdl r \<noteq> 0" and "rq_map r = Some a" and "a \<noteq> 0"
    and "md_VirtualAddress (mb_Memory (vr_Buffer res)) \<noteq> 0" and "mb_Size (vr_Buffer res) \<noteq> 0"
    and "takes_input r' (encode_drm_map cmd)" and "has_output r' 8" and "rq_pid r' = rq_pid r"
  shows "\<exists>d'. CtlMap e r d = Some (rq_out_status r, 8, le64 a, d') \<and> k_mdls d' = rq_mdl r # k_mdls d
    \<and> CtlMap e r' d' = Some (rq_out_status r', 8, le64 a, d')"
proof -
  let ?sh = "(mb_Share (vr_Buffer res))\<lparr>sh_KernelAddress := md_VirtualAddress (mb_Memory (vr_Buffer res)),
      sh_Size := mb_Size (vr_Buffer res), sh_pMdl := rq_mdl r, sh_UserAdderss := a\<rparr>"
  let ?d = "with_context (vc_Id c) (with_resource (dmp_handle cmd) (set_share ?sh))
    (d\<lparr>k_mdls := rq_mdl r # k_mdls d, k_umaps := (a, rq_mdl r) # k_umaps d\<rparr>)"
  note look = GetResourceFromList_def GetResourceFromListUnsafe_def
  have r: "resource_loop (dmp_handle cmd) (vc_ResourceList c) = Some res" and id: "vr_Id res = dmp_handle cmd"
    using assms(4) resources.search_SomeD by (auto simp: look)
  have 1: "CtlMap e r d = Some (rq_out_status r, 8, le64 a, ?d)"
    using assms(1-12) r id
    by (simp add: CtlMap_unfold frame_passed takes_input_def look CreateUserShareMemory_def Let_def)
  have "vr_Id (set_share ?sh x) = vr_Id x" for x by (simp add: set_share_def)
  from change_lookup [OF assms(3) r this assms(15)] obtain c' where
    "caller r' ?d c'" "resource_loop (dmp_handle cmd) (vc_ResourceList c') = Some (set_share ?sh res)" by blast
  with assms(5,8,13,14) have "CtlMap e r' ?d = Some (rq_out_status r', 8, le64 a, ?d)"
    by (simp add: CtlMap_unfold frame_passed takes_input_def look set_share_def Let_def)
  with 1 show ?thesis by (auto simp: with_context_def)
qed

theorem map_is_stable_witness:
  "\<exists>d'. CtlMap sample_env (sample_request (encode_drm_map \<lparr>dmp_offset = 0, dmp_handle = 1, dmp_pad = 0\<rparr>) 8) sample_driver
     = Some (STATUS_SUCCESS, 8, le64 0x7000, d') \<and> k_mdls d' = [0x5000]
   \<and> CtlMap sample_env (sample_request (encode_drm_map \<lparr>dmp_offset = 0, dmp_handle = 1, dmp_pad = 0\<rparr>) 8) d'
     = Some (STATUS_SUCCESS, 8, le64 0x7000, d')"
  using map_is_stable [of "sample_request (encode_drm_map \<lparr>dmp_offset = 0, dmp_handle = 1, dmp_pad = 0\<rparr>) 8"
      "\<lparr>dmp_offset = 0, dmp_handle = 1, dmp_pad = 0\<rparr>" sample_driver sample_context sample_resource "0x7000"
      "sample_request (encode_drm_map \<lparr>dmp_offset = 0, dmp_handle = 1, dmp_pad = 0\<rparr>) 8" sample_env]
  by (simp add: sample_input sample_caller GetResourceFromList_def sample_lookup)
    (simp add: sample_resource_def sample_buffer_def)

subsection \<open>Creating resources\<close>

lemma caller_update:
  assumes "caller r d c" and "\<And>c. vc_Id (f c) = vc_Id c" and "g_VirglContextList d1 = g_VirglContextList d"
  shows "caller r (with_context (vc_Id c) f d1) (f c)"
  using contexts.search_update [of f "rq_pid r" "rq_pid r" "g_VirglContextList d"] callerD(2,3) [OF assms(1)] assms(2,3)
  by (simp add: caller_def GetVirglContextFromListUnsafe_def)

text \<open>C23: a successful creation of a buffer gives the process a resource with the next id, idle and
  not shared, whose memory is the region the allocator returned for the size rounded up to
  pages, all of it zero and the rest of the memory untouched; the host is told to create the
  resource and then to attach that memory, and nothing else.\<close>

theorem create_resource_works:
  assumes "takes_input r (encode_drm_resource_create p)" and "has_output r 8" and "caller r d c"
    and "rq_resource r = Some stale" and "drc_size p \<noteq> 1"
    and "GetIdFromIdrWithoutCache (g_Idrs d) VIRGL_RESOURCE_ID_TYPE 4 = (i, idrs)"
    and "sz = (if drc_size p = 0 then PAGE_SIZE else ucast (ROUND_UP (drc_size p) PAGE_SIZE))"
    and "AllocateVgpuMemory (en_rtl e) sz (g_Memory d) = (Some md, m)"
    and "driver_inv L X Ps d" and "env_ok e" and "accepts_all (en_kernel e)"
  shows "\<exists>res d' es. CtlCreateResource e r d = Some (rq_out_status r, 8, create_resp (ucast i), d')
    \<and> caller r d' (insert_resource res c) \<and> vr_Id res = ucast i \<and> vr_bForBuffer res \<and> \<not> vr_bForBlob res
    \<and> vr_StateEvent res \<and> vr_FenceId res = 0 \<and> sh_pMdl (mb_Share (vr_Buffer res)) = 0
    \<and> mb_Memory (vr_Buffer res) = md \<and> mb_Size (vr_Buffer res) = sz
    \<and> g_Memory d' = m \<and> g_Idrs d' = idrs
    \<and> (\<forall>a. k_mem d' a = (if a - md_VirtualAddress md < sz then 0 else k_mem d a))
    \<and> dv_log (dr_dev d') = dv_log (dr_dev d) @ es
    \<and> log_matches [spec_of (Call_Create3DResource (vc_Id c) (ucast i) (create_param p) 0),
         spec_of (Call_AttachResourceBacking (vc_Id c) res)] es"
proof -
  let ?k = "en_kernel e"
  define res where "res = stale\<lparr>vr_Id := ucast i, vr_FenceId := 0, vr_StateEvent := True, vr_bForBuffer := True,
    vr_bForBlob := False, vr_Buffer := (vr_Buffer stale)\<lparr>mb_Share := (mb_Share (vr_Buffer stale))\<lparr>sh_pMdl := 0\<rparr>,
      mb_Size := sz, mb_Memory := md\<rparr>\<rparr>"
  define calls where "calls = [Call_Create3DResource (vc_Id c) (ucast i) (create_param p) 0,
    Call_AttachResourceBacking (vc_Id c) res]"
  define d1 where "d1 = d\<lparr>k_resources_out := Suc (k_resources_out d), g_Idrs := idrs, g_Memory := m,
    k_mem := zero_bytes (md_VirtualAddress md) sz (k_mem d), dr_dev := runs (run_call ?k) calls (dr_dev d)\<rparr>"
  let ?d = "with_context (vc_Id c) (insert_resource res) d1"
  have "CtlCreateResource e r d = Some (rq_out_status r, 8, create_resp (ucast i), ?d)"
    using assms(1-8)
    by (simp add: CtlCreateResource_unfold frame_passed takes_input_def Let_def res_def d1_def calls_def on_dev_def)
  moreover have "caller r ?d (insert_resource res c)"
    by (rule caller_update [OF assms(3)]) (simp_all add: d1_def)
  moreover have "device_acct L (dr_dev d)" "pool_ok ?k" using assms(9,10) by (simp_all add: driver_inv_def env_ok_def)
  from gpu.runs_log [OF assms(11) this, of calls] obtain es where
    "dv_log (dr_dev ?d) = dv_log (dr_dev d) @ es" "log_matches (map spec_of calls) es" by (auto simp: d1_def)
  moreover have "k_mem ?d = zero_bytes (md_VirtualAddress md) sz (k_mem d)"
    by (simp add: d1_def with_context_def)
  ultimately show ?thesis
    by (intro exI [of _ res] exI [of _ ?d] exI [of _ es]) (simp add: res_def calls_def d1_def zero_bytes_def)
qed

text \<open>C30: a successful creation of a blob gives the process a busy resource with the next id, and
  asks the host to create the blob, with the size rounded up to pages, and to map it.\<close>

theorem create_blob_works:
  assumes "takes_input r (encode_drm_resource_create_blob p)" and "has_output r 8" and "caller r d c"
    and "rq_resource r = Some stale"
    and "GetIdFromIdrWithoutCache (g_Idrs d) VIRGL_RESOURCE_ID_TYPE 4 = (i, idrs)"
    and "driver_inv L X Ps d" and "env_ok e" and "accepts_all (en_kernel e)"
  shows "\<exists>res d' es. CtlCreateBlobResource e r d = Some (STATUS_SUCCESS, 8, create_resp (ucast i), d')
    \<and> caller r d' (insert_resource res c) \<and> vr_Id res = ucast i \<and> vr_bForBuffer res \<and> vr_bForBlob res
    \<and> \<not> vr_StateEvent res \<and> vr_FenceId res = 0 \<and> sh_pMdl (mb_Share (vr_Buffer res)) = 0
    \<and> g_Memory d' = g_Memory d \<and> g_Idrs d' = idrs \<and> k_mem d' = k_mem d
    \<and> dv_log (dr_dev d') = dv_log (dr_dev d) @ es
    \<and> log_matches [spec_of (Call_CreateBlobResource (vc_Id c) (ucast i) (blob_param p) 0),
         spec_of (Call_MapBlobResource (vc_Id c) (ucast i) 0)] es"
proof -
  let ?k = "en_kernel e"
  define res where "res = stale\<lparr>vr_bForBlob := True, vr_bForBuffer := True,
    vr_Buffer := (vr_Buffer stale)\<lparr>mb_Share := (mb_Share (vr_Buffer stale))\<lparr>sh_pMdl := 0\<rparr>\<rparr>,
    vr_FenceId := 0, vr_Id := ucast i, vr_StateEvent := False\<rparr>"
  define calls where "calls = [Call_CreateBlobResource (vc_Id c) (ucast i) (blob_param p) 0,
    Call_MapBlobResource (vc_Id c) (ucast i) 0]"
  define d1 where "d1 = d\<lparr>k_resources_out := Suc (k_resources_out d), g_Idrs := idrs,
    dr_dev := runs (run_call ?k) calls (dr_dev d)\<rparr>"
  let ?d = "with_context (vc_Id c) (insert_resource res) d1"
  have "CtlCreateBlobResource e r d = Some (STATUS_SUCCESS, 8, create_resp (ucast i), ?d)"
    using assms(1-5)
    by (simp add: CtlCreateBlobResource_unfold frame_passed takes_input_def Let_def res_def d1_def calls_def
        on_dev_def with_context_def)
  moreover have "caller r ?d (insert_resource res c)"
    by (rule caller_update [OF assms(3)]) (simp_all add: d1_def)
  moreover have "device_acct L (dr_dev d)" "pool_ok ?k" using assms(6,7) by (simp_all add: driver_inv_def env_ok_def)
  from gpu.runs_log [OF assms(8) this, of calls] obtain es where
    "dv_log (dr_dev ?d) = dv_log (dr_dev d) @ es" "log_matches (map spec_of calls) es" by (auto simp: d1_def)
  moreover have "k_mem ?d = k_mem d" by (simp add: d1_def with_context_def)
  ultimately show ?thesis
    by (intro exI [of _ res] exI [of _ ?d] exI [of _ es]) (simp add: res_def calls_def d1_def)
qed

text \<open>C39: when the vgpu memory has no room, the creation of a buffer fails after the entry was
  taken from the lookaside list, the id was drawn and the host was told to create the resource;
  none of it is undone, and no list names the resource.\<close>

theorem create_without_memory_leaks:
  assumes "takes_input r (encode_drm_resource_create p)" and "has_output r 8" and "caller r d c"
    and "rq_resource r = Some stale" and "drc_size p \<noteq> 1"
    and "GetIdFromIdrWithoutCache (g_Idrs d) VIRGL_RESOURCE_ID_TYPE 4 = (i, idrs)"
    and "sz = (if drc_size p = 0 then PAGE_SIZE else ucast (ROUND_UP (drc_size p) PAGE_SIZE))"
    and "AllocateVgpuMemory (en_rtl e) sz (g_Memory d) = (None, m)"
    and "driver_inv L X Ps d" and "env_ok e" and "accepts_all (en_kernel e)"
  shows "\<exists>d' es. CtlCreateResource e r d = Some (STATUS_INSUFFICIENT_RESOURCES, 8, rq_out r, d')
    \<and> g_VirglContextList d' = g_VirglContextList d \<and> g_Memory d' = g_Memory d
    \<and> k_resources_out d' = Suc (k_resources_out d) \<and> g_Idrs d' = idrs
    \<and> dv_log (dr_dev d') = dv_log (dr_dev d) @ es
    \<and> log_matches [spec_of (Call_Create3DResource (vc_Id c) (ucast i) (create_param p) 0)] es"
proof -
  let ?k = "en_kernel e" and ?calls = "[Call_Create3DResource (vc_Id c) (ucast i) (create_param p) 0]"
  let ?d = "d\<lparr>k_resources_out := Suc (k_resources_out d), g_Idrs := idrs, g_Memory := m,
    dr_dev := runs (run_call ?k) ?calls (dr_dev d)\<rparr>"
  have "CtlCreateResource e r d = Some (STATUS_INSUFFICIENT_RESOURCES, 8, rq_out r, ?d)"
    using assms(1-8)
    by (simp add: CtlCreateResource_unfold frame_passed takes_input_def Let_def on_dev_def)
  moreover have "m = g_Memory d" by (rule alloc_None_same [OF assms(8)])
  moreover have "device_acct L (dr_dev d)" "pool_ok ?k" using assms(9,10) by (simp_all add: driver_inv_def env_ok_def)
  from gpu.runs_log [OF assms(11) this, of ?calls] obtain es where
    "dv_log (dr_dev ?d) = dv_log (dr_dev d) @ es" "log_matches (map spec_of ?calls) es" by auto
  ultimately show ?thesis
    by (intro exI [of _ ?d] exI [of _ es]) simp
qed

text \<open>The requests the creations are exercised on: a buffer of 0x1001 bytes, which takes two pages,
  one of 0x10000 bytes, for which there is no room, and a blob.\<close>

definition sample_create :: "u32 \<Rightarrow> drm_virtgpu_resource_create" where
  "sample_create sz = \<lparr>drc_target = 0, drc_format = 1, drc_bind = 2, drc_width = 16, drc_height = 16,
     drc_depth = 1, drc_array_size = 1, drc_last_level = 0, drc_nr_samples = 0, drc_flags = 0,
     drc_bo_handle = 0, drc_res_handle = 0, drc_size = sz, drc_stride = 0\<rparr>"

definition sample_create_blob :: drm_virtgpu_resource_create_blob where
  "sample_create_blob = decode_drm_resource_create_blob (replicate 72 0)"

definition sample_grown :: vgpu_memory where
  "sample_grown = sample_state [True, True, True, True, True, False, False, False] 0x3000 5"

lemma sample_allocs:
  "AllocateVgpuMemory rtl_first_fit 0x2000 (g_Memory sample_driver)
     = (Some \<lparr>md_VirtualAddress = 0x103000, md_PhysicalAddress = 0x203000\<rparr>, sample_grown)"
  "AllocateVgpuMemory rtl_first_fit 0x10000 (g_Memory sample_driver) = (None, g_Memory sample_driver)"
  unfolding sample_driver_simps sample_grown_def by code_simp+

lemma sample_draw:
  "GetIdFromIdrWithoutCache (g_Idrs sample_driver) VIRGL_RESOURCE_ID_TYPE 4
     = (4, [\<lparr>idr_Id = 5, idr_FreeIdList = [], idr_Initilaized = True\<rparr>,
            \<lparr>idr_Id = 6, idr_FreeIdList = [], idr_Initilaized = True\<rparr>])"
  by (simp add: sample_driver_def GetIdFromIdrWithoutCache_def idr_consts copy_low_def Let_def)

lemma sample_create_sizes:
  "drc_size (sample_create sz) = sz"
  "ucast (ROUND_UP (0x1001 :: u32) PAGE_SIZE) = (0x2000 :: u64)" "ucast (ROUND_UP (0x10000 :: u32) PAGE_SIZE) = (0x10000 :: u64)"
  by (simp_all add: sample_create_def ROUND_UP_def)

lemma log_matches_length: "log_matches sps es \<Longrightarrow> length es = 2 * length sps"
  by (induction sps es rule: log_matches.induct) auto

theorem create_resource_works_witness:
  "\<exists>(res :: virgl_resource) d'. CtlCreateResource sample_env (sample_request (encode_drm_resource_create (sample_create 0x1001)) 8) sample_driver
       = Some (STATUS_SUCCESS, 8, create_resp 4, d')
     \<and> vr_Id res = 4 \<and> vr_StateEvent res \<and> mb_Size (vr_Buffer res) = 0x2000
     \<and> k_mem d' 0x103000 = 0 \<and> k_mem d' 0x105000 = 0xFF \<and> length (dv_log (dr_dev d')) = 4"
proof -
  let ?r = "sample_request (encode_drm_resource_create (sample_create 0x1001)) 8"
  have "takes_input ?r (encode_drm_resource_create (sample_create 0x1001))" "has_output ?r 8"
    "caller ?r sample_driver sample_context" by (simp_all add: sample_input sample_caller)
  from create_resource_works [OF this _ _ sample_draw refl _ sample_driver_inv sample_env_ok, of sample_blob
      "\<lparr>md_VirtualAddress = 0x103000, md_PhysicalAddress = 0x203000\<rparr>" sample_grown] sample_allocs(1)
  obtain res d' es where
    1: "CtlCreateResource sample_env ?r sample_driver = Some (STATUS_SUCCESS, 8, create_resp 4, d')"
    "vr_Id res = 4" "vr_StateEvent res" "mb_Size (vr_Buffer res) = 0x2000"
    "\<forall>a. k_mem d' a = (if a - 0x103000 < 0x2000 then 0 else k_mem sample_driver a)"
    "dv_log (dr_dev d') = dv_log (dr_dev sample_driver) @ es" and
    2: "log_matches [spec_of (Call_Create3DResource (vc_Id sample_context) 4 (create_param (sample_create 0x1001)) 0),
         spec_of (Call_AttachResourceBacking (vc_Id sample_context) res)] es"
    by (auto simp: sample_create_sizes sample_env_def simp del: spec_of.simps log_matches.simps)
  have "length es = 4" using log_matches_length [OF 2] by simp
  with 1 show ?thesis
    by (intro exI [of _ res] exI [of _ d']) (simp add: sample_device_def sample_driver_def sample_start_def)
qed

theorem create_blob_works_witness:
  "\<exists>(res :: virgl_resource) d'. CtlCreateBlobResource sample_env (sample_request (encode_drm_resource_create_blob sample_create_blob) 8) sample_driver
       = Some (STATUS_SUCCESS, 8, create_resp 4, d')
     \<and> vr_Id res = 4 \<and> \<not> vr_StateEvent res \<and> vr_bForBlob res \<and> length (dv_log (dr_dev d')) = 4"
proof -
  let ?r = "sample_request (encode_drm_resource_create_blob sample_create_blob) 8"
  have "takes_input ?r (encode_drm_resource_create_blob sample_create_blob)" "has_output ?r 8"
    "caller ?r sample_driver sample_context" by (simp_all add: sample_input sample_caller)
  from create_blob_works [OF this sample_simps(7) sample_draw sample_driver_inv sample_env_ok] show ?thesis
  proof (elim exE conjE, goal_cases)
    case (1 res d' es)
    have "length es = 4" using log_matches_length [OF 1(13)] by simp
    with 1 show ?case
      by (intro exI [of _ res] exI [of _ d']) (simp add: sample_device_def)
  qed
qed

theorem create_without_memory_leaks_witness:
  "\<exists>d'. CtlCreateResource sample_env (sample_request (encode_drm_resource_create (sample_create 0x10000)) 8) sample_driver
       = Some (STATUS_INSUFFICIENT_RESOURCES, 8, replicate 8 0, d')
     \<and> g_VirglContextList d' = [sample_context] \<and> k_resources_out d' = 4 \<and> length (dv_log (dr_dev d')) = 2"
proof -
  let ?r = "sample_request (encode_drm_resource_create (sample_create 0x10000)) 8"
  have "takes_input ?r (encode_drm_resource_create (sample_create 0x10000))" "has_output ?r 8"
    "caller ?r sample_driver sample_context" by (simp_all add: sample_input sample_caller)
  from create_without_memory_leaks [OF this _ _ sample_draw refl _ sample_driver_inv sample_env_ok, of sample_blob
      "g_Memory sample_driver"] sample_allocs(2)
  obtain d' es where
    1: "CtlCreateResource sample_env ?r sample_driver = Some (STATUS_INSUFFICIENT_RESOURCES, 8, replicate 8 0, d')"
    "g_VirglContextList d' = [sample_context]" "k_resources_out d' = 4"
    "dv_log (dr_dev d') = dv_log (dr_dev sample_driver) @ es" and
    2: "log_matches [spec_of (Call_Create3DResource (vc_Id sample_context) 4 (create_param (sample_create 0x10000)) 0)] es"
    by (auto simp: sample_create_sizes sample_env_def simp del: spec_of.simps log_matches.simps sample_driver_simps(5))
  have "length es = 2" using log_matches_length [OF 2] by simp
  with 1 show ?thesis by (intro exI [of _ d']) (simp add: sample_device_def)
qed

subsection \<open>Closing resources and destroying contexts\<close>

text \<open>The calls that delete a resource.\<close>

definition delete_calls :: "u32 \<Rightarrow> virgl_resource \<Rightarrow> gpu_call list" where
  "delete_calls ctx r =
     (if \<not> vr_bForBuffer r then []
      else if vr_bForBlob r then [Call_UnMapBlobResource ctx (vr_Id r) 0] else [Call_DetachResourceBacking r])
     @ [Call_UnrefResource ctx (vr_Id r)]"

text \<open>What deleting a resource does, when the resource is one the driver holds.\<close>

definition share_taken :: "virgl_resource \<Rightarrow> (u64 \<times> u64) list" where
  "share_taken r =
     (let sh = mb_Share (vr_Buffer r)
      in if vr_bForBuffer r \<and> sh_pMdl sh \<noteq> 0 \<and> sh_UserAdderss sh \<noteq> 0 then [(sh_UserAdderss sh, sh_pMdl sh)] else [])"

definition io_taken :: "virgl_resource \<Rightarrow> (u64 \<times> u64) list" where
  "io_taken r =
     (if vr_bForBuffer r \<and> vr_bForBlob r then [(md_VirtualAddress (mb_Memory (vr_Buffer r)), mb_Size (vr_Buffer r))] else [])"

definition mem_taken :: "virgl_resource \<Rightarrow> (u64 \<times> u64) list" where
  "mem_taken r =
     (if vr_bForBuffer r \<and> \<not> vr_bForBlob r
      then [(md_VirtualAddress (mb_Memory (vr_Buffer r)), mb_Size (vr_Buffer r))] else [])"

lemma unshare_fields [simp]:
  "g_Memory (DeleteUserShareMemory sh d) = g_Memory d"
  "g_VirglContextList (DeleteUserShareMemory sh d) = g_VirglContextList d"
  "k_resources_out (DeleteUserShareMemory sh d) = k_resources_out d" "k_mem (DeleteUserShareMemory sh d) = k_mem d"
  "k_iomaps (DeleteUserShareMemory sh d) = k_iomaps d" "k_freed (DeleteUserShareMemory sh d) = k_freed d"
  "dv_log (dr_dev (DeleteUserShareMemory sh d)) = dv_log (dr_dev d)"
  "k_mdls (DeleteUserShareMemory sh d) =
     (if sh_UserAdderss sh = 0 \<or> sh_pMdl sh = 0 then k_mdls d else remove1 (sh_pMdl sh) (k_mdls d))"
  "k_umaps (DeleteUserShareMemory sh d) =
     (if sh_UserAdderss sh = 0 \<or> sh_pMdl sh = 0 then k_umaps d else remove1 (sh_UserAdderss sh, sh_pMdl sh) (k_umaps d))"
  by (simp_all add: DeleteUserShareMemory_def MmUnmapLockedPages_def IoFreeMdl_def fault_at_def remove1_idem)

lemma unmap_io_fields [simp]:
  "g_Memory (MmUnmapIoSpace a n d) = g_Memory d" "g_VirglContextList (MmUnmapIoSpace a n d) = g_VirglContextList d"
  "k_resources_out (MmUnmapIoSpace a n d) = k_resources_out d" "k_mem (MmUnmapIoSpace a n d) = k_mem d"
  "k_mdls (MmUnmapIoSpace a n d) = k_mdls d" "k_umaps (MmUnmapIoSpace a n d) = k_umaps d"
  "k_freed (MmUnmapIoSpace a n d) = k_freed d" "dv_log (dr_dev (MmUnmapIoSpace a n d)) = dv_log (dr_dev d)"
  "k_iomaps (MmUnmapIoSpace a n d) = remove1 (a, n) (k_iomaps d)"
  by (simp_all add: MmUnmapIoSpace_def fault_at_def remove1_idem)

lemma DeleteResource_fields:
  "g_Memory (DeleteResource e ctx r d) = fold (\<lambda>(va, sz). FreeVgpuMemory (en_rtl e) va sz) (mem_taken r) (g_Memory d)"
  "g_VirglContextList (DeleteResource e ctx r d) = g_VirglContextList d"
  "k_resources_out (DeleteResource e ctx r d) = k_resources_out d" "k_mem (DeleteResource e ctx r d) = k_mem d"
  "k_freed (DeleteResource e ctx r d) = k_freed d"
  "k_mdls (DeleteResource e ctx r d) = fold remove1 (map snd (share_taken r)) (k_mdls d)"
  "k_umaps (DeleteResource e ctx r d) = fold remove1 (share_taken r) (k_umaps d)"
  "k_iomaps (DeleteResource e ctx r d) = fold remove1 (io_taken r) (k_iomaps d)"
  by (simp_all add: DeleteResource_def mem_taken_def share_taken_def io_taken_def Let_def)

lemma taken_mdls: "share_ok r \<Longrightarrow> mset (map snd (share_taken r)) = res_mdls r"
  by (auto simp: share_taken_def res_mdls_def share_ok_def Let_def)

lemma DeleteResource_mdls:
  assumes "driver_inv L X (r # Ps) d"
  shows "mset (k_mdls d) = mset (k_mdls (DeleteResource e ctx r d)) + res_mdls r"
proof -
  have "share_ok r" "res_mdls r \<subseteq># mset (k_mdls d)"
    using assms by (auto simp: driver_inv_def intro: subset_mset.trans [OF mset_subset_eq_add_right])
  moreover have "mset (k_mdls (DeleteResource e ctx r d)) = mset (k_mdls d) - mset (map snd (share_taken r))"
    by (simp add: DeleteResource_fields(6) share_taken_def Let_def)
  ultimately show ?thesis using taken_mdls [of r] by simp
qed

lemma DeleteResource_steps:
  assumes "driver_inv L X (r # Ps) d" and "pool_ok (en_kernel e)" and "accepts_all (en_kernel e)"
  shows "\<exists>es. dv_log (dr_dev (DeleteResource e ctx r d)) = dv_log (dr_dev d) @ es
      \<and> log_matches (map spec_of (delete_calls ctx r)) es"
proof -
  let ?k = "en_kernel e"
  have run: "device_acct L (run_call ?k c dv)"
    "\<exists>es. dv_log (run_call ?k c dv) = dv_log dv @ es \<and> (\<forall>sps es'. log_matches sps es' \<longrightarrow> log_matches (spec_of c # sps) (es @ es'))"
    if "device_acct L dv" for c dv
    using gpu.run_acct [OF that assms(2), of c] gpu.run_log [OF assms(3) that, of c] assms(3) by auto
  have last: "\<exists>es. dv_log (run_call ?k c dv) = dv_log dv @ es \<and> log_matches [spec_of c] es" if "device_acct L dv" for c dv
    using gpu.run_log [OF assms(3) that, of c] by (metis append_Nil2 log_matches.simps(1))
  have two: "\<exists>es. dv_log (run_call ?k c2 dv') = dv_log dv @ es \<and> log_matches [spec_of c1, spec_of c2] es"
    if a1: "device_acct L dv" and a2: "device_acct L dv'" and l: "dv_log dv' = dv_log (run_call ?k c1 dv)" for c1 c2 dv dv'
  proof -
    obtain es1 where 1: "dv_log (run_call ?k c1 dv) = dv_log dv @ es1"
      "\<forall>sps es'. log_matches sps es' \<longrightarrow> log_matches (spec_of c1 # sps) (es1 @ es')" using run(2) [OF a1] by blast
    obtain es2 where "dv_log (run_call ?k c2 dv') = dv_log dv' @ es2" "log_matches [spec_of c2] es2"
      using last [OF a2] by blast
    with 1 l show ?thesis by (intro exI [of _ "es1 @ es2"]) simp
  qed
  let ?da = "if sh_pMdl (mb_Share (vr_Buffer r)) \<noteq> 0 then DeleteUserShareMemory (mb_Share (vr_Buffer r)) d else d"
  have da: "device_acct L (dr_dev ?da)" if "vr_bForBuffer r"
    using inv_unshare [OF assms(1) that] unfolding driver_inv_def by blast
  have log: "dv_log (dr_dev ?da) = dv_log (dr_dev d)" by simp
  consider "\<not> vr_bForBuffer r" | "vr_bForBuffer r" "vr_bForBlob r" | "vr_bForBuffer r" "\<not> vr_bForBlob r" by blast
  then show ?thesis
  proof cases
    case 1
    have "device_acct L (dr_dev d)" using assms(1) by (simp add: driver_inv_def)
    from last [OF this, of "Call_UnrefResource ctx (vr_Id r)"] 1 show ?thesis
      by (simp add: DeleteResource_def delete_calls_def Let_def del: spec_of.simps log_matches.simps)
  next
    case 2
    let ?d1 = "on_dev (UnMapBlobResource ?k ctx (vr_Id r) 0) ?da"
    let ?d2 = "MmUnmapIoSpace (md_VirtualAddress (mb_Memory (vr_Buffer r))) (mb_Size (vr_Buffer r)) ?d1"
    have "device_acct L (dr_dev ?d1)"
      using run(1) [OF da [OF 2(1)], of "Call_UnMapBlobResource ctx (vr_Id r) 0"] by simp
    then have a2: "device_acct L (dr_dev ?d2)" by (simp add: MmUnmapIoSpace_def fault_at_def acct_fault)
    have "DeleteResource e ctx r d = on_dev (UnrefResource ?k ctx (vr_Id r)) ?d2"
      using 2 by (simp add: DeleteResource_def Let_def)
    with two [OF da [OF 2(1)] a2, of "Call_UnMapBlobResource ctx (vr_Id r) 0" "Call_UnrefResource ctx (vr_Id r)"] 2 log
    show ?thesis by (simp add: delete_calls_def del: spec_of.simps log_matches.simps if_split)
  next
    case 3
    let ?d1 = "on_dev (DetachResourceBacking ?k r) ?da"
    let ?d2 = "?d1\<lparr>g_Memory := FreeVgpuMemory (en_rtl e) (md_VirtualAddress (mb_Memory (vr_Buffer r))) (mb_Size (vr_Buffer r)) (g_Memory ?d1)\<rparr>"
    have a2: "device_acct L (dr_dev ?d2)" using run(1) [OF da [OF 3(1)], of "Call_DetachResourceBacking r"] by simp
    have "DeleteResource e ctx r d = on_dev (UnrefResource ?k ctx (vr_Id r)) ?d2"
      using 3 by (simp add: DeleteResource_def Let_def)
    with two [OF da [OF 3(1)] a2, of "Call_DetachResourceBacking r" "Call_UnrefResource ctx (vr_Id r)"] 3 log
    show ?thesis by (simp add: delete_calls_def del: spec_of.simps log_matches.simps if_split)
  qed
qed

lemma kept_accepts: "kept k L X Ps d \<Longrightarrow> accepts_all k \<Longrightarrow> driver_inv L X Ps d"
  by (auto simp: kept_def)

lemma caller_in: "caller r d c \<Longrightarrow> c \<in> set (g_VirglContextList d)"
  using contexts.search_SomeD [of "rq_pid r" "g_VirglContextList d" c]
  by (auto simp: caller_def GetVirglContextFromListUnsafe_def)

lemma CloseResource_eq:
  assumes "takes_input r (encode_drm_gem_close cl)" and "caller r d c"
    and "GetResourceFromList c (dcl_handle cl) = Some res"
  shows "CtlCloseResource e r d = Some (rq_in_status r, 8, rq_out r,
    free_resource (vc_Id c) (vr_Id res) (DeleteResource e (vc_Id c) res (with_context (vc_Id c) (remove_resource (dcl_handle cl)) d)))"
proof -
  have "vr_Id res = dcl_handle cl"
    using assms(3) resources.search_SomeD by (auto simp: GetResourceFromList_def GetResourceFromListUnsafe_def)
  with assms show ?thesis
    by (simp add: CtlCloseResource_unfold frame_passed takes_input_def Let_def remove_resource_def [abs_def])
qed

lemma free_resource_simps [simp]:
  "g_VirglContextList (free_resource ctx i d) = g_VirglContextList d" "g_Memory (free_resource ctx i d) = g_Memory d"
  "dr_dev (free_resource ctx i d) = dr_dev d" "k_mem (free_resource ctx i d) = k_mem d"
  "k_resources_out (free_resource ctx i d) = k_resources_out d - 1" "k_mdls (free_resource ctx i d) = k_mdls d"
  "k_umaps (free_resource ctx i d) = k_umaps d" "k_iomaps (free_resource ctx i d) = k_iomaps d"
  "k_freed (free_resource ctx i d) = k_freed d @ [(ctx, Some i)]"
  by (simp_all add: free_resource_def)

lemma close_steps:
  assumes "takes_input r (encode_drm_gem_close cl)" and "caller r d c"
    and "GetResourceFromList c (dcl_handle cl) = Some res"
    and "driver_inv L X [] d" and "env_ok e" and "accepts_all (en_kernel e)"
  shows "\<exists>d' es. CtlCloseResource e r d = Some (rq_in_status r, 8, rq_out r, d')
    \<and> g_VirglContextList d' = upd_first (\<lambda>x. vc_Id x = vc_Id c) (remove_resource (dcl_handle cl)) (g_VirglContextList d)
    \<and> g_Memory d' = fold (\<lambda>(va, sz). FreeVgpuMemory (en_rtl e) va sz) (mem_taken res) (g_Memory d)
    \<and> mset (k_mdls d) = mset (k_mdls d') + res_mdls res \<and> k_umaps d' = fold remove1 (share_taken res) (k_umaps d)
    \<and> k_iomaps d' = fold remove1 (io_taken res) (k_iomaps d) \<and> k_freed d' = k_freed d @ [(vc_Id c, Some (dcl_handle cl))]
    \<and> k_resources_out d' = k_resources_out d - 1 \<and> k_mem d' = k_mem d
    \<and> dv_log (dr_dev d') = dv_log (dr_dev d) @ es \<and> log_matches (map spec_of (delete_calls (vc_Id c) res)) es"
proof -
  let ?d = "with_context (vc_Id c) (remove_resource (dcl_handle cl)) d"
  let ?d1 = "DeleteResource e (vc_Id c) res ?d"
  have res: "resource_loop (dcl_handle cl) (vc_ResourceList c) = Some res"
    using assms(3) by (simp add: GetResourceFromList_def GetResourceFromListUnsafe_def)
  then have id: "vr_Id res = dcl_handle cl" using resources.search_SomeD by auto
  have "context_loop (vc_Id c) (g_VirglContextList d) = Some c" using callerD(2,3) [OF assms(2)] by simp
  from inv_remove [OF assms(4) this res] have inv: "driver_inv L X (res # []) ?d" .
  moreover have "pool_ok (en_kernel e)" using assms(5) by (simp add: env_ok_def)
  ultimately obtain es where es: "dv_log (dr_dev ?d1) = dv_log (dr_dev ?d) @ es"
      "log_matches (map spec_of (delete_calls (vc_Id c) res)) es"
    using DeleteResource_steps [OF _ _ assms(6), of L X res "[]" ?d "vc_Id c"] by blast
  have same: "k_mem ?d = k_mem d" "k_mdls ?d = k_mdls d" "k_umaps ?d = k_umaps d" "k_iomaps ?d = k_iomaps d"
    "k_freed ?d = k_freed d" by (simp_all add: with_context_def)
  have "mset (k_mdls d) = mset (k_mdls ?d1) + res_mdls res" using DeleteResource_mdls [OF inv] by (simp add: same)
  with es show ?thesis
    by (intro exI [of _ "free_resource (vc_Id c) (vr_Id res) ?d1"] exI [of _ es])
      (simp add: CloseResource_eq [OF assms(1-3)] DeleteResource_fields same id)
qed

text \<open>C24: when the virtqueues accept the commands, closing a resource takes it, and nothing else, off
  the list of the process and gives back what it holds: its vgpu memory to the allocator, the MDL
  and the mapping into the process when it is mapped, the mapped I/O space of a blob, and its
  entry to the lookaside list.  The host is told in order: unmap for a blob or detach for
  a buffer, then unreference.\<close>

theorem close_releases:
  assumes "takes_input r (encode_drm_gem_close cl)" and "caller r d c"
    and "GetResourceFromList c (dcl_handle cl) = Some res"
    and "driver_inv L X [] d" and "env_ok e" and "accepts_all (en_kernel e)"
  shows "\<exists>d' c' es. CtlCloseResource e r d = Some (rq_in_status r, 8, rq_out r, d') \<and> caller r d' c'
    \<and> (\<forall>j. GetResourceFromList c' j = (if j = dcl_handle cl then None else GetResourceFromList c j))
    \<and> g_Memory d' = (if vr_bForBuffer res \<and> \<not> vr_bForBlob res
         then FreeVgpuMemory (en_rtl e) (md_VirtualAddress (mb_Memory (vr_Buffer res))) (mb_Size (vr_Buffer res)) (g_Memory d)
         else g_Memory d)
    \<and> mset (k_mdls d) = mset (k_mdls d') + res_mdls res \<and> k_umaps d' = fold remove1 (share_taken res) (k_umaps d)
    \<and> k_iomaps d' = fold remove1 (io_taken res) (k_iomaps d) \<and> k_freed d' = k_freed d @ [(vc_Id c, Some (dcl_handle cl))]
    \<and> k_resources_out d' = k_resources_out d - 1
    \<and> dv_log (dr_dev d') = dv_log (dr_dev d) @ es \<and> log_matches (map spec_of (delete_calls (vc_Id c) res)) es"
proof -
  obtain d' es where d': "CtlCloseResource e r d = Some (rq_in_status r, 8, rq_out r, d')"
      "g_VirglContextList d' = upd_first (\<lambda>x. vc_Id x = vc_Id c) (remove_resource (dcl_handle cl)) (g_VirglContextList d)"
      "g_Memory d' = fold (\<lambda>(va, sz). FreeVgpuMemory (en_rtl e) va sz) (mem_taken res) (g_Memory d)"
      "mset (k_mdls d) = mset (k_mdls d') + res_mdls res" "k_umaps d' = fold remove1 (share_taken res) (k_umaps d)"
      "k_iomaps d' = fold remove1 (io_taken res) (k_iomaps d)" "k_freed d' = k_freed d @ [(vc_Id c, Some (dcl_handle cl))]"
      "k_resources_out d' = k_resources_out d - 1"
      "dv_log (dr_dev d') = dv_log (dr_dev d) @ es" "log_matches (map spec_of (delete_calls (vc_Id c) res)) es"
    using close_steps [OF assms] by blast
  let ?c = "remove_resource (dcl_handle cl) c"
  have "vc_Id (remove_resource h c) = vc_Id c" for h c by (simp add: remove_resource_def)
  from caller_update [of r d c "remove_resource (dcl_handle cl)" d, OF assms(2) this refl] have "caller r d' ?c"
    by (simp add: caller_def GetVirglContextFromListUnsafe_def d'(2))
  moreover have "distinct (map vr_Id (vc_ResourceList c))" by (rule inv_context_ids [OF assms(4) caller_in [OF assms(2)]])
  from resources.search_delete [OF this]
  have "\<forall>j. GetResourceFromList ?c j = (if j = dcl_handle cl then None else GetResourceFromList c j)"
    by (simp add: GetResourceFromList_def GetResourceFromListUnsafe_def remove_resource_def)
  moreover have "g_Memory d' = (if vr_bForBuffer res \<and> \<not> vr_bForBlob res
         then FreeVgpuMemory (en_rtl e) (md_VirtualAddress (mb_Memory (vr_Buffer res))) (mb_Size (vr_Buffer res)) (g_Memory d)
         else g_Memory d)" by (simp add: d'(3) mem_taken_def)
  ultimately show ?thesis using d'(1,4-10) by blast
qed

theorem close_releases_witness:
  "\<exists>d' c'. CtlCloseResource sample_env (sample_request (encode_drm_gem_close \<lparr>dcl_handle = 2, dcl_pad = 0\<rparr>) 0) sample_driver
       = Some (STATUS_SUCCESS, 8, [], d')
     \<and> caller (sample_request (encode_drm_gem_close \<lparr>dcl_handle = 2, dcl_pad = 0\<rparr>) 0) d' c'
     \<and> GetResourceFromList c' 2 = None \<and> GetResourceFromList c' 3 = Some sample_blob \<and> k_resources_out d' = 2
     \<and> k_freed d' = [(7, Some 2)] \<and> vm_RegionBitmap (g_Memory d') = [True, False, False, False, False, False, False, False]
     \<and> length (dv_log (dr_dev d')) = 4"
proof -
  let ?cl = "\<lparr>dcl_handle = 2, dcl_pad = 0\<rparr>"
  have r: "GetResourceFromList sample_context (dcl_handle ?cl) = Some sample_busy"
    by (simp add: GetResourceFromList_def sample_lookup)
  have m: "vm_RegionBitmap (FreeVgpuMemory rtl_first_fit 0x101000 0x2000
      (sample_state [True, True, True, False, False, False, False, False] 0x5000 3))
    = [True, False, False, False, False, False, False, False]" by code_simp
  from close_releases [OF sample_input(1) sample_caller r sample_driver_inv sample_env_ok, of 0] show ?thesis
  proof (elim exE conjE, goal_cases)
    case (1 d' c' es)
    have "length es = 4" using log_matches_length [OF 1(11)] by (simp add: delete_calls_def sample_busy_def)
    moreover have "vc_Id sample_context = 7" by (simp add: sample_context_def)
    ultimately show ?case using 1 m
      by (intro exI [of _ d'] exI [of _ c'])
        (simp add: GetResourceFromList_def sample_lookup, simp add: sample_device_def sample_busy_def
          sample_buffer_def sample_env_def)
  qed
qed

end
