(* ===== verification/Vgpu_Lifetimes.thy ===== *)
theory Vgpu_Lifetimes
  imports Vgpu_Requests
begin

text \<open>
  Operations in sequence: a resource created and closed, a context with its resources destroyed,
  a command stream submitted and completed.
\<close>

unbundle bit_operations_syntax

subsection \<open>Created and closed\<close>

lemma log_matches_append:
  "log_matches sps es \<Longrightarrow> log_matches sps' es' \<Longrightarrow> log_matches (sps @ sps') (es @ es')"
  by (induction sps es rule: log_matches.induct) auto

definition new_buffer :: "virgl_resource \<Rightarrow> u64 \<Rightarrow> u64 \<Rightarrow> memory_descriptor \<Rightarrow> virgl_resource" where
  "new_buffer stale i sz md = stale\<lparr>vr_Id := ucast i, vr_FenceId := 0, vr_StateEvent := True, vr_bForBuffer := True,
    vr_bForBlob := False, vr_Buffer := (vr_Buffer stale)\<lparr>mb_Share := (mb_Share (vr_Buffer stale))\<lparr>sh_pMdl := 0\<rparr>,
      mb_Size := sz, mb_Memory := md\<rparr>\<rparr>"

lemma CreateResource_run:
  assumes "takes_input r (encode_drm_resource_create p)" and "has_output r 8" and "caller r d c"
    and "rq_resource r = Some stale" and "drc_size p \<noteq> 1"
    and "GetIdFromIdrWithoutCache (g_Idrs d) VIRGL_RESOURCE_ID_TYPE 4 = (i, idrs)"
    and "sz = (if drc_size p = 0 then PAGE_SIZE else ucast (ROUND_UP (drc_size p) PAGE_SIZE))"
    and "AllocateVgpuMemory (en_rtl e) sz (g_Memory d) = (Some md, m)"
  shows "\<exists>km. CtlCreateResource e r d = Some (rq_out_status r, 8, create_resp (ucast i),
    with_context (vc_Id c) (insert_resource (new_buffer stale i sz md))
      (d\<lparr>k_resources_out := Suc (k_resources_out d), g_Idrs := idrs, g_Memory := m, k_mem := km,
         dr_dev := runs (run_call (en_kernel e)) [Call_Create3DResource (vc_Id c) (ucast i) (create_param p) 0,
           Call_AttachResourceBacking (vc_Id c) (new_buffer stale i sz md)] (dr_dev d)\<rparr>))"
  using assms
  by (intro exI [of _ "zero_bytes (md_VirtualAddress md) sz (k_mem d)"])
    (simp add: CtlCreateResource_unfold frame_passed takes_input_def Let_def new_buffer_def on_dev_def)

lemma CreateResource_eq:
  assumes "takes_input r (encode_drm_resource_create p)" and "has_output r 8" and "caller r d c"
    and "rq_resource r = Some stale" and "drc_size p \<noteq> 1"
    and "GetIdFromIdrWithoutCache (g_Idrs d) VIRGL_RESOURCE_ID_TYPE 4 = (i, idrs)"
    and "sz = (if drc_size p = 0 then PAGE_SIZE else ucast (ROUND_UP (drc_size p) PAGE_SIZE))"
    and "AllocateVgpuMemory (en_rtl e) sz (g_Memory d) = (Some md, m)"
  shows "\<exists>dv km. CtlCreateResource e r d = Some (rq_out_status r, 8, create_resp (ucast i),
    with_context (vc_Id c) (insert_resource (new_buffer stale i sz md))
      (d\<lparr>k_resources_out := Suc (k_resources_out d), g_Idrs := idrs, g_Memory := m, k_mem := km, dr_dev := dv\<rparr>))"
  using CreateResource_run [OF assms] by blast

lemma upd_first_twice:
  "(\<And>x. P (g x) = P x) \<Longrightarrow> upd_first P f (upd_first P g xs) = upd_first P (\<lambda>x. f (g x)) xs"
  by (induction xs) auto

lemma remove_insert: "remove_resource (vr_Id res) (insert_resource res c) = c"
  by (simp add: remove_resource_def insert_resource_def)

lemma upd_first_id: "upd_first P (\<lambda>x. x) xs = xs"
  by (induction xs) auto

text \<open>C21: when the virtqueues accept the commands, closing a buffer right after it was created
  restores the lists, the bitmap and the available size of the vgpu memory, the MDLs, the mappings
  and the number of lookaside entries, and tells the host to detach and drop what it
  was told to create and attach.  The id is not given back: the counter stays advanced; the
  search hint of the allocator may differ, and the zeroed bytes stay zero.  (A size that
  wraps to 0 pages when it is rounded up is excluded by \<open>0 < sz\<close>.)\<close>

theorem create_close_roundtrip:
  assumes "takes_input r (encode_drm_resource_create p)" and "has_output r 8" and "caller r d c"
    and "rq_resource r = Some stale" and "drc_size p \<noteq> 1"
    and i: "GetIdFromIdrWithoutCache (g_Idrs d) VIRGL_RESOURCE_ID_TYPE 4 = (i, idrs)"
    and sz: "sz = (if drc_size p = 0 then PAGE_SIZE else ucast (ROUND_UP (drc_size p) PAGE_SIZE))" and "0 < sz"
    and alloc: "AllocateVgpuMemory (en_rtl e) sz (g_Memory d) = (Some md, m)"
    and inv: "driver_inv L X [] d" and e: "env_ok e" and acc: "accepts_all (en_kernel e)" and room: "next_id d < 2 ^ 32"
    and close: "takes_input r' (encode_drm_gem_close cl)" "dcl_handle cl = ucast i" "rq_pid r' = rq_pid r"
  shows "\<exists>d1 d2 hint res es. CtlCreateResource e r d = Some (rq_out_status r, 8, create_resp (ucast i), d1)
    \<and> CtlCloseResource e r' d1 = Some (rq_in_status r', 8, rq_out r', d2)
    \<and> g_VirglContextList d2 = g_VirglContextList d \<and> g_Memory d2 = (g_Memory d)\<lparr>vm_LastFreeIndex := hint\<rparr>
    \<and> k_resources_out d2 = k_resources_out d \<and> mset (k_mdls d2) = mset (k_mdls d)
    \<and> k_umaps d2 = k_umaps d \<and> k_iomaps d2 = k_iomaps d \<and> k_freed d2 = k_freed d @ [(vc_Id c, Some (ucast i))]
    \<and> vr_Id res = ucast i \<and> mb_Memory (vr_Buffer res) = md \<and> mb_Size (vr_Buffer res) = sz
    \<and> dv_log (dr_dev d2) = dv_log (dr_dev d) @ es
    \<and> log_matches (map spec_of [Call_Create3DResource (vc_Id c) (ucast i) (create_param p) 0,
         Call_AttachResourceBacking (vc_Id c) res, Call_DetachResourceBacking res, Call_UnrefResource (vc_Id c) (ucast i)]) es"
proof -
  let ?res = "new_buffer stale i sz md"
  let ?calls = "[Call_Create3DResource (vc_Id c) (ucast i) (create_param p) 0, Call_AttachResourceBacking (vc_Id c) ?res]"
  have id: "vr_Id ?res = dcl_handle cl" by (simp add: new_buffer_def close(2))
  obtain km where create: "CtlCreateResource e r d = Some (rq_out_status r, 8, create_resp (ucast i),
    with_context (vc_Id c) (insert_resource ?res)
      (d\<lparr>k_resources_out := Suc (k_resources_out d), g_Idrs := idrs, g_Memory := m, k_mem := km,
         dr_dev := runs (run_call (en_kernel e)) ?calls (dr_dev d)\<rparr>))"
    (is "_ = Some (_, _, _, with_context _ _ ?d0)")
    using CreateResource_run [OF assms(1-5) i sz alloc] by blast
  let ?d1 = "with_context (vc_Id c) (insert_resource ?res) ?d0"
  have "device_acct L (dr_dev d)" "pool_ok (en_kernel e)" using inv e by (simp_all add: driver_inv_def env_ok_def)
  from gpu.runs_log [OF acc this, of ?calls] obtain es1 where
    es1: "dv_log (dr_dev ?d1) = dv_log (dr_dev d) @ es1" "log_matches (map spec_of ?calls) es1" by auto
  have "kept (en_kernel e) L X [] d" by (rule keptI [OF inv])
  from CreateResource_kept [OF this e room, of r] have "kept (en_kernel e) L X [] ?d1" by (simp add: create)
  then have inv1: "driver_inv L X [] ?d1" by (rule kept_accepts [OF _ acc])
  have in_list: "caller r' ?d1 (insert_resource ?res c)"
    using caller_update [of r d c "insert_resource ?res" ?d0] assms(3) close(3) by (simp add: caller_def)
  have found: "GetResourceFromList (insert_resource ?res c) (dcl_handle cl) = Some ?res"
    by (simp add: GetResourceFromList_def GetResourceFromListUnsafe_def insert_resource_def id)
  obtain d2 es2 where d2:
    "CtlCloseResource e r' ?d1 = Some (rq_in_status r', 8, rq_out r', d2)"
    "g_VirglContextList d2 = upd_first (\<lambda>x. vc_Id x = vc_Id (insert_resource ?res c)) (remove_resource (dcl_handle cl)) (g_VirglContextList ?d1)"
    "g_Memory d2 = fold (\<lambda>(va, sz). FreeVgpuMemory (en_rtl e) va sz) (mem_taken ?res) (g_Memory ?d1)"
    "mset (k_mdls ?d1) = mset (k_mdls d2) + res_mdls ?res" "k_umaps d2 = fold remove1 (share_taken ?res) (k_umaps ?d1)"
    "k_iomaps d2 = fold remove1 (io_taken ?res) (k_iomaps ?d1)"
    "k_freed d2 = k_freed ?d1 @ [(vc_Id (insert_resource ?res c), Some (dcl_handle cl))]"
    "k_resources_out d2 = k_resources_out ?d1 - 1"
    "dv_log (dr_dev d2) = dv_log (dr_dev ?d1) @ es2"
    "log_matches (map spec_of (delete_calls (vc_Id (insert_resource ?res c)) ?res)) es2"
    using close_steps [OF close(1) in_list found inv1 e acc] by blast
  have taken: "mem_taken ?res = [(md_VirtualAddress md, sz)]" "share_taken ?res = []" "io_taken ?res = []" "res_mdls ?res = {#}"
    "delete_calls (vc_Id c) ?res = [Call_DetachResourceBacking ?res, Call_UnrefResource (vc_Id c) (ucast i)]"
    by (simp_all add: mem_taken_def share_taken_def io_taken_def res_mdls_def delete_calls_def new_buffer_def)
  have ctx: "vc_Id (insert_resource ?res c) = vc_Id c" by (simp add: insert_resource_def)
  have "g_VirglContextList d2 = g_VirglContextList d"
    by (simp add: d2(2) upd_first_twice remove_insert id [symmetric] upd_first_id)
  moreover have mem: "mem_owned (held res_regions [] d + queue_regions (dr_dev d) + X) (g_Memory d)" "rtl_ok (en_rtl e)"
    using inv e by (simp_all add: driver_inv_def env_ok_def)
  have "unat sz mod 4096 = 0" by (simp add: sz round_up_page)
  from alloc_then_free [OF mem(2,1) this \<open>0 < sz\<close> alloc] obtain hint where
    "g_Memory d2 = (g_Memory d)\<lparr>vm_LastFreeIndex := hint\<rparr>" by (auto simp: d2(3) taken)
  moreover have "mset (k_mdls d2) = mset (k_mdls d)" "k_umaps d2 = k_umaps d" "k_iomaps d2 = k_iomaps d"
    "k_freed d2 = k_freed d @ [(vc_Id c, Some (ucast i))]" "k_resources_out d2 = k_resources_out d"
    using d2(4-8) by (simp_all add: taken ctx close(2) with_context_def)
  moreover have "dv_log (dr_dev d2) = dv_log (dr_dev d) @ (es1 @ es2)" using d2(9) es1(1) by simp
  moreover have "log_matches (map spec_of ?calls @ map spec_of (delete_calls (vc_Id c) ?res)) (es1 @ es2)"
    using log_matches_append [OF es1(2) d2(10)] by (simp only: ctx)
  then have "log_matches (map spec_of [Call_Create3DResource (vc_Id c) (ucast i) (create_param p) 0,
         Call_AttachResourceBacking (vc_Id c) ?res, Call_DetachResourceBacking ?res, Call_UnrefResource (vc_Id c) (ucast i)]) (es1 @ es2)"
    by (simp only: taken list.map append.simps)
  moreover have "vr_Id ?res = ucast i \<and> mb_Memory (vr_Buffer ?res) = md \<and> mb_Size (vr_Buffer ?res) = sz"
    by (simp add: new_buffer_def)
  ultimately show ?thesis using create d2(1) by blast
qed

theorem create_close_roundtrip_witness:
  "\<exists>d1 d2. CtlCreateResource sample_env (sample_request (encode_drm_resource_create (sample_create 0x1001)) 8) sample_driver
      = Some (STATUS_SUCCESS, 8, create_resp 4, d1)
    \<and> CtlCloseResource sample_env (sample_request (encode_drm_gem_close \<lparr>dcl_handle = 4, dcl_pad = 0\<rparr>) 0) d1
      = Some (STATUS_SUCCESS, 8, [], d2)
    \<and> g_VirglContextList d2 = [sample_context] \<and> k_resources_out d2 = 3 \<and> length (dv_log (dr_dev d2)) = 8
    \<and> vm_RegionBitmap (g_Memory d2) = [True, True, True, False, False, False, False, False]"
proof -
  let ?r = "sample_request (encode_drm_resource_create (sample_create 0x1001)) 8"
  let ?sz = "if drc_size (sample_create 0x1001) = 0 then PAGE_SIZE else ucast (ROUND_UP (drc_size (sample_create 0x1001)) PAGE_SIZE) :: u64"
  have sz: "?sz = (0x2000 :: u64)" by (simp add: sample_create_sizes)
  have small: "drc_size (sample_create 0x1001) \<noteq> 1" "0 < ?sz" "next_id sample_driver < 2 ^ 32"
    by (simp_all add: sample_create_sizes next_id_def sample_driver_def idr_consts)
  have alloc: "AllocateVgpuMemory (en_rtl sample_env) ?sz (g_Memory sample_driver)
      = (Some \<lparr>md_VirtualAddress = 0x103000, md_PhysicalAddress = 0x203000\<rparr>, sample_grown)"
    using sample_allocs(1) by (simp only: sz sample_driver_simps) (simp add: sample_env_def)
  have close: "dcl_handle \<lparr>dcl_handle = 4, dcl_pad = 0\<rparr> = ucast (4 :: u64)" "rq_pid (sample_request bs n) = rq_pid (sample_request bs' n')"
    for bs n bs' n' by (simp_all add: sample_request_def)
  from create_close_roundtrip [OF sample_input sample_caller sample_simps(7) small(1) sample_draw refl small(2) alloc
      sample_driver_inv sample_env_ok small(3)
      sample_input(1) [of "encode_drm_gem_close \<lparr>dcl_handle = 4, dcl_pad = 0\<rparr>" 0] close]
  show ?thesis
  proof (elim exE conjE, goal_cases)
    case (1 d1 d2 hint res es)
    have "length es = 8" using log_matches_length [OF 1(14)] by simp
    with 1 show ?case
      by (intro exI [of _ d1] exI [of _ d2]) (simp add: sample_device_def sample_state_def)
  qed
qed

subsection \<open>Destroying a context\<close>

lemma destroy_loop_fields:
  "g_VirglContextList (destroy_loop e ctx rs d) = g_VirglContextList d"
  "k_resources_out (destroy_loop e ctx rs d) = k_resources_out d - length rs"
  "g_Memory (destroy_loop e ctx rs d) = fold (\<lambda>(va, sz). FreeVgpuMemory (en_rtl e) va sz) (concat (map mem_taken rs)) (g_Memory d)"
  "k_umaps (destroy_loop e ctx rs d) = fold remove1 (concat (map share_taken rs)) (k_umaps d)"
  "k_iomaps (destroy_loop e ctx rs d) = fold remove1 (concat (map io_taken rs)) (k_iomaps d)"
  "k_freed (destroy_loop e ctx rs d) = k_freed d @ map (\<lambda>r. (ctx, Some (vr_Id r))) rs"
  by (induction rs arbitrary: d) (simp_all add: DeleteResource_fields)

lemma destroy_loop_steps:
  assumes "driver_inv L X (rs @ Ps) d" and "env_ok e" and "accepts_all (en_kernel e)"
  shows "driver_inv L X Ps (destroy_loop e ctx rs d)
    \<and> mset (k_mdls d) = mset (k_mdls (destroy_loop e ctx rs d)) + total res_mdls rs
    \<and> (\<exists>es. dv_log (dr_dev (destroy_loop e ctx rs d)) = dv_log (dr_dev d) @ es
         \<and> log_matches (map spec_of (concat (map (delete_calls ctx) rs))) es)"
  using assms(1)
proof (induction rs arbitrary: d)
  case Nil
  then show ?case by simp
next
  case (Cons r rs)
  let ?d = "free_resource ctx (vr_Id r) (DeleteResource e ctx r d)"
  have po: "pool_ok (en_kernel e)" using assms(2) by (simp add: env_ok_def)
  have inv: "driver_inv L X (r # (rs @ Ps)) d" using Cons.prems by simp
  from DeleteResource_steps [OF inv po assms(3), of ctx] obtain es1 where
    es1: "dv_log (dr_dev ?d) = dv_log (dr_dev d) @ es1" "log_matches (map spec_of (delete_calls ctx r)) es1" by auto
  have "driver_inv L X (rs @ Ps) ?d"
    using kept_accepts [OF kept_delete [OF keptI [OF inv] assms(2)] assms(3)] .
  note ih = Cons.IH [OF this]
  from ih obtain es2 where "dv_log (dr_dev (destroy_loop e ctx rs ?d)) = dv_log (dr_dev ?d) @ es2"
    "log_matches (map spec_of (concat (map (delete_calls ctx) rs))) es2" by blast
  with es1 log_matches_append [OF es1(2)]
  have "\<exists>es. dv_log (dr_dev (destroy_loop e ctx rs ?d)) = dv_log (dr_dev d) @ es
      \<and> log_matches (map spec_of (concat (map (delete_calls ctx) (r # rs)))) es"
    by (intro exI [of _ "es1 @ es2"]) simp
  moreover have "mset (k_mdls d) = mset (k_mdls ?d) + res_mdls r" using DeleteResource_mdls [OF inv] by simp
  ultimately show ?case using ih by (simp add: ac_simps)
qed

text \<open>What the destruction of a context gives back, and what it tells the host.\<close>

lemma destroy_gives_back:
  assumes "CtlDestroyVirglContext e c d = (status, d')"
  shows "status = STATUS_SUCCESS
    \<and> g_VirglContextList d' = del_first (\<lambda>x. vc_Id x = vc_Id c) (g_VirglContextList d)
    \<and> g_Memory d' = fold (\<lambda>(va, sz). FreeVgpuMemory (en_rtl e) va sz) (concat (map mem_taken (rev (vc_ResourceList c)))) (g_Memory d)
    \<and> k_umaps d' = fold remove1 (concat (map share_taken (rev (vc_ResourceList c)))) (k_umaps d)
    \<and> k_iomaps d' = fold remove1 (concat (map io_taken (rev (vc_ResourceList c)))) (k_iomaps d)
    \<and> k_freed d' = k_freed d @ map (\<lambda>r. (vc_Id c, Some (vr_Id r))) (rev (vc_ResourceList c)) @ [(vc_Id c, None)]
    \<and> k_resources_out d' = k_resources_out d - length (vc_ResourceList c)"
  using assms by (auto simp: CtlDestroyVirglContext_def free_context_def destroy_loop_fields Let_def)

lemma destroy_steps:
  assumes "context_loop i (g_VirglContextList d) = Some c" and "driver_inv L X [] d" and "env_ok e"
    and "accepts_all (en_kernel e)"
  shows "\<exists>d' es. CtlDestroyVirglContext e c d = (STATUS_SUCCESS, d') \<and> driver_inv L X [] d'
    \<and> mset (k_mdls d) = mset (k_mdls d') + total res_mdls (vc_ResourceList c)
    \<and> dv_log (dr_dev d') = dv_log (dr_dev d) @ es
    \<and> log_matches (map spec_of (concat (map (delete_calls i) (rev (vc_ResourceList c))) @ [Call_DestroyVirglContext i])) es"
proof -
  let ?k = "en_kernel e"
  let ?d1 = "d\<lparr>g_VirglContextList := del_first (\<lambda>x. vc_Id x = i) (g_VirglContextList d)\<rparr>"
  let ?d2 = "destroy_loop e i (rev (vc_ResourceList c)) ?d1"
  let ?d3 = "free_context i (on_dev (DestroyVirglContext ?k i) ?d2)"
  have i: "vc_Id c = i" using contexts.search_SomeD [OF assms(1)] by simp
  have po: "pool_ok ?k" using assms(3) by (simp add: env_ok_def)
  note l = destroy_loop_steps [OF inv_remove_context [OF assms(2,1)] assms(3,4), of i]
  from l obtain es1 where es1: "dv_log (dr_dev ?d2) = dv_log (dr_dev d) @ es1"
    "log_matches (map spec_of (concat (map (delete_calls i) (rev (vc_ResourceList c))))) es1" by auto
  have "device_acct L (dr_dev ?d2)" using l by (simp add: driver_inv_def)
  from gpu.run_log [OF assms(4) this, of "Call_DestroyVirglContext i"] obtain es2 where
    "dv_log (dr_dev ?d3) = dv_log (dr_dev ?d2) @ es2"
    "\<forall>sps es'. log_matches sps es' \<longrightarrow> log_matches (spec_of (Call_DestroyVirglContext i) # sps) (es2 @ es')"
    by (auto simp: free_context_def)
  moreover from this(2) have "log_matches [spec_of (Call_DestroyVirglContext i)] es2"
    by (metis append_Nil2 log_matches.simps(1))
  ultimately have "dv_log (dr_dev ?d3) = dv_log (dr_dev d) @ (es1 @ es2)"
    "log_matches (map spec_of (concat (map (delete_calls i) (rev (vc_ResourceList c))) @ [Call_DestroyVirglContext i])) (es1 @ es2)"
    using es1 log_matches_append [OF es1(2)] by (simp_all del: spec_of.simps)
  moreover have "driver_inv L X [] ?d3"
    using kept_accepts [OF kept_calls(2) [OF keptI po] assms(4)] l unfolding inv_free_context by blast
  moreover have "CtlDestroyVirglContext e c d = (STATUS_SUCCESS, ?d3)"
    by (simp add: CtlDestroyVirglContext_def i Let_def)
  moreover have "mset (k_mdls d) = mset (k_mdls ?d3) + total res_mdls (vc_ResourceList c)"
    using l by (simp add: free_context_def)
  ultimately show ?thesis by blast
qed

lemma delete_queue_regions: "queue_regions (dr_dev (DeleteResource e ctx r d)) = queue_regions (dr_dev d)"
proof -
  have c: "queue_regions (run_call k c dv) = queue_regions dv" for k c dv by (rule gpu.run_regions)
  note calls = c [of _ "Call_UnMapBlobResource x y z" for x y z, simplified]
    c [of _ "Call_DetachResourceBacking x" for x, simplified] c [of _ "Call_UnrefResource x y" for x y, simplified]
  show ?thesis
    by (simp add: DeleteResource_def DeleteUserShareMemory_def IoFreeMdl_def MmUnmapLockedPages_def MmUnmapIoSpace_def fault_at_def
        calls Let_def)
qed

lemma destroy_queue_regions: "queue_regions (dr_dev (snd (CtlDestroyVirglContext e c d))) = queue_regions (dr_dev d)"
proof -
  have "queue_regions (dr_dev (destroy_loop e ctx rs d)) = queue_regions (dr_dev d)" for ctx rs d
    by (induction rs arbitrary: d) (simp_all add: delete_queue_regions)
  then show ?thesis
    using gpu.run_regions [of "en_kernel e" "Call_DestroyVirglContext (vc_Id c)"]
    by (simp add: CtlDestroyVirglContext_def free_context_def Let_def)
qed

text \<open>C22: when the virtqueues accept the commands, destroying a context terminates with the context
  gone and every other context as it was.  Each of its resources is deleted once, from the oldest to
  the newest: its vgpu memory goes back to the allocator, its MDL, its mapping into the process and
  its I/O mapping are released, its entry goes back to the lookaside list; then the context is freed.
  The host is told the same, in the same order.\<close>

theorem destroy_context_works:
  assumes "GetVirglContextFromList i d = Some c" and "driver_inv L X [] d" and "env_ok e"
    and "accepts_all (en_kernel e)"
  shows "\<exists>d' es. CtlDestroyVirglContext e c d = (STATUS_SUCCESS, d')
    \<and> (\<forall>j. GetVirglContextFromList j d' = (if j = i then None else GetVirglContextFromList j d))
    \<and> driver_regions d' + total res_regions (vc_ResourceList c) = driver_regions d
    \<and> g_Memory d' = fold (\<lambda>(va, sz). FreeVgpuMemory (en_rtl e) va sz) (concat (map mem_taken (rev (vc_ResourceList c)))) (g_Memory d)
    \<and> mset (k_mdls d) = mset (k_mdls d') + total res_mdls (vc_ResourceList c)
    \<and> k_umaps d' = fold remove1 (concat (map share_taken (rev (vc_ResourceList c)))) (k_umaps d)
    \<and> k_iomaps d' = fold remove1 (concat (map io_taken (rev (vc_ResourceList c)))) (k_iomaps d)
    \<and> k_freed d' = k_freed d @ map (\<lambda>r. (i, Some (vr_Id r))) (rev (vc_ResourceList c)) @ [(i, None)]
    \<and> k_resources_out d' = k_resources_out d - length (vc_ResourceList c)
    \<and> dv_log (dr_dev d') = dv_log (dr_dev d) @ es
    \<and> log_matches (map spec_of (concat (map (delete_calls i) (rev (vc_ResourceList c))) @ [Call_DestroyVirglContext i])) es"
proof -
  have c: "context_loop i (g_VirglContextList d) = Some c"
    using assms(1) by (simp add: GetVirglContextFromList_def GetVirglContextFromListUnsafe_def)
  then have i: "vc_Id c = i" using contexts.search_SomeD by auto
  obtain d' es where d': "CtlDestroyVirglContext e c d = (STATUS_SUCCESS, d')"
    "mset (k_mdls d) = mset (k_mdls d') + total res_mdls (vc_ResourceList c)"
    "dv_log (dr_dev d') = dv_log (dr_dev d) @ es"
    "log_matches (map spec_of (concat (map (delete_calls i) (rev (vc_ResourceList c))) @ [Call_DestroyVirglContext i])) es"
    using destroy_steps [OF c assms(2-4)] by blast
  note fields = destroy_gives_back [OF d'(1), unfolded i]
  have "distinct (map vc_Id (g_VirglContextList d))" using assms(2) by (simp add: driver_inv_def)
  from contexts.search_delete [OF this]
  have "\<forall>j. GetVirglContextFromList j d' = (if j = i then None else GetVirglContextFromList j d)"
    using fields by (simp add: GetVirglContextFromList_def GetVirglContextFromListUnsafe_def)
  moreover have "queue_regions (dr_dev d') = queue_regions (dr_dev d)"
    using destroy_queue_regions [of e c d] by (simp add: d'(1))
  then have "driver_regions d' + total res_regions (vc_ResourceList c) = driver_regions d"
    using owned_delete [OF c, of res_regions] fields by (simp add: driver_regions_def held_def ac_simps)
  ultimately show ?thesis using d' fields by blast
qed

theorem destroy_context_works_witness:
  "\<exists>d'. CtlDestroyVirglContext sample_env sample_context sample_driver = (STATUS_SUCCESS, d')
    \<and> GetVirglContextFromList 7 d' = None \<and> driver_regions d' = {#} \<and> k_resources_out d' = 0
    \<and> k_freed d' = [(7, Some 1), (7, Some 2), (7, Some 3), (7, None)]
    \<and> length (dv_log (dr_dev d')) = 14"
proof -
  have c: "GetVirglContextFromList 7 sample_driver = Some sample_context"
    by (simp add: GetVirglContextFromList_def GetVirglContextFromListUnsafe_def sample_context_def)
  from destroy_context_works [OF this sample_driver_inv sample_env_ok] show ?thesis
  proof (elim exE conjE, goal_cases)
    case (1 d' es)
    have "length es = 14"
      using log_matches_length [OF 1(11)]
      by (simp add: sample_context_def sample_blob_def sample_busy_def sample_resource_def delete_calls_def)
    moreover have "driver_regions d' = {#}"
    proof -
      have "queue_regions sample_device = {#}" by (simp add: queue_regions_def sample_device_def)
      then have "driver_regions sample_driver = total res_regions (vc_ResourceList sample_context)"
        by (simp add: driver_regions_def held_def owned_total_def)
      with 1(3) show ?thesis by simp
    qed
    ultimately show ?case using 1
      by (intro exI [of _ d']) (simp add: sample_device_def, simp add: sample_context_def sample_blob_def sample_busy_def sample_resource_def)
  qed
qed

end
