(* ===== verification/Vgpu_Reachable.thy ===== *)
theory Vgpu_Reachable
  imports Vgpu_System Vgpu_Lifetimes
begin

text \<open>
  What holds in every state the driver reaches, whatever processes ask for, whatever the host
  answers and in whatever order the callbacks run: the memory of resources and submissions is
  disjoint, ids are unique, MDLs are live while user mode has them, and no pool block is lost or
  freed twice.  A short run of three requests exercises the properties.
\<close>

unbundle bit_operations_syntax

subsection \<open>A run\<close>

definition init_request :: request where
  "init_request = sample_request (encode_drm_context_init
     \<lparr>dci_num_params = 0, dci_pad = 0, dci_ctx_set_params = 0x6000\<rparr>) 0"

definition create_request :: "u32 \<Rightarrow> request" where
  "create_request sz = sample_request (encode_drm_resource_create (sample_create sz)) 8"

definition sample_events :: "event list" where
  "sample_events = [Request IOCTL_VIRTIO_VGPU_CONTEXT_INIT init_request,
     Request IOCTL_VIRTIO_VGPU_RESOURCE_CREATE (create_request 0x1000),
     Request IOCTL_VIRTIO_VGPU_RESOURCE_CREATE (create_request 0x2000)]"

definition started_context :: driver where
  "started_context = sample_start\<lparr>g_VirglContextList := [\<lparr>vc_Id = 7, vc_ResourceList = []\<rparr>],
     dr_dev := CreateVirglContext sample_kernel 7 0 sample_device\<rparr>"

lemma sample_started: "started sample_start"
proof -
  have "2 \<le> NumVirtQueues sample_start" "caps_inv (g_Capsets sample_device)"
    by (simp_all add: NumVirtQueues_def caps_inv_def sample_start_def sample_device_def)
  moreover have "\<exists>idrs. length idrs = IDR_MAX_SIZE \<and> g_Idrs sample_start = InitializeIdr idrs"
    by (intro exI [of _ Idrs_static]) (simp add: sample_start_def Idrs_static_def)
  ultimately show ?thesis
    using sample_memory_owned by (simp add: started_def sample_start_def sample_device_def)
qed

lemma status_neq: "STATUS_SUCCESS \<noteq> STATUS_PENDING"
  by (simp add: status_defs)

lemma sample_init:
  "VirtioVgpuIoControl sample_env IOCTL_VIRTIO_VGPU_CONTEXT_INIT init_request sample_start
     = Some ([(STATUS_SUCCESS, 16)], [], started_context)"
  by (simp add: VirtioVgpuIoControl_def dispatch_def CtlInitVirglContext_def init_context_check_def
      init_context_insert_def GetVirglContextFromList_def GetVirglContextFromListUnsafe_def init_request_def
      retrieved_def decode_set_params_def started_context_def sample_start_def sample_env_def on_dev_def Let_def
      status_neq)

lemma create_dispatch: "dispatch e IOCTL_VIRTIO_VGPU_RESOURCE_CREATE r d = CtlCreateResource e r d"
  by (simp add: dispatch_def ioctl_code_defs ctl_code_defs)

lemma create_step:
  assumes "caller (create_request sz) d c" and "sz = 0x1000 \<or> sz = 0x2000"
    and "GetIdFromIdrWithoutCache (g_Idrs d) VIRGL_RESOURCE_ID_TYPE 4 = (i, idrs)"
    and "AllocateVgpuMemory rtl_first_fit (ucast sz) (g_Memory d) = (Some md, m)"
  shows "\<exists>d'. step sample_env d (Request IOCTL_VIRTIO_VGPU_RESOURCE_CREATE (create_request sz)) d'
    \<and> g_VirglContextList d' = upd_first (\<lambda>x. vc_Id x = vc_Id c)
        (insert_resource (new_buffer sample_blob i (ucast sz) md)) (g_VirglContextList d)
    \<and> g_Idrs d' = idrs \<and> g_Memory d' = m"
proof -
  have in_out: "takes_input (create_request sz) (encode_drm_resource_create (sample_create sz))"
    "has_output (create_request sz) 8" "rq_resource (create_request sz) = Some sample_blob"
    by (simp_all add: create_request_def sample_input)
  have "drc_size (sample_create sz) \<noteq> 1"
    "ucast sz = (if drc_size (sample_create sz) = 0 then PAGE_SIZE
      else ucast (ROUND_UP (drc_size (sample_create sz)) PAGE_SIZE) :: u64)"
    using assms(2) by (auto simp: sample_create_sizes ROUND_UP_def)
  from CreateResource_eq [OF in_out(1,2) assms(1) in_out(3) this(1) assms(3) this(2), of sample_env] assms(4)
  obtain d' where "CtlCreateResource sample_env (create_request sz) d
      = Some (rq_out_status (create_request sz), 8, create_resp (ucast i), d')"
    "g_VirglContextList d' = upd_first (\<lambda>x. vc_Id x = vc_Id c)
        (insert_resource (new_buffer sample_blob i (ucast sz) md)) (g_VirglContextList d)"
    "g_Idrs d' = idrs" "g_Memory d' = m"
    by (fastforce simp: sample_env_def with_context_def)
  then show ?thesis by (intro exI [of _ d']) (simp add: VirtioVgpuIoControl_def create_dispatch)
qed

definition sample_created :: "u64 \<Rightarrow> u64 \<Rightarrow> u64 \<Rightarrow> virgl_resource" where
  "sample_created i sz va = new_buffer sample_blob i sz \<lparr>md_VirtualAddress = va, md_PhysicalAddress = va + 0x100000\<rparr>"

lemma sample_run_steps:
  "\<exists>d. steps sample_env sample_start sample_events d
    \<and> g_VirglContextList d = [\<lparr>vc_Id = 7, vc_ResourceList = [sample_created 2 0x2000 0x101000, sample_created 1 0x1000 0x100000]\<rparr>]
    \<and> vm_VirtualAddress (g_Memory d) = 0x100000"
proof -
  let ?e = sample_env
  have s0: "steps ?e sample_start [Request IOCTL_VIRTIO_VGPU_CONTEXT_INIT init_request] started_context"
    using steps.more [OF steps.none step.request [OF sample_init]] by simp
  have "GetIdFromIdrWithoutCache (g_Idrs started_context) VIRGL_RESOURCE_ID_TYPE 4
      = (1, [\<lparr>idr_Id = 2, idr_FreeIdList = [], idr_Initilaized = True\<rparr>, \<lparr>idr_Id = 1, idr_FreeIdList = [], idr_Initilaized = True\<rparr>])"
    "caller (create_request 0x1000) started_context \<lparr>vc_Id = 7, vc_ResourceList = []\<rparr>" "g_Memory started_context = sample_memory"
    by (simp_all add: started_context_def sample_start_def InitializeIdr_def Idrs_static_def GetIdFromIdrWithoutCache_def
        idr_consts copy_low_def caller_def GetVirglContextFromListUnsafe_def create_request_def numeral_2_eq_2)
  from create_step [OF this(2) _ this(1)] this(3) sample_steps(1) obtain d1 where
    d1: "step ?e started_context (Request IOCTL_VIRTIO_VGPU_RESOURCE_CREATE (create_request 0x1000)) d1"
    "g_VirglContextList d1 = [\<lparr>vc_Id = 7, vc_ResourceList = [sample_created 1 0x1000 0x100000]\<rparr>]"
    "g_Idrs d1 = [\<lparr>idr_Id = 2, idr_FreeIdList = [], idr_Initilaized = True\<rparr>, \<lparr>idr_Id = 1, idr_FreeIdList = [], idr_Initilaized = True\<rparr>]"
    "g_Memory d1 = sample_state [True, False, False, False, False, False, False, False] 0x7000 1"
    by (fastforce simp: started_context_def insert_resource_def sample_created_def)
  have "GetIdFromIdrWithoutCache (g_Idrs d1) VIRGL_RESOURCE_ID_TYPE 4
      = (2, [\<lparr>idr_Id = 3, idr_FreeIdList = [], idr_Initilaized = True\<rparr>, \<lparr>idr_Id = 1, idr_FreeIdList = [], idr_Initilaized = True\<rparr>])"
    "caller (create_request 0x2000) d1 \<lparr>vc_Id = 7, vc_ResourceList = [sample_created 1 0x1000 0x100000]\<rparr>"
    by (simp_all add: d1 GetIdFromIdrWithoutCache_def idr_consts copy_low_def caller_def
        GetVirglContextFromListUnsafe_def create_request_def)
  from create_step [OF this(2) _ this(1)] d1(4) sample_steps(2) obtain d2 where
    d2: "step ?e d1 (Request IOCTL_VIRTIO_VGPU_RESOURCE_CREATE (create_request 0x2000)) d2"
    "g_VirglContextList d2 = [\<lparr>vc_Id = 7, vc_ResourceList = [sample_created 2 0x2000 0x101000, sample_created 1 0x1000 0x100000]\<rparr>]"
    "g_Memory d2 = sample_state [True, True, True, False, False, False, False, False] 0x5000 3"
    by (fastforce simp: d1(2) insert_resource_def sample_created_def)
  have "steps ?e sample_start sample_events d2"
    using steps.more [OF steps.more [OF s0 d1(1)] d2(1)] by (simp add: sample_events_def)
  with d2 show ?thesis by (intro exI [of _ d2]) (simp add: sample_state_def)
qed
lemma reachable_inv:
  assumes "steps e d0 evs d" and "started d0" and "env_ok e" and "length evs < 2 ^ 32 - 1"
  shows "\<exists>L. (accepts_all (en_kernel e) \<longrightarrow> L = {#}) \<and> driver_inv L {#} [] d"
  using steps_kept [OF assms] by (auto simp: kept_def)

subsection \<open>Memory\<close>

text \<open>C1: in every state the driver reaches, two regions of vgpu memory that belong to resources
  or to submissions the host has not completed, of whatever processes, share no page, and every
  page of theirs is marked as used in the allocator.\<close>

theorem reachable_regions_disjoint:
  assumes "steps e d0 evs d" and "started d0" and "env_ok e" and "length evs < 2 ^ 32 - 1"
    and "{#r, q#} \<subseteq># driver_regions d"
  shows "region_pages (vm_VirtualAddress (g_Memory d)) r \<inter> region_pages (vm_VirtualAddress (g_Memory d)) q = {}
    \<and> (\<forall>k \<in> region_pages (vm_VirtualAddress (g_Memory d)) r. page_used (vm_RegionBitmap (g_Memory d)) k)"
proof -
  obtain L where "driver_inv L {#} [] d" using reachable_inv [OF assms(1-4)] by blast
  then have "mem_owned (driver_regions d) (g_Memory d)" by (simp add: driver_inv_def driver_regions_def)
  moreover have "r \<in># driver_regions d" using assms(5) by (auto simp: insert_subset_eq_iff)
  ultimately show ?thesis using mem_owned_disjoint [OF _ assms(5)] mem_owned_used by blast
qed

lemma sample_run_regions:
  assumes "g_VirglContextList d = [\<lparr>vc_Id = 7, vc_ResourceList = [sample_created 2 0x2000 0x101000, sample_created 1 0x1000 0x100000]\<rparr>]"
  shows "{#(0x101000, 0x2000), (0x100000, 0x1000)#} \<subseteq># driver_regions d"
proof -
  have "held res_regions [] d = {#(0x101000, 0x2000), (0x100000, 0x1000)#}"
    by (simp add: assms held_def owned_total_def res_regions_def sample_created_def new_buffer_def)
  then show ?thesis by (simp add: driver_regions_def)
qed

theorem reachable_regions_disjoint_witness:
  "\<exists>d. steps sample_env sample_start sample_events d
    \<and> {#(0x101000, 0x2000), (0x100000, 0x1000)#} \<subseteq># driver_regions d
    \<and> region_pages 0x100000 (0x101000, 0x2000) \<inter> region_pages 0x100000 (0x100000, 0x1000) = {}
    \<and> (\<forall>k \<in> region_pages 0x100000 (0x101000, 0x2000). page_used (vm_RegionBitmap (g_Memory d)) k)"
proof -
  obtain d where d: "steps sample_env sample_start sample_events d" "vm_VirtualAddress (g_Memory d) = 0x100000"
    "g_VirglContextList d = [\<lparr>vc_Id = 7, vc_ResourceList = [sample_created 2 0x2000 0x101000, sample_created 1 0x1000 0x100000]\<rparr>]"
    using sample_run_steps by blast
  note r = sample_run_regions [OF d(3)]
  have "length sample_events < 2 ^ 32 - 1" by (simp add: sample_events_def)
  from reachable_regions_disjoint [OF d(1) sample_started sample_env_ok(1) this r] d(1,2) r show ?thesis
    by (intro exI [of _ d]) simp
qed

subsection \<open>Ids\<close>

text \<open>C5: in every state the driver reaches in fewer than \<open>2 ^ 32 - 1\<close> events, each request being one
  step, no two resources of any contexts have the same id, no id is the reserved 0, and no process
  has two contexts.  (After \<open>2 ^ 32 - 1\<close> ids the counter starts again, \<open>resource_id_wraps\<close>; two
  requests for a context that overlap give a process two, \<open>init_race_duplicates\<close>.)\<close>

theorem reachable_ids_unique:
  assumes "steps e d0 evs d" and "started d0" and "env_ok e" and "length evs < 2 ^ 32 - 1"
  shows "distinct (concat (map (\<lambda>c. map vr_Id (vc_ResourceList c)) (g_VirglContextList d)))
    \<and> 0 \<notin> set (concat (map (\<lambda>c. map vr_Id (vc_ResourceList c)) (g_VirglContextList d)))
    \<and> distinct (map vc_Id (g_VirglContextList d))"
proof -
  obtain L where inv: "driver_inv L {#} [] d" using reachable_inv [OF assms] by blast
  moreover have "distinct (map vc_Id (g_VirglContextList d))" using inv by (simp add: driver_inv_def)
  ultimately show ?thesis using inv_ids by blast
qed

theorem reachable_ids_unique_witness:
  "\<exists>d. steps sample_env sample_start sample_events d
    \<and> concat (map (\<lambda>c. map vr_Id (vc_ResourceList c)) (g_VirglContextList d)) = [2, 1]
    \<and> distinct (concat (map (\<lambda>c. map vr_Id (vc_ResourceList c)) (g_VirglContextList d)))"
proof -
  obtain d where d: "steps sample_env sample_start sample_events d"
    "g_VirglContextList d = [\<lparr>vc_Id = 7, vc_ResourceList = [sample_created 2 0x2000 0x101000, sample_created 1 0x1000 0x100000]\<rparr>]"
    using sample_run_steps by blast
  have "length sample_events < 2 ^ 32 - 1" by (simp add: sample_events_def)
  from reachable_ids_unique [OF d(1) sample_started sample_env_ok(1) this] d show ?thesis
    by (intro exI [of _ d]) (simp add: sample_created_def new_buffer_def)
qed

subsection \<open>Pool blocks and MDLs\<close>

text \<open>C6: in every state the driver reaches, the block of every command in the queues is allocated
  and the driver has freed no block or MDL it did not hold; if the virtqueues never rejected
  a command, no other block is allocated, so none was lost.\<close>

theorem reachable_buffers_accounted:
  assumes "steps e d0 evs d" and "started d0" and "env_ok e" and "length evs < 2 ^ 32 - 1"
  shows "image_mset bf_pBuf (mset (concat (dv_VirtQueues (dr_dev d)))) \<subseteq># mset (dv_pool (dr_dev d))
    \<and> (accepts_all (en_kernel e) \<longrightarrow>
         mset (dv_pool (dr_dev d)) = image_mset bf_pBuf (mset (concat (dv_VirtQueues (dr_dev d))))
       \<and> dv_lookaside (dr_dev d) = length (concat (dv_VirtQueues (dr_dev d))))
    \<and> (\<forall>a. Fault_pool_free a \<notin> set (dv_faults (dr_dev d)))"
proof -
  obtain L where L: "accepts_all (en_kernel e) \<longrightarrow> L = {#}" "driver_inv L {#} [] d"
    using reachable_inv [OF assms] by blast
  then have a: "device_acct L (dr_dev d)" by (simp add: driver_inv_def)
  then have "Fault_pool_free x \<notin> set (dv_faults (dr_dev d))" for x
    by (auto simp: device_acct_def)
  with a L(1) show ?thesis by (auto simp: device_acct_def simp del: mset_concat)
qed

theorem reachable_buffers_accounted_witness:
  "\<exists>d. steps sample_env sample_start sample_events d
    \<and> mset (dv_pool (dr_dev d)) = image_mset bf_pBuf (mset (concat (dv_VirtQueues (dr_dev d))))
    \<and> (\<forall>a. Fault_pool_free a \<notin> set (dv_faults (dr_dev d)))"
proof -
  obtain d where d: "steps sample_env sample_start sample_events d" using sample_run_steps by blast
  have "length sample_events < 2 ^ 32 - 1" by (simp add: sample_events_def)
  from reachable_buffers_accounted [OF d(1) sample_started sample_env_ok(1) this] d sample_env_ok(2) show ?thesis
    by blast
qed

text \<open>C11: in every state the driver reaches, each MDL that maps a resource into a process is still
  allocated and belongs to that resource alone, so closing the resource unmaps and frees it once.\<close>

theorem reachable_mdls_live:
  assumes "steps e d0 evs d" and "started d0" and "env_ok e" and "length evs < 2 ^ 32 - 1"
  shows "mset (concat (map (\<lambda>c. map (\<lambda>r. sh_pMdl (mb_Share (vr_Buffer r)))
      (filter (\<lambda>r. vr_bForBuffer r \<and> sh_pMdl (mb_Share (vr_Buffer r)) \<noteq> 0) (vc_ResourceList c))) (g_VirglContextList d)))
    \<subseteq># mset (k_mdls d)"
proof -
  let ?mdls = "\<lambda>rs. map (\<lambda>r. sh_pMdl (mb_Share (vr_Buffer r)))
      (filter (\<lambda>r. vr_bForBuffer r \<and> sh_pMdl (mb_Share (vr_Buffer r)) \<noteq> 0) rs)"
  have "total res_mdls rs = mset (?mdls rs)" for rs
    by (induction rs) (simp_all add: res_mdls_def Let_def)
  then have "owned_total res_mdls cs = mset (concat (map (\<lambda>c. ?mdls (vc_ResourceList c)) cs))" for cs
    unfolding owned_total_def by (induction cs) simp_all
  moreover obtain L where "driver_inv L {#} [] d" using reachable_inv [OF assms] by blast
  ultimately show ?thesis by (simp add: driver_inv_def held_def del: mset_concat)
qed
definition map_request :: request where
  "map_request = sample_request (encode_drm_map \<lparr>dmp_offset = 0, dmp_handle = 1, dmp_pad = 0\<rparr>) 8"

lemma map_step:
  assumes "g_VirglContextList d = [\<lparr>vc_Id = 7, vc_ResourceList = [sample_created 2 0x2000 0x101000, sample_created 1 0x1000 0x100000]\<rparr>]"
  shows "\<exists>d' res. step sample_env d (Request IOCTL_VIRTIO_VGPU_MAP map_request) d'
    \<and> vr_bForBuffer res \<and> sh_pMdl (mb_Share (vr_Buffer res)) = 0x5000
    \<and> g_VirglContextList d' = [\<lparr>vc_Id = 7, vc_ResourceList = [sample_created 2 0x2000 0x101000, res]\<rparr>]"
proof -
  let ?sh = "\<lparr>sh_pMdl = 0x5000, sh_Size = 0x1000, sh_UserAdderss = 0x7000, sh_KernelAddress = 0x100000\<rparr>"
  let ?c = "\<lparr>vc_Id = 7, vc_ResourceList = [sample_created 2 0x2000 0x101000, sample_created 1 0x1000 0x100000]\<rparr>"
  have "caller map_request d ?c" "takes_input map_request (encode_drm_map \<lparr>dmp_offset = 0, dmp_handle = 1, dmp_pad = 0\<rparr>)"
    "has_output map_request 8" "rq_in map_request = encode_drm_map \<lparr>dmp_offset = 0, dmp_handle = 1, dmp_pad = 0\<rparr>"
    "rq_mdl map_request = 0x5000" "rq_map map_request = Some 0x7000"
    by (simp_all add: map_request_def caller_def GetVirglContextFromListUnsafe_def assms sample_input)
  then have "CtlMap sample_env map_request d = Some (rq_out_status map_request, 8, le64 0x7000,
      with_context 7 (with_resource 1 (set_share ?sh)) (d\<lparr>k_mdls := 0x5000 # k_mdls d, k_umaps := (0x7000, 0x5000) # k_umaps d\<rparr>))"
    by (simp add: CtlMap_unfold frame_passed GetResourceFromList_def GetResourceFromListUnsafe_def
        sample_created_def new_buffer_def CreateUserShareMemory_def sample_blob_def sample_buffer_def Let_def)
  moreover have "dispatch sample_env IOCTL_VIRTIO_VGPU_MAP map_request d = CtlMap sample_env map_request d"
    by (simp add: dispatch_def ioctl_code_defs ctl_code_defs)
  ultimately show ?thesis
    by (intro exI [of _ "with_context 7 (with_resource 1 (set_share ?sh)) (d\<lparr>k_mdls := 0x5000 # k_mdls d, k_umaps := (0x7000, 0x5000) # k_umaps d\<rparr>)"]
        exI [of _ "set_share ?sh (sample_created 1 0x1000 0x100000)"])
      (simp add: VirtioVgpuIoControl_def with_context_def assms with_resource_def sample_created_def
        new_buffer_def set_share_def)
qed

theorem reachable_mdls_live_witness:
  "\<exists>d. steps sample_env sample_start (sample_events @ [Request IOCTL_VIRTIO_VGPU_MAP map_request]) d
    \<and> 0x5000 \<in> set (k_mdls d)"
proof -
  obtain d0 where d0: "steps sample_env sample_start sample_events d0"
    "g_VirglContextList d0 = [\<lparr>vc_Id = 7, vc_ResourceList = [sample_created 2 0x2000 0x101000, sample_created 1 0x1000 0x100000]\<rparr>]"
    using sample_run_steps by blast
  obtain d res where d: "step sample_env d0 (Request IOCTL_VIRTIO_VGPU_MAP map_request) d"
    "vr_bForBuffer res" "sh_pMdl (mb_Share (vr_Buffer res)) = 0x5000"
    "g_VirglContextList d = [\<lparr>vc_Id = 7, vc_ResourceList = [sample_created 2 0x2000 0x101000, res]\<rparr>]"
    using map_step [OF d0(2)] by blast
  note run = steps.more [OF d0(1) d(1)]
  have "length (sample_events @ [Request IOCTL_VIRTIO_VGPU_MAP map_request]) < 2 ^ 32 - 1"
    by (simp add: sample_events_def)
  from reachable_mdls_live [OF run sample_started sample_env_ok(1) this] d have "0x5000 \<in># mset (k_mdls d)"
    by (auto simp: sample_created_def new_buffer_def sample_blob_def sample_buffer_def)
  with run show ?thesis by auto
qed

end
