(* ===== verification/Vgpu_Submissions.thy ===== *)
theory Vgpu_Submissions
  imports Vgpu_Reachable
begin

text \<open>
  The life of a submission: the command stream copied into vgpu memory, the resources it names
  marked busy, the command queued, and what its completion gives back.
\<close>

unbundle bit_operations_syntax

subsection \<open>Submitting\<close>

lemma write_bytes_read:
  assumes "i < length bs" and "length bs < 2 ^ 64"
  shows "write_bytes va bs mem (va + of_nat i) = bs ! i"
proof -
  have "unat (of_nat i :: u64) = i" using assms by (simp add: unat_of_nat take_bit_nat_eq_self)
  then show ?thesis using assms(1) by (simp add: write_bytes_def)
qed

lemma submit_pushed:
  assumes "SubmitCommand k ctx md sz n ids cnt f obj dv = (status, dv')" and "accepts_all k"
    and "2 \<le> length (dv_VirtQueues dv)"
  shows "status = STATUS_SUCCESS \<and> (\<exists>b. dv_VirtQueues dv' = (dv_VirtQueues dv)[COMMAND_QUEUE := dv_VirtQueues dv ! COMMAND_QUEUE @ [b]]
    \<and> is_submit (bf_cmd b) \<and> hdr_ctx_id (cmd_hdr (bf_cmd b)) = ctx \<and> hdr_fence_id (cmd_hdr (bf_cmd b)) = f
    \<and> bf_ResourceIds b = ids \<and> bf_ResourceIdsCount b = cnt \<and> bf_FenceObject b = obj
    \<and> bf_pDataBuf b = md_VirtualAddress md \<and> bf_DataBufSize b = sz)"
proof -
  from SubmitCommand_push [OF assms(1)] obtain b sg where
    p: "PushQueue k COMMAND_QUEUE sg 2 0 b (snd (AllocateCommandBuffer k 32 0 False 0 dv)) = (status, dv')" and
    b: "bf_pDataBuf b = md_VirtualAddress md" "bf_DataBufSize b = sz" "bf_ResourceIds b = ids"
      "bf_ResourceIdsCount b = cnt" "bf_FenceObject b = obj"
      "bf_cmd b = Cmd_cmd_submit (zero_cmd_submit\<lparr>sb_hdr := set_fence f (hdr_for VIRTIO_GPU_CMD_SUBMIT_3D ctx), sb_size := ucast n\<rparr>)"
    by blast
  have "COMMAND_QUEUE < length (dv_VirtQueues dv)" "dv_VirtQueues dv \<noteq> []" using assms(3) by (auto simp: COMMAND_QUEUE_def)
  with p have "status = STATUS_SUCCESS"
    "dv_VirtQueues dv' = (dv_VirtQueues dv)[COMMAND_QUEUE := dv_VirtQueues dv ! COMMAND_QUEUE @ [b]]"
    using assms(2) by (auto simp: PushQueue_def accepts_all_def alloc_device Let_def)
  with b show ?thesis by (intro conjI exI [of _ b]) (simp_all add: is_submit_def del: ctrl_type_code.simps)
qed

text \<open>C10: a submission with handles and an out-fence that gets its memory copies the whole command
  stream there, marks the resources busy with the next fence id, and queues one command that
  names the memory, the handles, the fence id and the fence object.\<close>

theorem submit_works:
  assumes "takes_input r (encode_drm_execbuffer cmd)" and "caller r d c"
    and "deb_flags cmd = VIRTGPU_EXECBUF_FENCE_FD_OUT"
    and "rq_reference r (deb_out_fence_fd cmd) = (s1, obj)" and "NT_SUCCESS s1" and "obj \<noteq> 0"
    and "rq_probe r (deb_command cmd) (ucast (deb_size cmd)) = (s2, Some bs)" and "NT_SUCCESS s2"
    and "length bs = unat (deb_size cmd)" and "deb_size cmd \<le> 0xFFFFF000"
    and "AllocateVgpuMemory (en_rtl e) (ucast (ROUND_UP (deb_size cmd) PAGE_SIZE)) (g_Memory d) = (Some md, m)"
    and "GetIdFromIdrWithoutCache (g_Idrs d) FENCE_ID_TYPE 8 = (f, idrs)"
    and "deb_num_bo_handles cmd \<noteq> 0" and "rq_pool r"
    and "rq_probe r (deb_bo_handles cmd) (4 * ucast (deb_num_bo_handles cmd)) = (s3, Some hb)" and "NT_SUCCESS s3"
    and "hs = decode_handles (unat (deb_num_bo_handles cmd)) hb"
    and "driver_inv L X Ps d" and "accepts_all (en_kernel e)"
  shows "\<exists>b d'. CtlSubmitCommand e r d = Some (STATUS_SUCCESS, 48, rq_out r, d')
    \<and> dv_VirtQueues (dr_dev d') = (dv_VirtQueues (dr_dev d))[COMMAND_QUEUE := dv_VirtQueues (dr_dev d) ! COMMAND_QUEUE @ [b]]
    \<and> completes b (vc_Id c) hs f \<and> bf_FenceObject b = obj \<and> bf_pDataBuf b = md_VirtualAddress md
    \<and> bf_DataBufSize b = ucast (ROUND_UP (deb_size cmd) PAGE_SIZE)
    \<and> (\<forall>i < length bs. k_mem d' (md_VirtualAddress md + of_nat i) = bs ! i)
    \<and> caller r d' (UpdateResourceState hs True f c) \<and> g_Memory d' = m \<and> g_Idrs d' = idrs"
proof -
  let ?sz = "ucast (ROUND_UP (deb_size cmd) PAGE_SIZE) :: u64"
  let ?d0 = "d\<lparr>k_objects := obj # k_objects d, g_Memory := m,
      k_mem := write_bytes (md_VirtualAddress md) (take (unat (deb_size cmd)) bs) (k_mem d), g_Idrs := idrs\<rparr>"
  let ?d1 = "with_context (vc_Id c) (UpdateResourceState hs True f) ?d0"
  obtain status dv where s: "SubmitCommand (en_kernel e) (vc_Id c) md ?sz (ucast (deb_size cmd)) (Some hs)
      (ucast (deb_num_bo_handles cmd)) f obj (dr_dev d) = (status, dv)"
    by (cases "SubmitCommand (en_kernel e) (vc_Id c) md ?sz (ucast (deb_size cmd)) (Some hs)
      (ucast (deb_num_bo_handles cmd)) f obj (dr_dev d)")
  have "2 \<le> length (dv_VirtQueues (dr_dev d))" using assms(18) by (simp add: driver_inv_def device_acct_def)
  from submit_pushed [OF s assms(19) this] obtain b where
    b: "status = STATUS_SUCCESS" "dv_VirtQueues dv = (dv_VirtQueues (dr_dev d))[COMMAND_QUEUE := dv_VirtQueues (dr_dev d) ! COMMAND_QUEUE @ [b]]"
      "is_submit (bf_cmd b)" "hdr_ctx_id (cmd_hdr (bf_cmd b)) = vc_Id c" "hdr_fence_id (cmd_hdr (bf_cmd b)) = f"
      "bf_ResourceIds b = Some hs" "bf_ResourceIdsCount b = ucast (deb_num_bo_handles cmd)" "bf_FenceObject b = obj"
      "bf_pDataBuf b = md_VirtualAddress md" "bf_DataBufSize b = ?sz" by blast
  have "unat (deb_size cmd) \<le> 0xFFFFF000" using assms(10) by (simp add: word_le_nat_alt)
  then have "unat ?sz = 4096 * ((unat (deb_size cmd) + 4095) div 4096)"
    by (simp add: unat_ucast_u32_u64 unat_ROUND_UP)
  then have fits: "\<not> ?sz < ucast (deb_size cmd)"
    by (simp add: word_less_nat_alt unat_ucast_u32_u64)
  have "CtlSubmitCommand e r d = Some (STATUS_SUCCESS, 48, rq_out r, ?d1\<lparr>dr_dev := dv\<rparr>)"
    using assms(1-8,11-17) fits s
    by (simp add: CtlSubmitCommand_unfold frame_passed takes_input_def submit_in_fence_def submit_out_fence_def
        copy_command_def submit_handles_def Let_def b(1) VIRTGPU_EXECBUF_FENCE_FD_OUT_def
        VIRTGPU_EXECBUF_FENCE_FD_IN_def)
  moreover have "caller r ?d1 (UpdateResourceState hs True f c)"
    by (rule caller_update [OF assms(2)]) simp_all
  then have "caller r (?d1\<lparr>dr_dev := dv\<rparr>) (UpdateResourceState hs True f c)"
    by (simp add: caller_def GetVirglContextFromListUnsafe_def)
  moreover have len: "length bs < 2 ^ 64"
    unfolding assms(9) by (rule less_trans [OF unat_less_u32]) simp
  have "\<forall>i < length bs. k_mem ?d1 (md_VirtualAddress md + of_nat i) = bs ! i"
    using assms(9) write_bytes_read [OF _ len] by (simp add: with_context_def)
  moreover have "completes b (vc_Id c) hs f"
    using b(3-7) assms(17) by (simp add: completes_def unat_ucast_u32_u64)
  ultimately show ?thesis
    by (intro exI [of _ b] exI [of _ "?d1\<lparr>dr_dev := dv\<rparr>"]) (simp add: b)
qed
definition sample_execbuffer :: drm_virtgpu_execbuffer where
  "sample_execbuffer = \<lparr>deb_flags = VIRTGPU_EXECBUF_FENCE_FD_OUT, deb_size = 16, deb_command = 0x6000, deb_bo_handles = 0x6100,
     deb_num_bo_handles = 2, deb_ring_idx = 0, deb_in_fence_fd = 0, deb_out_fence_fd = 4\<rparr>"

lemma sample_alloc_page:
  "AllocateVgpuMemory rtl_first_fit 0x1000 (g_Memory sample_driver)
     = (Some \<lparr>md_VirtualAddress = 0x103000, md_PhysicalAddress = 0x203000\<rparr>,
        sample_state [True, True, True, True, False, False, False, False] 0x4000 4)"
  unfolding sample_driver_simps by code_simp

theorem submit_works_witness:
  "\<exists>b d'. CtlSubmitCommand sample_env (sample_request (encode_drm_execbuffer sample_execbuffer) 0) sample_driver
       = Some (STATUS_SUCCESS, 48, [], d')
     \<and> dv_VirtQueues (dr_dev d') = [[b], []] \<and> bf_FenceObject b = 0x9004 \<and> bf_pDataBuf b = 0x103000
     \<and> bf_DataBufSize b = 0x1000 \<and> k_mem d' 0x103000 = 0xAB \<and> k_mem d' 0x10300F = 0xAB"
proof -
  let ?r = "sample_request (encode_drm_execbuffer sample_execbuffer) 0"
  have draw: "GetIdFromIdrWithoutCache (g_Idrs sample_driver) FENCE_ID_TYPE 8
      = (6, [\<lparr>idr_Id = 4, idr_FreeIdList = [], idr_Initilaized = True\<rparr>, \<lparr>idr_Id = 7, idr_FreeIdList = [], idr_Initilaized = True\<rparr>])"
    by (simp add: sample_driver_def GetIdFromIdrWithoutCache_def idr_consts copy_low_def Let_def)
  have "takes_input ?r (encode_drm_execbuffer sample_execbuffer)" "caller ?r sample_driver sample_context"
    by (simp_all add: sample_input sample_caller)
  moreover have "rq_reference ?r h = (STATUS_SUCCESS, h + 0x9000)" for h by (simp add: sample_request_def)
  moreover have "ucast (ROUND_UP (deb_size sample_execbuffer) PAGE_SIZE) = (0x1000 :: u64)"
    by (simp add: sample_execbuffer_def ROUND_UP_def)
  ultimately show ?thesis
    using submit_works [OF _ _ _ _ _ _ sample_simps(6) _ _ _ _ draw _ _ sample_simps(6) _ refl sample_driver_inv sample_env_ok(2),
        of "encode_drm_execbuffer sample_execbuffer" 0 sample_execbuffer sample_context STATUS_SUCCESS "0x9004"
          "\<lparr>md_VirtualAddress = 0x103000, md_PhysicalAddress = 0x203000\<rparr>"]
      sample_alloc_page
    by (fastforce simp: sample_execbuffer_def sample_env_def sample_device_def COMMAND_QUEUE_def dest: spec [of _ 0] spec [of _ 15])
qed

subsection \<open>Completing\<close>

text \<open>C9: taking a completed submission off its queue gives back, once each, the block of the command
  and the vgpu memory of the stream, signals the fence object and leaves the invariant; the
  reference to the fence object, taken when it was submitted, is kept.\<close>

theorem completion_releases:
  assumes "completes b ctx hs f" and "bf_FenceObject b \<noteq> 0"
    and "driver_inv L X [] d" and "q < NumVirtQueues d" and "b \<in> set (dv_VirtQueues (dr_dev d) ! q)" and "rtl_ok (en_rtl e)"
  shows "driver_inv L X [] (VirtioVgpuReadFromQueue e q [(b, resp)] d)
    \<and> add_mset (bf_pBuf b) (mset (dv_pool (dr_dev (VirtioVgpuReadFromQueue e q [(b, resp)] d)))) = mset (dv_pool (dr_dev d))
    \<and> add_mset (bf_pDataBuf b, bf_DataBufSize b) (driver_regions (VirtioVgpuReadFromQueue e q [(b, resp)] d)) = driver_regions d
    \<and> g_Memory (VirtioVgpuReadFromQueue e q [(b, resp)] d) = FreeVgpuMemory (en_rtl e) (bf_pDataBuf b) (bf_DataBufSize b) (g_Memory d)
    \<and> k_signals (VirtioVgpuReadFromQueue e q [(b, resp)] d) = k_signals d @ [bf_FenceObject b]
    \<and> k_objects (VirtioVgpuReadFromQueue e q [(b, resp)] d) = k_objects d"
proof -
  let ?d1 = "on_dev (completed q b) d"
  let ?d = "complete_buffer e b resp ?d1"
  let ?busy = "case GetVirglContextFromListUnsafe ctx ?d1 of None \<Rightarrow> ?d1
    | Some c \<Rightarrow> with_context (vc_Id c) (UpdateResourceState hs False f) ?d1"
  have ty: "hdr_type (cmd_hdr (bf_cmd b)) = ctrl_type_code VIRTIO_GPU_CMD_SUBMIT_3D"
    using assms(1) by (simp add: completes_def is_submit_def)
  have eq: "?d = on_dev (FreeCommandBuffer b) (?busy\<lparr>k_signals := k_signals d @ [bf_FenceObject b],
      g_Memory := FreeVgpuMemory (en_rtl e) (bf_pDataBuf b) (bf_DataBufSize b) (g_Memory d)\<rparr>)"
    using assms(1,2) unfolding complete_buffer_def Let_def ty ctrl_type_of_code
    by (simp add: completes_def KeSetEvent_def on_dev_def with_context_def split: option.split
        del: UpdateResourceState.simps)
  have busy: "?busy = ?d1\<lparr>g_VirglContextList := g_VirglContextList ?busy\<rparr>"
    by (simp add: with_context_def split: option.split)
  have used: "used_ok q [(b, resp)] d" using assms(4,5) by (simp add: used_ok_def)
  have inv: "driver_inv L X [] ?d" using inv_read [OF assms(3) used assms(6)] by simp
  have a: "device_acct L (dr_dev d)" and q: "q < length (dv_VirtQueues (dr_dev d))"
    using assms(3,4) by (simp_all add: driver_inv_def NumVirtQueues_def)
  note m = mset_concat_remove [OF q assms(5)]
  have "bf_pBuf b \<in># mset (dv_pool (dr_dev d))" "bf_pBuf b \<noteq> 0"
    using a inv_get_buf(2) [OF assms(3-5)] unfolding device_acct_def m [symmetric] by simp_all
  then have "add_mset (bf_pBuf b) (mset (dv_pool (FreeCommandBuffer b (completed q b (dr_dev d))))) = mset (dv_pool (dr_dev d))"
    by (simp add: FreeCommandBuffer_def completed_def)
  moreover have "queue_regions (dr_dev d) = add_mset (bf_pDataBuf b, bf_DataBufSize b) (queue_regions (completed q b (dr_dev d)))"
    using assms(1) unfolding queue_regions_def completed_def m [symmetric]
    by (simp add: buf_regions_def completes_def del: mset_concat)
  moreover have "held res_regions [] (?busy\<lparr>k_signals := x, g_Memory := y\<rparr>) = held res_regions [] d" for x y
    by (simp add: held_def with_context_def owned_same total_UpdateResourceState split: option.split
        del: UpdateResourceState.simps)
  moreover have "dr_dev ?busy = completed q b (dr_dev d)" "k_objects ?busy = k_objects d"
    by (simp_all add: with_context_def split: option.split)
  ultimately show ?thesis using inv by (simp add: driver_regions_def eq)
qed

text \<open>A submission in flight: fence 5, the resources 2 and 1, a page of memory.\<close>

definition sample_submitted :: driver where
  "sample_submitted = sample_driver\<lparr>
     dr_dev := sample_device\<lparr>dv_VirtQueues := [[sample_submit 5 \<lparr>bf_FenceObject := 0x9004\<rparr>], []], dv_pool := [0x8001], dv_lookaside := 1\<rparr>,
     g_Memory := sample_state [True, True, True, True, False, False, False, False] 0x4000 4\<rparr>"

lemma sample_submitted_inv: "driver_inv {#} {#} [] sample_submitted"
proof -
  have "mem_owned {#(0x103000, 0x1000), (0x101000, 0x2000), (0x100000, 0x1000)#}
      (sample_state [True, True, True, True, False, False, False, False] 0x4000 4)"
    using alloc_owned [OF sample_memory_used rtl_first_fit_ok _ sample_alloc_page [unfolded sample_driver_simps]] by simp
  moreover have "queue_regions (dr_dev sample_submitted) = {#(0x103000, 0x1000)#}"
    by (simp add: queue_regions_def buf_regions_def sample_submitted_def sample_submit_def is_submit_def
        del: ctrl_type_code.simps)
  moreover have h: "held g [] sample_submitted = held g [] sample_driver" "listed sample_submitted = listed sample_driver" for g
    by (simp_all add: sample_submitted_def)
  moreover have "held res_regions [] sample_driver = {#(0x101000, 0x2000), (0x100000, 0x1000)#}"
    by (simp add: held_def owned_total_def sample_context_def sample_resource_def sample_busy_def sample_blob_def
        res_regions_def sample_buffer_def)
  moreover have "device_acct {#} (dr_dev sample_submitted)"
    by (simp add: device_acct_def sample_submitted_def sample_device_def sample_submit_def cmd_wf_def)
  moreover have "queue_ok i I (dr_dev sample_submitted)" for i I
    by (simp add: queue_ok_def queue_cmds_def cmd_ok_def is_query_def map_ids_def sample_submitted_def sample_submit_def)
  ultimately show ?thesis
    using sample_driver_inv by (simp add: driver_inv_def) (simp add: sample_submitted_def)
qed

theorem completion_releases_witness:
  "\<exists>d'. VirtioVgpuReadFromQueue sample_env 0 [(sample_submit 5 \<lparr>bf_FenceObject := 0x9004\<rparr>, sample_response)] sample_submitted = d'
    \<and> dv_pool (dr_dev d') = [] \<and> k_signals d' = [0x9004] \<and> driver_inv {#} {#} [] d'
    \<and> vm_RegionBitmap (g_Memory d') = [True, True, True, False, False, False, False, False]"
proof -
  let ?b = "sample_submit 5 \<lparr>bf_FenceObject := 0x9004\<rparr>"
  have "completes ?b 7 [2, 1] 5" using sample_completes [of 5] by (simp add: completes_def)
  moreover have "0 < NumVirtQueues sample_submitted" "?b \<in> set (dv_VirtQueues (dr_dev sample_submitted) ! 0)" "rtl_ok (en_rtl sample_env)"
    using sample_env_ok by (simp_all add: NumVirtQueues_def sample_submitted_def env_ok_def)
  moreover have "vm_RegionBitmap (FreeVgpuMemory rtl_first_fit 0x103000 0x1000 (sample_state [True, True, True, True, False, False, False, False] 0x4000 4))
      = [True, True, True, False, False, False, False, False]" by code_simp
  ultimately show ?thesis
    using completion_releases [OF _ _ sample_submitted_inv, of ?b 7 "[2, 1]" 5 0 sample_env sample_response]
    by (simp add: sample_submitted_def sample_submit_def sample_env_def sample_driver_def sample_start_def
        sample_device_def)
qed
text \<open>A stream longer than \<open>0xFFFFF000\<close> bytes: the rounded size wraps to 0, no memory is
  reserved, and the copy runs over whatever lies at the address returned.\<close>

lemma submit_overruns:
  assumes "takes_input r (encode_drm_execbuffer cmd)" and "caller r d c" and "deb_flags cmd = 0" and "deb_num_bo_handles cmd = 0"
    and "rq_probe r (deb_command cmd) (ucast (deb_size cmd)) = (s, Some bs)" and "NT_SUCCESS s"
    and "0xFFFFF000 < deb_size cmd" and "AllocateVgpuMemory (en_rtl e) 0 (g_Memory d) = (Some md, m)"
  shows "\<exists>status dv. CtlSubmitCommand e r d = Some (status, 48, rq_out r,
      d\<lparr>g_Memory := m, k_mem := write_bytes (md_VirtualAddress md) (take (unat (deb_size cmd)) bs) (k_mem d), dr_dev := dv\<rparr>)
    \<and> SubmitCommand (en_kernel e) (vc_Id c) md 0 (ucast (deb_size cmd)) None 0 0 0
        ((dr_dev d)\<lparr>dv_faults := dv_faults (dr_dev d) @ [Fault_overrun (md_VirtualAddress md)]\<rparr>) = (status, dv)"
proof -
  have z: "ROUND_UP (deb_size cmd) PAGE_SIZE = 0" using assms(7) by (intro ROUND_UP_wraps_u32) (simp add: word_less_nat_alt)
  obtain status dv where s: "SubmitCommand (en_kernel e) (vc_Id c) md 0 (ucast (deb_size cmd)) None 0 0 0
      ((dr_dev d)\<lparr>dv_faults := dv_faults (dr_dev d) @ [Fault_overrun (md_VirtualAddress md)]\<rparr>) = (status, dv)"
    by (cases "SubmitCommand (en_kernel e) (vc_Id c) md 0 (ucast (deb_size cmd)) None 0 0 0
      ((dr_dev d)\<lparr>dv_faults := dv_faults (dr_dev d) @ [Fault_overrun (md_VirtualAddress md)]\<rparr>)")
  have "0 < (ucast (deb_size cmd) :: u64)"
    using assms(7) by (simp add: word_less_nat_alt unat_ucast_u32_u64)
  then have "CtlSubmitCommand e r d = Some (status, 48, rq_out r,
      d\<lparr>g_Memory := m, k_mem := write_bytes (md_VirtualAddress md) (take (unat (deb_size cmd)) bs) (k_mem d), dr_dev := dv\<rparr>)"
    using assms(1-6,8) s z
    by (simp add: CtlSubmitCommand_unfold frame_passed takes_input_def submit_in_fence_def submit_out_fence_def
        copy_command_def submit_handles_def fault_at_def on_dev_def Let_def)
  with s show ?thesis by blast
qed

end
