(* ===== verification/Vgpu_Replies.thy ===== *)
theory Vgpu_Replies
  imports Vgpu_Reachable
begin

text \<open>
  What holds of every request, whichever handler serves it: how often it is completed and that its
  output has the size of the caller's buffer, that it leaves the contexts and the memory of other
  processes alone, and exactly when it does not return.
\<close>

unbundle bit_operations_syntax

subsection \<open>Completion and output\<close>

text \<open>The framework's answers: the functions that retrieve and lock buffers finish at once, and a
  buffer is shorter than the address space.\<close>

definition framework_ok :: "request \<Rightarrow> bool" where
  "framework_ok r \<longleftrightarrow> rq_in_status r \<noteq> STATUS_PENDING \<and> rq_out_status r \<noteq> STATUS_PENDING
     \<and> (\<forall>a n. fst (rq_probe r a n) \<noteq> STATUS_PENDING) \<and> length (rq_out r) < 2 ^ 64"

definition well_typed :: "request \<Rightarrow> reply option \<Rightarrow> bool" where
  "well_typed r R \<longleftrightarrow> (case R of None \<Rightarrow> True
     | Some (status, n, out, d) \<Rightarrow> status \<noteq> STATUS_PENDING \<and> length out = length (rq_out r))"

lemma well_typed_simps [simp]:
  "well_typed r None"
  "well_typed r (Some (status, n, out, d)) \<longleftrightarrow> status \<noteq> STATUS_PENDING \<and> length out = length (rq_out r)"
  by (simp_all add: well_typed_def)

lemma not_pending [simp]:
  "STATUS_SUCCESS \<noteq> STATUS_PENDING" "STATUS_UNSUCCESSFUL \<noteq> STATUS_PENDING"
  "STATUS_INSUFFICIENT_RESOURCES \<noteq> STATUS_PENDING" "STATUS_NOT_SUPPORTED \<noteq> STATUS_PENDING"
  "\<not> NT_SUCCESS s \<Longrightarrow> s \<noteq> STATUS_PENDING"
  using NT_SUCCESS_codes(2) by (auto simp: status_defs)

lemma typed_input:
  "framework_ok r \<Longrightarrow> (\<And>n. well_typed r (body (rq_in_status r) n)) \<Longrightarrow> well_typed r (with_input r sz d body)"
  by (simp add: with_input_def framework_ok_def Let_def)

lemma typed_output:
  "framework_ok r \<Longrightarrow> (\<And>n. length (rq_out r) = unat sz \<Longrightarrow> well_typed r (body (rq_out_status r) n)) \<Longrightarrow>
   well_typed r (with_output r sz d body)"
  by (auto simp: with_output_def retrieved_def framework_ok_def Let_def unat_of_nat take_bit_nat_eq_self)

lemma typed_caller: "(\<And>c. well_typed r (body c)) \<Longrightarrow> well_typed r (with_caller r n d body)"
  by (simp add: with_caller_def split: option.split)

lemmas typed_frame = typed_input typed_output typed_caller

lemma param_loop_status:
  "param_loop ids ps status i = (status', i') \<Longrightarrow> status' = status \<or> status' = STATUS_UNSUCCESSFUL"
  by (induction ps arbitrary: status i) (auto split: if_splits)

lemma GetCaps_length: "GetCaps k i v d = Some (bytes, d') \<Longrightarrow> length bytes = unat (cs_max_size (cps_Data (g_Capsets d) ! i))"
  by (auto simp: GetCaps_def Let_def split: if_splits prod.splits option.splits)

lemma typed_option: "(\<And>x. R = Some x \<Longrightarrow> well_typed r (f x)) \<Longrightarrow> well_typed r (case R of None \<Rightarrow> None | Some x \<Rightarrow> f x)"
  by (cases R) simp_all

lemma length_create_resp [simp]: "length (create_resp i) = 8"
  by (simp add: create_resp_def)

lemma requests_typed:
  assumes "framework_ok r"
  shows "well_typed r (CtlInitVirglContext e r n d)" "well_typed r (CtlGetCaps e r d)" "well_typed r (CtlGetParams e r d)"
    "well_typed r (CtlCloseResource e r d)" "well_typed r (CtlWait e r d)" "well_typed r (CtlTransferHost e h r d)"
    "well_typed r (CtlMap e r d)" "well_typed r (CtlCreateResource e r d)" "well_typed r (CtlCreateBlobResource e r d)"
proof -
  have ok: "rq_in_status r \<noteq> STATUS_PENDING" "rq_out_status r \<noteq> STATUS_PENDING"
    "rq_probe r a k = (s, m) \<Longrightarrow> s \<noteq> STATUS_PENDING" for a k s m
    using assms by (auto simp: framework_ok_def) (metis fst_conv)
  show "well_typed r (CtlInitVirglContext e r n d)"
    by (auto simp: CtlInitVirglContext_def init_context_check_def init_context_insert_def Let_def ok
        split: sum.split prod.split option.split dest: ok(3) param_loop_status)
  show "well_typed r (CtlGetCaps e r d)"
    unfolding CtlGetCaps_def Let_def
    by (intro typed_input [OF assms]) (auto simp: unat_ucast_u32_u64 split: option.split intro!: typed_output [OF assms] dest: GetCaps_length)
  show "well_typed r (CtlGetParams e r d)"
    unfolding CtlGetParams_def
    by (rule typed_option, intro typed_input [OF assms] typed_output [OF assms]) (simp add: Let_def ok)
  show "well_typed r (CtlCloseResource e r d)"
    unfolding CtlCloseResource_unfold by (intro typed_frame assms) (simp add: Let_def ok split: option.split)
  show "well_typed r (CtlWait e r d)"
    unfolding CtlWait_unfold by (intro typed_frame assms) (simp add: Let_def ok KeWait_def split: option.split)
  show "well_typed r (CtlTransferHost e h r d)"
    unfolding CtlTransferHost_unfold by (intro typed_frame assms) (simp add: Let_def ok split: option.split)
  show "well_typed r (CtlMap e r d)"
    unfolding CtlMap_unfold by (intro typed_frame assms) (simp add: Let_def ok split: option.split prod.split)
  show "well_typed r (CtlCreateResource e r d)"
    unfolding CtlCreateResource_unfold by (intro typed_frame assms) (simp add: Let_def ok split: option.split prod.split)
  show "well_typed r (CtlCreateBlobResource e r d)"
    unfolding CtlCreateBlobResource_unfold by (intro typed_frame assms) (simp add: Let_def split: option.split prod.split)
qed

lemma SubmitCommand_status:
  assumes "SubmitCommand k ctx m bufsz sz ids n f obj d = (status, d')"
  shows "status \<noteq> STATUS_PENDING"
  using SubmitCommand_push [OF assms] by (auto simp: PushQueue_def Let_def split: if_splits)

lemma fences_status:
  "submit_in_fence r cmd d = Inl (Some (s, d')) \<Longrightarrow> s \<noteq> STATUS_PENDING"
  "submit_out_fence r cmd d = Inl (s, d') \<Longrightarrow> s \<noteq> STATUS_PENDING"
  "submit_handles r cmd i f d = Inl (s, d') \<Longrightarrow> s \<noteq> STATUS_PENDING"
  by (auto simp: submit_in_fence_def submit_out_fence_def submit_handles_def KeWait_def Let_def
      split: if_splits prod.splits option.splits)

lemma Submit_typed: "framework_ok r \<Longrightarrow> well_typed r (CtlSubmitCommand e r d)"
  unfolding CtlSubmitCommand_unfold Let_def
proof (intro typed_input typed_caller, goal_cases)
  case (2 n c)
  then show ?case
    by (auto split: sum.split option.split prod.split dest: fences_status SubmitCommand_status)
qed

lemma dispatch_typed: "framework_ok r \<Longrightarrow> well_typed r (dispatch e code r d)"
  using requests_typed [of r] Submit_typed [of r]
  by (auto simp: dispatch_def CtlDestroyVirglContext_def Let_def split: option.split)

text \<open>C8: whatever a process asks for, \<open>VirtioVgpuIoControl\<close> completes a request it returns from exactly
  once, and the handlers write no more than the output buffer the caller gave.  When the queue was
  stopped while the handler waited, and \<open>VirtioVgpuIoStop\<close> could not unmark the request as
  cancelled, the request has been completed before and is completed twice in all.\<close>

theorem request_completions:
  assumes "framework_ok r" and "VirtioVgpuIoControl e code r d = Some (completions, out, d')"
  shows "(\<exists>status n. completions = [(status, n)]) \<and> length out = length (rq_out r)
    \<and> (\<forall>flags unmark. length (VirtioVgpuIoStop flags unmark @ completions) =
         (if (flags AND WdfRequestStopActionSuspend \<noteq> 0 \<or> flags AND WdfRequestStopActionPurge \<noteq> 0)
             \<and> (flags AND WdfRequestStopRequestCancelable = 0 \<or> unmark \<noteq> STATUS_CANCELLED) then 2 else 1))"
proof -
  have "(\<exists>status n. completions = [(status, n)]) \<and> length out = length (rq_out r)"
    using dispatch_typed [OF assms(1), of e code d] assms(2)
    by (auto simp: VirtioVgpuIoControl_def split: option.splits prod.splits)
  then show ?thesis by (auto simp: VirtioVgpuIoStop_def Let_def)
qed

theorem request_completions_witness:
  "\<exists>completions out d'. VirtioVgpuIoControl sample_env IOCTL_VIRTIO_VGPU_CONTEXT_INIT init_request sample_start
       = Some (completions, out, d') \<and> length completions = 1 \<and> length out = 0
     \<and> length (VirtioVgpuIoStop WdfRequestStopActionPurge STATUS_SUCCESS @ completions) = 2"
proof -
  have "framework_ok init_request" by (simp add: framework_ok_def init_request_def)
  note once = request_completions [OF this sample_init]
  have "length (VirtioVgpuIoStop WdfRequestStopActionPurge STATUS_SUCCESS @ [(STATUS_SUCCESS, 16 :: u64)]) = 2"
    by (simp add: VirtioVgpuIoStop_def WdfRequestStopActionPurge_def WdfRequestStopActionSuspend_def
        WdfRequestStopRequestCancelable_def Let_def)
  with once show ?thesis using sample_init by (auto simp: init_request_def)
qed

subsection \<open>Isolation\<close>

abbreviation others_same :: "u32 \<Rightarrow> driver \<Rightarrow> driver \<Rightarrow> bool" where
  "others_same p d \<equiv> \<lambda>d'. \<forall>j. j \<noteq> p \<longrightarrow> context_loop j (g_VirglContextList d') = context_loop j (g_VirglContextList d)"

lemma contexts_simps [simp]:
  "g_VirglContextList (fault_at f d) = g_VirglContextList d" "g_VirglContextList (IoFreeMdl m d) = g_VirglContextList d"
  "g_VirglContextList (MmUnmapIoSpace a s d) = g_VirglContextList d"
  "g_VirglContextList (MmUnmapLockedPages a m d) = g_VirglContextList d"
  "g_VirglContextList (free_context ctx d) = g_VirglContextList d"
  "g_VirglContextList (copy_command va al sz bs d) = g_VirglContextList d"
  by (simp_all add: fault_at_def IoFreeMdl_def MmUnmapIoSpace_def MmUnmapLockedPages_def free_context_def
      copy_command_def Let_def)

lemma contexts_delete [simp]: "g_VirglContextList (DeleteResource e ctx r d) = g_VirglContextList d"
  by (simp add: DeleteResource_def DeleteUserShareMemory_def Let_def)

lemma contexts_destroy_loop [simp]: "g_VirglContextList (destroy_loop e ctx rs d) = g_VirglContextList d"
  by (induction rs arbitrary: d) simp_all

lemma contexts_share: "CreateUserShareMemory r sh d = (ok, sh', d') \<Longrightarrow> g_VirglContextList d' = g_VirglContextList d"
  by (auto simp: CreateUserShareMemory_def Let_def split: if_splits option.splits)

lemma update_others:
  assumes "\<And>c. vc_Id (f c) = vc_Id c" and "j \<noteq> i"
  shows "context_loop j (upd_first (\<lambda>c. vc_Id c = i) f cs) = context_loop j cs"
  using contexts.search_update [of f j i cs] assms by simp

lemma delete_others: "j \<noteq> i \<Longrightarrow> context_loop j (del_first (\<lambda>c. vc_Id c = i) cs) = context_loop j cs"
  by (induction cs) auto

lemma vc_Id_changes [simp]:
  "vc_Id (insert_resource res c) = vc_Id c" "vc_Id (with_resource i g c) = vc_Id c"
  by (simp_all add: insert_resource_def with_resource_def)

lemma others_with_context:
  assumes "\<And>c. vc_Id (f c) = vc_Id c" and "g_VirglContextList d1 = g_VirglContextList d"
  shows "others_same i d (with_context i f d1)"
  using assms by (simp add: update_others)

lemma fences_contexts:
  "submit_in_fence r cmd d = Inl (Some (s, d')) \<Longrightarrow> g_VirglContextList d' = g_VirglContextList d"
  "submit_in_fence r cmd d = Inr d' \<Longrightarrow> g_VirglContextList d' = g_VirglContextList d"
  "submit_out_fence r cmd d = Inl (s, d') \<Longrightarrow> g_VirglContextList d' = g_VirglContextList d"
  "submit_out_fence r cmd d = Inr (x, d') \<Longrightarrow> g_VirglContextList d' = g_VirglContextList d"
  by (auto simp: submit_in_fence_def submit_out_fence_def KeWait_def Let_def split: if_splits prod.splits option.splits)

lemma handles_others:
  "submit_handles r cmd i f d = Inl (s, d') \<Longrightarrow> others_same i d d'"
  "submit_handles r cmd i f d = Inr (hs, d') \<Longrightarrow> others_same i d d'"
  by (auto simp: submit_handles_def Let_def update_others split: if_splits prod.splits option.splits
      simp del: UpdateResourceState.simps)

lemma requests_others:
  "reply_all (others_same (rq_pid r) d) (CtlInitVirglContext e r n d)"
  "reply_all (others_same (rq_pid r) d) (CtlGetCaps e r d)"
  "reply_all (others_same (rq_pid r) d) (CtlGetParams e r d)"
  "reply_all (others_same (rq_pid r) d) (CtlCloseResource e r d)"
  "reply_all (others_same (rq_pid r) d) (CtlWait e r d)"
  "reply_all (others_same (rq_pid r) d) (CtlTransferHost e h r d)"
  "reply_all (others_same (rq_pid r) d) (CtlMap e r d)"
  "reply_all (others_same (rq_pid r) d) (CtlCreateResource e r d)"
  "reply_all (others_same (rq_pid r) d) (CtlCreateBlobResource e r d)"
  "reply_all (others_same (rq_pid r) d) (CtlSubmitCommand e r d)"
proof -
  show "reply_all (others_same (rq_pid r) d) (CtlInitVirglContext e r n d)"
    by (simp add: CtlInitVirglContext_def init_context_insert_def Let_def split: sum.split prod.split)
  show "reply_all (others_same (rq_pid r) d) (CtlGetCaps e r d)"
    unfolding CtlGetCaps_def Let_def
    by (intro reply_input) (simp, simp split: option.split, intro allI impI reply_output,
        simp_all split: option.split)
  show "reply_all (others_same (rq_pid r) d) (CtlGetParams e r d)"
    unfolding CtlGetParams_def
    by (rule reply_option, intro reply_frame) (auto simp: Let_def split: if_splits)
  show "reply_all (others_same (rq_pid r) d) (CtlCloseResource e r d)"
    unfolding CtlCloseResource_unfold
    by (intro reply_frame) (simp_all add: Let_def update_others split: option.split)
  show "reply_all (others_same (rq_pid r) d) (CtlWait e r d)"
    unfolding CtlWait_unfold by (intro reply_frame) (simp_all add: Let_def split: option.split)
  show "reply_all (others_same (rq_pid r) d) (CtlTransferHost e h r d)"
    unfolding CtlTransferHost_unfold
    by (intro reply_frame) (simp_all add: Let_def update_others split: option.split del: UpdateResourceState.simps)
  show "reply_all (others_same (rq_pid r) d) (CtlMap e r d)"
    unfolding CtlMap_unfold
    by (intro reply_frame) (auto simp: Let_def KeWait_def update_others dest: contexts_share split: option.split prod.split)
  show "reply_all (others_same (rq_pid r) d) (CtlCreateResource e r d)"
    unfolding CtlCreateResource_unfold
    by (intro reply_frame) (simp_all add: Let_def update_others split: option.split prod.split)
  show "reply_all (others_same (rq_pid r) d) (CtlCreateBlobResource e r d)"
    unfolding CtlCreateBlobResource_unfold
    by (intro reply_frame) (simp_all add: Let_def update_others split: option.split prod.split)
  show "reply_all (others_same (rq_pid r) d) (CtlSubmitCommand e r d)"
    unfolding CtlSubmitCommand_unfold Let_def
  proof (intro reply_input reply_caller, goal_cases)
    case (3 _ n c)
    then show ?case
      by (simp split: sum.split option.split prod.split) (auto dest!: fences_contexts handles_others)
  qed simp_all
qed

lemma destroy_others:
  "GetVirglContextFromList i d = Some c \<Longrightarrow> others_same i d (snd (CtlDestroyVirglContext e c d))"
  using contexts.search_SomeD [of i "g_VirglContextList d" c]
  by (simp add: CtlDestroyVirglContext_def GetVirglContextFromList_def GetVirglContextFromListUnsafe_def
      delete_others Let_def)

lemma dispatch_others: "reply_all (others_same (rq_pid r) d) (dispatch e code r d)"
proof -
  have "reply_all (others_same (rq_pid r) d) (case GetVirglContextFromList (rq_pid r) d of
      None \<Rightarrow> Some (s, 0, out, d)
    | Some c \<Rightarrow> let (status, d') = CtlDestroyVirglContext e c d in Some (status, 0, out, d'))" for s out
    using destroy_others by (simp add: case_prod_beta split: option.split)
  then show ?thesis
    unfolding dispatch_def by (simp only: requests_others reply_all_simps split: if_split) simp
qed
text \<open>The page of an address inside a region is a page of the region, so a new region has no address
  of a region that is already owned.\<close>

lemma owned_address:
  assumes "mem_owned R m" and "r \<in># R" and "unat (a - fst r) < unat (snd r)"
  shows "unat (a - vm_VirtualAddress m) div 4096 \<in> region_pages (vm_VirtualAddress m) r"
proof -
  let ?base = "vm_VirtualAddress m"
  define i n where "i = unat (fst r - ?base) div 4096" and "n = unat (snd r) div 4096"
  have "page_aligned ?base r" using assms(1,2) by (simp add: mem_owned_def)
  then have i: "unat (fst r - ?base) = 4096 * i" and n: "unat (snd r) = 4096 * n"
    using page_multiple [of "unat (fst r - ?base)"] page_multiple [of "unat (snd r)"]
    by (simp_all add: page_aligned_def i_def n_def)
  have "0 < unat (snd r) div 4096" using assms(3) n by simp
  note b = region_bounds [OF assms(1,2) this]
  have "unat (fst r - ?base) + unat (a - fst r) < 2 ^ LENGTH(64)" using b(2,3) assms(3) by simp
  then have "unat ((fst r - ?base) + (a - fst r)) = 4096 * i + unat (a - fst r)"
    unfolding i [symmetric] by (rule unat_add_lem [THEN iffD1])
  moreover have "(fst r - ?base) + (a - fst r) = a - ?base" by simp
  ultimately have "unat (a - ?base) = 4096 * i + unat (a - fst r)" by (simp only:)
  then have "unat (a - ?base) div 4096 = i + unat (a - fst r) div 4096" by simp
  moreover have "unat (a - fst r) div 4096 < n"
    using assms(3) by (intro less_mult_imp_div_less) (simp add: n mult.commute)
  ultimately have "i \<le> unat (a - ?base) div 4096 \<and> unat (a - ?base) div 4096 < i + n" by simp
  then show ?thesis by (simp add: region_pages_def region_index_def i_def n_def)
qed

lemma alloc_fresh_addresses:
  assumes "mem_owned R m" and "rtl_ok rtl" and "unat sz mod 4096 = 0" and "AllocateVgpuMemory rtl sz m = (Some md, m')"
    and "r \<in># R" and "unat (a - fst r) < unat (snd r)"
  shows "\<not> unat (a - md_VirtualAddress md) < unat sz"
proof
  assume "unat (a - md_VirtualAddress md) < unat sz"
  moreover have own: "mem_owned (add_mset (md_VirtualAddress md, sz) R) m'"
    by (rule alloc_owned [OF assms(1,2,3,4)])
  ultimately have "unat (a - vm_VirtualAddress m') div 4096 \<in> region_pages (vm_VirtualAddress m') (md_VirtualAddress md, sz)"
    using owned_address [OF own, of "(md_VirtualAddress md, sz)" a] by simp
  moreover have "unat (a - vm_VirtualAddress m') div 4096 \<in> region_pages (vm_VirtualAddress m') r"
    using owned_address [OF own _ assms(6)] assms(5) by simp
  moreover have "{#(md_VirtualAddress md, sz), r#} \<subseteq># add_mset (md_VirtualAddress md, sz) R" using assms(5) by simp
  ultimately show False using mem_owned_disjoint [OF own] by blast
qed
lemma mem_simps [simp]:
  "k_mem (fault_at f d) = k_mem d" "k_mem (IoFreeMdl m d) = k_mem d" "k_mem (MmUnmapIoSpace a s d) = k_mem d"
  "k_mem (MmUnmapLockedPages a m d) = k_mem d" "k_mem (free_context ctx d) = k_mem d"
  "k_mem (on_dev g d) = k_mem d" "k_mem (with_context i h d) = k_mem d"
  by (simp_all add: fault_at_def IoFreeMdl_def MmUnmapIoSpace_def MmUnmapLockedPages_def free_context_def
      on_dev_def with_context_def)

lemma mem_delete [simp]: "k_mem (DeleteResource e ctx r d) = k_mem d"
  by (simp add: DeleteResource_def DeleteUserShareMemory_def Let_def)

lemma mem_destroy_loop [simp]: "k_mem (destroy_loop e ctx rs d) = k_mem d"
  by (induction rs arbitrary: d) simp_all

lemma mem_destroy [simp]: "k_mem (snd (CtlDestroyVirglContext e c d)) = k_mem d"
  by (simp add: CtlDestroyVirglContext_def Let_def)

lemma mem_share: "CreateUserShareMemory r sh d = (ok, sh', d') \<Longrightarrow> k_mem d' = k_mem d"
  by (auto simp: CreateUserShareMemory_def Let_def split: if_splits option.splits)

lemma mem_fences:
  "submit_in_fence r cmd d = Inl (Some (s, d')) \<Longrightarrow> k_mem d' = k_mem d \<and> g_Memory d' = g_Memory d"
  "submit_in_fence r cmd d = Inr d' \<Longrightarrow> k_mem d' = k_mem d \<and> g_Memory d' = g_Memory d"
  "submit_out_fence r cmd d = Inl (s, d') \<Longrightarrow> k_mem d' = k_mem d \<and> g_Memory d' = g_Memory d"
  "submit_out_fence r cmd d = Inr (x, d') \<Longrightarrow> k_mem d' = k_mem d \<and> g_Memory d' = g_Memory d"
  "submit_handles r cmd i f d = Inl (s, d') \<Longrightarrow> k_mem d' = k_mem d"
  "submit_handles r cmd i f d = Inr (hs, d') \<Longrightarrow> k_mem d' = k_mem d"
  by (auto simp: submit_in_fence_def submit_out_fence_def submit_handles_def KeWait_def Let_def
      split: if_splits prod.splits option.splits)

abbreviation byte_same :: "u64 \<Rightarrow> driver \<Rightarrow> driver \<Rightarrow> bool" where
  "byte_same a d \<equiv> \<lambda>d'. k_mem d' a = k_mem d a"

lemma requests_byte:
  "reply_all (byte_same a d) (CtlInitVirglContext e r n d)" "reply_all (byte_same a d) (CtlGetCaps e r d)"
  "reply_all (byte_same a d) (CtlGetParams e r d)" "reply_all (byte_same a d) (CtlCloseResource e r d)"
  "reply_all (byte_same a d) (CtlWait e r d)" "reply_all (byte_same a d) (CtlTransferHost e h r d)"
  "reply_all (byte_same a d) (CtlMap e r d)" "reply_all (byte_same a d) (CtlCreateBlobResource e r d)"
proof -
  show "reply_all (byte_same a d) (CtlInitVirglContext e r n d)"
    by (simp add: CtlInitVirglContext_def init_context_insert_def Let_def split: sum.split prod.split)
  show "reply_all (byte_same a d) (CtlGetCaps e r d)"
    unfolding CtlGetCaps_def Let_def
    by (intro reply_input) (simp, simp split: option.split, intro allI impI reply_output,
        simp_all split: option.split)
  show "reply_all (byte_same a d) (CtlGetParams e r d)"
    unfolding CtlGetParams_def
    by (rule reply_option, intro reply_frame) (auto simp: Let_def split: if_splits)
  show "reply_all (byte_same a d) (CtlCloseResource e r d)"
    unfolding CtlCloseResource_unfold by (intro reply_frame) (simp_all add: Let_def split: option.split)
  show "reply_all (byte_same a d) (CtlWait e r d)"
    unfolding CtlWait_unfold by (intro reply_frame) (simp_all add: Let_def split: option.split)
  show "reply_all (byte_same a d) (CtlTransferHost e h r d)"
    unfolding CtlTransferHost_unfold by (intro reply_frame) (simp_all add: Let_def split: option.split)
  show "reply_all (byte_same a d) (CtlMap e r d)"
    unfolding CtlMap_unfold
    by (intro reply_frame) (auto simp: Let_def KeWait_def dest: mem_share split: option.split prod.split)
  show "reply_all (byte_same a d) (CtlCreateBlobResource e r d)"
    unfolding CtlCreateBlobResource_unfold
    by (intro reply_frame) (simp_all add: Let_def split: option.split prod.split)
qed

text \<open>\<open>far\<close>: no allocation from the present state returns memory that contains the address.\<close>

definition far :: "env \<Rightarrow> u64 \<Rightarrow> driver \<Rightarrow> bool" where
  "far e a d \<longleftrightarrow> (\<forall>sz md m. unat sz mod 4096 = 0 \<longrightarrow> AllocateVgpuMemory (en_rtl e) sz (g_Memory d) = (Some md, m) \<longrightarrow>
     \<not> unat (a - md_VirtualAddress md) < unat sz)"

lemma far_owned:
  assumes "driver_inv L X Ps d" and "rtl_ok (en_rtl e)" and "r \<in># driver_regions d" and "unat (a - fst r) < unat (snd r)"
  shows "far e a d"
proof -
  have "mem_owned (held res_regions Ps d + queue_regions (dr_dev d) + X) (g_Memory d)"
    using assms(1) by (simp add: driver_inv_def)
  moreover have "r \<in># held res_regions Ps d + queue_regions (dr_dev d) + X"
    using assms(3) by (auto simp: driver_regions_def held_def)
  ultimately show ?thesis
    unfolding far_def using alloc_fresh_addresses [OF _ assms(2) _ _ _ assms(4)] by metis
qed

lemma create_byte: "far e a d \<Longrightarrow> reply_all (byte_same a d) (CtlCreateResource e r d)"
  unfolding CtlCreateResource_unfold
proof (intro reply_frame, goal_cases)
  case (4 _ _ s n c)
  have "AllocateVgpuMemory (en_rtl e) PAGE_SIZE (g_Memory d) = (Some md, m) \<Longrightarrow> \<not> unat (a - md_VirtualAddress md) < 4096"
    "AllocateVgpuMemory (en_rtl e) (ucast (ROUND_UP (x :: u32) PAGE_SIZE)) (g_Memory d) = (Some md, m) \<Longrightarrow>
      \<not> unat (a - md_VirtualAddress md) < unat (ucast (ROUND_UP x PAGE_SIZE) :: u64)" for md m x
    using 4(1) [unfolded far_def, rule_format, of PAGE_SIZE md m]
      4(1) [unfolded far_def, rule_format, OF round_up_page, of x md m] by simp_all
  then show ?case
    by (auto simp: Let_def zero_bytes_def word_less_nat_alt split: option.split prod.split)
qed simp_all

text \<open>A submission copies no more than it allocated when the rounding does not wrap.\<close>

definition size_ok :: "u32 \<Rightarrow> request \<Rightarrow> bool" where
  "size_ok code r \<longleftrightarrow> (code = IOCTL_VIRTIO_VGPU_EXECBUFFER \<longrightarrow> deb_size (decode_drm_execbuffer (rq_in r)) \<le> 0xFFFFF000)"

lemma copy_far:
  fixes sz :: u32
  assumes "far e a d" and "sz \<le> 0xFFFFF000"
    and "AllocateVgpuMemory (en_rtl e) (ucast (ROUND_UP sz PAGE_SIZE)) (g_Memory d) = (Some md, m)"
  shows "write_bytes (md_VirtualAddress md) (take (unat sz) bs) mem a = mem a"
proof -
  have "unat sz \<le> 0xFFFFF000" using assms(2) by (simp add: word_le_nat_alt)
  then have "unat (ucast (ROUND_UP sz PAGE_SIZE) :: u64) = 4096 * ((unat sz + 4095) div 4096)"
    by (simp add: unat_ucast_u32_u64 unat_ROUND_UP)
  then have "unat sz \<le> unat (ucast (ROUND_UP sz PAGE_SIZE) :: u64)" by simp
  moreover have "\<not> unat (a - md_VirtualAddress md) < unat (ucast (ROUND_UP sz PAGE_SIZE) :: u64)"
    by (rule assms(1) [unfolded far_def, rule_format, OF round_up_page assms(3)])
  ultimately show ?thesis by (simp add: write_bytes_def)
qed

lemma mem_copy [simp]:
  "k_mem (copy_command va al sz bs d) = write_bytes va (take (unat sz) bs) (k_mem d)"
  by (simp add: copy_command_def Let_def)

lemma submit_byte:
  assumes "far e a d" and "deb_size (decode_drm_execbuffer (rq_in r)) \<le> 0xFFFFF000"
  shows "reply_all (byte_same a d) (CtlSubmitCommand e r d)"
  unfolding CtlSubmitCommand_unfold Let_def
proof (intro reply_input reply_caller, goal_cases)
  case (3 _ n c)
  show ?case
    by (simp split: sum.split option.split prod.split)
      (auto dest!: mem_fences simp: copy_far [OF assms])
qed simp_all

lemma dispatch_byte:
  assumes "far e a d" and "size_ok code r"
  shows "reply_all (byte_same a d) (dispatch e code r d)"
proof -
  have "reply_all (byte_same a d) (case GetVirglContextFromList (rq_pid r) d of
      None \<Rightarrow> Some (s, 0, out, d)
    | Some c \<Rightarrow> let (status, d') = CtlDestroyVirglContext e c d in Some (status, 0, out, d'))" for s out
    by (simp add: case_prod_beta split: option.split)
  then show ?thesis
    using assms create_byte [OF assms(1), of r] submit_byte [OF assms(1), of r]
    unfolding dispatch_def by (simp only: requests_byte reply_all_simps size_ok_def split: if_split) simp
qed

text \<open>C4: a request that is not a submission of more than \<open>0xFFFFF000\<close> bytes (\<open>size_ok\<close>) changes nothing of
  another process: the contexts and resources of the others are the same, and so is every byte
  of the memory of any resource or submission there was.  A larger submission does overwrite
  them, since its size wraps to 0 when it is rounded up to pages: \<open>submit_overruns\<close>.\<close>

theorem request_isolated:
  assumes "VirtioVgpuIoControl e code r d = Some (completions, out, d')"
    and "driver_inv L X [] d" and "env_ok e" and "size_ok code r"
    and "p \<noteq> rq_pid r" and "(va, sz) \<in># driver_regions d" and "i < unat sz"
  shows "GetVirglContextFromList p d' = GetVirglContextFromList p d \<and> k_mem d' (va + of_nat i) = k_mem d (va + of_nat i)"
proof -
  obtain s n where d: "dispatch e code r d = Some (s, n, out, d')"
    using assms(1) by (auto simp: VirtioVgpuIoControl_def split: option.splits prod.splits)
  have "rtl_ok (en_rtl e)" using assms(3) by (simp add: env_ok_def)
  moreover have "unat (of_nat i :: u64) < unat sz"
    using assms(7) less_trans [OF assms(7) unat_less_u64] by (simp add: unat_of_nat take_bit_nat_eq_self)
  ultimately have "far e (va + of_nat i) d" using far_owned [OF assms(2) _ assms(6)] by simp
  from dispatch_byte [OF this assms(4)] dispatch_others [of r d e code] assms(5) d show ?thesis
    by (simp add: GetVirglContextFromList_def GetVirglContextFromListUnsafe_def)
qed
theorem request_isolated_witness:
  "\<exists>completions out d'. VirtioVgpuIoControl sample_env IOCTL_VIRTIO_VGPU_CONTEXT_INIT (init_request\<lparr>rq_pid := 9\<rparr>) sample_driver
       = Some (completions, out, d')
    \<and> GetVirglContextFromList 7 d' = Some sample_context \<and> k_mem d' 0x102003 = k_mem sample_driver 0x102003"
proof -
  let ?r = "init_request\<lparr>rq_pid := 9\<rparr>"
  obtain completions out d' where d': "VirtioVgpuIoControl sample_env IOCTL_VIRTIO_VGPU_CONTEXT_INIT ?r sample_driver
      = Some (completions, out, d')"
    by (simp add: VirtioVgpuIoControl_def dispatch_def CtlInitVirglContext_def init_context_check_def
      init_context_insert_def GetVirglContextFromList_def GetVirglContextFromListUnsafe_def init_request_def
      retrieved_def decode_set_params_def sample_context_def Let_def)
  have "size_ok IOCTL_VIRTIO_VGPU_CONTEXT_INIT ?r"
    by (simp add: size_ok_def ioctl_code_defs ctl_code_defs)
  moreover have "held res_regions [] sample_driver = {#(0x101000, 0x2000), (0x100000, 0x1000)#}"
    by (simp add: held_def owned_total_def sample_context_def sample_resource_def sample_busy_def sample_blob_def
        res_regions_def sample_buffer_def)
  then have "(0x101000, 0x2000) \<in># driver_regions sample_driver" by (simp add: driver_regions_def)
  moreover have "GetVirglContextFromList 7 sample_driver = Some sample_context"
    by (simp add: GetVirglContextFromList_def GetVirglContextFromListUnsafe_def sample_context_def)
  ultimately show ?thesis
    using request_isolated [OF d' sample_driver_inv sample_env_ok(1), of 7 "0x101000" "0x2000" "0x1003"] d' by simp
qed

subsection \<open>A process with two contexts\<close>

lemma insert_contexts:
  assumes "init_context_insert e r s i d = (t, d')" and "rq_pool r"
  shows "g_VirglContextList d' = \<lparr>vc_Id = rq_pid r, vc_ResourceList = []\<rparr> # g_VirglContextList d"
  using assms by (auto simp: init_context_insert_def Let_def)

text \<open>C37: when two threads of a process ask for a context and both pass the check before either
  inserts, the process gets two contexts; when it exits, only one of them is destroyed, and
  the other stays in the list for good.\<close>

theorem init_race_duplicates:
  assumes "init_context_check e r n d = Inr (s, m, i)" and "init_context_check e r' n' d = Inr (s', m', i')"
    and "rq_pid r' = rq_pid r" and "rq_pool r" and "rq_pool r'"
    and "init_context_insert e r s i d = (t, d1)" and "init_context_insert e r' s' i' d1 = (t', d2)"
  shows "\<not> distinct (map vc_Id (g_VirglContextList d2))
    \<and> GetVirglContextFromList (rq_pid r) (ProcessNotify e (rq_pid r) False d2) \<noteq> None"
  using insert_contexts [OF assms(6,4)] insert_contexts [OF assms(7,5)] assms(3)
  by (simp add: ProcessNotify_def GetVirglContextFromList_def GetVirglContextFromListUnsafe_def
      CtlDestroyVirglContext_def Let_def)

theorem init_race_duplicates_witness:
  "\<exists>d1 d2. init_context_insert sample_env init_request STATUS_SUCCESS 0 sample_start = (STATUS_SUCCESS, d1)
    \<and> init_context_insert sample_env init_request STATUS_SUCCESS 0 d1 = (STATUS_SUCCESS, d2)
    \<and> GetVirglContextFromList 7 (ProcessNotify sample_env 7 False d2) \<noteq> None"
proof -
  have c: "init_context_check sample_env init_request 0 sample_start = Inr (STATUS_SUCCESS, 16, 0)"
    by (simp add: init_context_check_def GetVirglContextFromList_def GetVirglContextFromListUnsafe_def init_request_def
        retrieved_def decode_set_params_def sample_start_def Let_def)
  have p: "rq_pool init_request" "rq_pid init_request = 7" by (simp_all add: init_request_def)
  obtain d1 where 1: "init_context_insert sample_env init_request STATUS_SUCCESS 0 sample_start = (STATUS_SUCCESS, d1)"
    using p by (simp add: init_context_insert_def Let_def)
  obtain d2 where 2: "init_context_insert sample_env init_request STATUS_SUCCESS 0 d1 = (STATUS_SUCCESS, d2)"
    using p by (simp add: init_context_insert_def Let_def)
  from init_race_duplicates [OF c c refl p(1) p(1) 1 2] 1 2 p show ?thesis by auto
qed

subsection \<open>Requests that do not return\<close>

text \<open>The host accepts every command and answers every query.\<close>

definition host_answers :: "env \<Rightarrow> bool" where
  "host_answers e \<longleftrightarrow> accepts_all (en_kernel e) \<and> (\<forall>i. kn_capset_info (en_kernel e) i \<noteq> None)
     \<and> (\<forall>i v. kn_capset (en_kernel e) i v \<noteq> None)"

text \<open>The requests that have to wait, and for what: a wait without \<open>VIRTGPU_WAIT_NOWAIT\<close> for a busy
  resource of the process, the first mapping of a busy buffer, and a submission whose
  in-fence is not signalled.\<close>

definition sized_input :: "request \<Rightarrow> u64 \<Rightarrow> bool" where
  "sized_input r n \<longleftrightarrow> NT_SUCCESS (rq_in_status r) \<and> of_nat (length (rq_in r)) = n"

definition sized_output :: "request \<Rightarrow> u64 \<Rightarrow> bool" where
  "sized_output r n \<longleftrightarrow> NT_SUCCESS (rq_out_status r) \<and> of_nat (length (rq_out r)) = n"

definition wait_blocked :: "request \<Rightarrow> virgl_context \<Rightarrow> bool" where
  "wait_blocked r c \<longleftrightarrow> sized_input r 8 \<and> sized_output r 4
     \<and> dwt_flags (decode_drm_3d_wait (rq_in r)) AND VIRTGPU_WAIT_NOWAIT = 0
     \<and> (\<exists>res. GetResourceFromListUnsafe c (dwt_handle (decode_drm_3d_wait (rq_in r))) = Some res \<and> \<not> vr_StateEvent res)"

definition map_blocked :: "request \<Rightarrow> virgl_context \<Rightarrow> bool" where
  "map_blocked r c \<longleftrightarrow> sized_input r 16 \<and> sized_output r 8
     \<and> (\<exists>res. GetResourceFromList c (dmp_handle (decode_drm_map (rq_in r))) = Some res
          \<and> vr_bForBuffer res \<and> sh_pMdl (mb_Share (vr_Buffer res)) = 0 \<and> \<not> vr_StateEvent res)"

definition submit_blocked :: "request \<Rightarrow> bool" where
  "submit_blocked r \<longleftrightarrow> sized_input r 48
     \<and> deb_flags (decode_drm_execbuffer (rq_in r)) AND VIRTGPU_EXECBUF_FENCE_FD_IN \<noteq> 0
     \<and> (\<exists>status fence. rq_reference r (deb_in_fence_fd (decode_drm_execbuffer (rq_in r))) = (status, fence)
          \<and> NT_SUCCESS status \<and> \<not> rq_signalled r fence)"

definition blocked :: "u32 \<Rightarrow> request \<Rightarrow> driver \<Rightarrow> bool" where
  "blocked code r d \<longleftrightarrow>
     (\<exists>c. caller r d c \<and> (code = IOCTL_VIRTIO_VGPU_WAIT \<and> wait_blocked r c \<or> code = IOCTL_VIRTIO_VGPU_MAP \<and> map_blocked r c
        \<or> code = IOCTL_VIRTIO_VGPU_EXECBUFFER \<and> submit_blocked r))"

lemma returns_input: "(\<And>s n. body s n \<noteq> None) \<Longrightarrow> with_input r sz d body \<noteq> None"
  by (simp add: with_input_def Let_def)

lemma returns_output: "(\<And>s n. body s n \<noteq> None) \<Longrightarrow> with_output r sz d body \<noteq> None"
  by (simp add: with_output_def Let_def)

lemma returns_caller: "(\<And>c. caller r d c \<Longrightarrow> body c \<noteq> None) \<Longrightarrow> with_caller r n d body \<noteq> None"
  by (simp add: with_caller_def caller_def split: option.split)

lemma returns_option: "R \<noteq> None \<Longrightarrow> (\<And>x. f x \<noteq> None) \<Longrightarrow> (case R of None \<Rightarrow> None | Some x \<Rightarrow> f x) \<noteq> None"
  by (cases R) simp_all

lemmas returns_frame = returns_input returns_output returns_caller

lemma GetCaps_returns:
  assumes "driver_inv L X Ps d" and "host_answers e"
    and "find_caps (take (unat (cps_NumCaps (g_Capsets (dr_dev d)))) (cps_Data (g_Capsets (dr_dev d)))) j v 0 = Some i"
  shows "GetCaps (en_kernel e) i v (dr_dev d) \<noteq> None"
proof -
  let ?caps = "g_Capsets (dr_dev d)" and ?k = "en_kernel e"
  let ?c = "cps_Data ?caps ! i"
  let ?sz = "24 + (ucast (cs_max_size ?c) :: u64)"
  let ?cmd = "Cmd_get_capset (zero_get_capset\<lparr>gc_hdr := hdr_for VIRTIO_GPU_CMD_GET_CAPSET 0,
      gc_capset_id := cs_id ?c, gc_capset_version := v\<rparr>)"
  have a: "device_acct L (dr_dev d)" and inv: "caps_inv ?caps" using assms(1) by (simp_all add: driver_inv_def)
  have "i < length (cps_Data ?caps)" using find_caps_bound [OF assms(3)] by simp
  then have "cs_max_size ?c \<le> 12264" using inv by (simp add: caps_inv_def)
  then have "unat (cs_max_size ?c) \<le> 12264" by (simp add: word_le_nat_alt)
  then have "unat ?sz = 24 + unat (cs_max_size ?c)" by (simp add: unat_word_ariths unat_ucast_u32_u64)
  with \<open>unat (cs_max_size ?c) \<le> 12264\<close> have fits: "sg_chunks ?sz \<le> 3" by (simp add: sg_chunks_def)
  obtain status b d1 where s: "send_command ?k CONTROL_QUEUE ?cmd ?sz True (dr_dev d) = (status, b, d1)"
    by (cases "send_command ?k CONTROL_QUEUE ?cmd ?sz True (dr_dev d)")
  have "status = STATUS_SUCCESS"
    using accepted_status [OF _ fits a queue_bounds(2) s] assms(2) by (simp add: host_answers_def)
  moreover obtain bytes where "kn_capset ?k (cs_id ?c) v = Some bytes"
    using assms(2) unfolding host_answers_def by blast
  ultimately show ?thesis by (simp add: GetCaps_def s Let_def)
qed

lemma GetCapsInfo_returns:
  assumes "driver_inv L X Ps d" and "host_answers e" and "pool_ok (en_kernel e)"
  shows "GetCapsInfo (en_kernel e) (dr_dev d) \<noteq> None"
proof -
  let ?caps = "g_Capsets (dr_dev d)"
  have "unat i < length (cps_Data ?caps)" if "i \<in> set (map of_nat [0..<unat (cps_NumCaps ?caps)] :: u32 list)" for i
  proof -
    from that obtain j where j: "i = of_nat j" "j < unat (cps_NumCaps ?caps)" by auto
    then have "unat i = j" using less_trans [OF j(2) unat_less_u32] by (simp add: unat_of_nat_u32)
    with j(2) assms(1) show ?thesis by (simp add: driver_inv_def caps_inv_def)
  qed
  moreover have "device_acct L (dr_dev d)" using assms(1) by (simp add: driver_inv_def)
  ultimately show ?thesis
    using caps_info_loop_answers [OF _ assms(3)] assms(2) unfolding GetCapsInfo_def host_answers_def by blast
qed

lemma queries_return:
  assumes "driver_inv L X Ps d" and "host_answers e" and "pool_ok (en_kernel e)"
  shows "CtlGetParams e r d \<noteq> None" "CtlGetCaps e r d \<noteq> None"
proof -
  have "(if cps_Initialized (g_Capsets (dr_dev d)) then Some d
      else map_option f (GetCapsInfo (en_kernel e) (dr_dev d))) \<noteq> None" for f
    using GetCapsInfo_returns [OF assms(1-3)] by simp
  then show "CtlGetParams e r d \<noteq> None"
    unfolding CtlGetParams_def by (rule returns_option, intro returns_frame) (simp add: Let_def)
  show "CtlGetCaps e r d \<noteq> None"
    unfolding CtlGetCaps_def Let_def
  proof (intro returns_input, goal_cases)
    case (1 s n)
    show ?case
    proof (split option.split, intro conjI allI impI, simp, intro returns_output)
      fix i s n
      assume "find_caps (take (unat (cps_NumCaps (g_Capsets (dr_dev d)))) (cps_Data (g_Capsets (dr_dev d))))
        (dgc_cap_set_id (decode_drm_get_caps (rq_in r))) (dgc_cap_set_ver (decode_drm_get_caps (rq_in r))) 0 = Some i"
      from GetCaps_returns [OF assms(1,2) this]
      show "(case GetCaps (en_kernel e) i (dgc_cap_set_ver (decode_drm_get_caps (rq_in r))) (dr_dev d) of None \<Rightarrow> None
          | Some (bytes, dv) \<Rightarrow> Some (STATUS_SUCCESS, n, bytes, d\<lparr>dr_dev := dv\<rparr>)) \<noteq> None" by auto
    qed
  qed
qed

text \<open>The three requests that wait.\<close>

lemma input_None: "with_input r sz d body = None \<longleftrightarrow> sized_input r sz \<and> body (rq_in_status r) sz = None"
  by (auto simp: with_input_def sized_input_def retrieved_def Let_def)

lemma output_None: "with_output r sz d body = None \<longleftrightarrow> sized_output r sz \<and> body (rq_out_status r) sz = None"
  by (auto simp: with_output_def sized_output_def retrieved_def Let_def)

lemma caller_None: "with_caller r n d body = None \<longleftrightarrow> (\<exists>c. caller r d c \<and> body c = None)"
  by (simp add: with_caller_def caller_def split: option.split)

lemma wait_None: "CtlWait e r d = None \<longleftrightarrow> (\<exists>c. caller r d c \<and> wait_blocked r c)"
  by (auto simp: CtlWait_unfold input_None output_None caller_None wait_blocked_def KeWait_def Let_def split: option.split)

lemma map_None: "CtlMap e r d = None \<longleftrightarrow> (\<exists>c. caller r d c \<and> map_blocked r c)"
proof -
  have found: "CtlMap_found r s n ctx res d = None \<longleftrightarrow> \<not> vr_StateEvent res" for s n ctx res
    by (simp add: CtlMap_found_def KeWait_def case_prod_beta Let_def)
  have body: "(let cmd = decode_drm_map (rq_in r) in case GetResourceFromList c (dmp_handle cmd) of
        None \<Rightarrow> Some (STATUS_UNSUCCESSFUL, n, rq_out r, d)
      | Some res \<Rightarrow> let buf = vr_Buffer res in
          if \<not> vr_bForBuffer res then Some (STATUS_UNSUCCESSFUL, n, rq_out r, d)
          else if sh_pMdl (mb_Share buf) \<noteq> 0 then Some (s, n, le64 (sh_UserAdderss (mb_Share buf)), d)
          else CtlMap_found r s n (vc_Id c) res d) = None
    \<longleftrightarrow> (\<exists>res. GetResourceFromList c (dmp_handle (decode_drm_map (rq_in r))) = Some res
          \<and> vr_bForBuffer res \<and> sh_pMdl (mb_Share (vr_Buffer res)) = 0 \<and> \<not> vr_StateEvent res)" for c s n
    by (cases "GetResourceFromList c (dmp_handle (decode_drm_map (rq_in r)))") (simp_all add: Let_def found)
  show ?thesis unfolding CtlMap_def input_None output_None caller_None body map_blocked_def by blast
qed

lemma submit_None: "CtlSubmitCommand e r d = None \<longleftrightarrow> (\<exists>c. caller r d c \<and> submit_blocked r)"
proof -
  have fence: "submit_in_fence r (decode_drm_execbuffer (rq_in r)) d = Inl None
      \<longleftrightarrow> deb_flags (decode_drm_execbuffer (rq_in r)) AND VIRTGPU_EXECBUF_FENCE_FD_IN \<noteq> 0
        \<and> (\<exists>status fence. rq_reference r (deb_in_fence_fd (decode_drm_execbuffer (rq_in r))) = (status, fence)
          \<and> NT_SUCCESS status \<and> \<not> rq_signalled r fence)"
    by (auto simp: submit_in_fence_def KeWait_def Let_def split: prod.split)
  have "CtlSubmitCommand_found e r n ctx d = None \<longleftrightarrow> submit_in_fence r (decode_drm_execbuffer (rq_in r)) d = Inl None" for n ctx
    by (auto simp: CtlSubmitCommand_found_def Let_def split: sum.split option.split prod.split)
  then show ?thesis by (auto simp: CtlSubmitCommand_def input_None caller_None submit_blocked_def fence)
qed

lemma returns_if: "x \<noteq> None \<Longrightarrow> y \<noteq> None \<Longrightarrow> (if b then x else y) \<noteq> None"
  by simp

text \<open>C16: when the host accepts the commands and answers the queries, a request does not return exactly
  when it is a wait without \<open>VIRTGPU_WAIT_NOWAIT\<close> for a busy resource, the mapping of a busy
  buffer that is not mapped yet, or a submission with an in-fence that is not signalled; every
  other request returns, whatever its input.\<close>

theorem request_blocks_iff:
  assumes "driver_inv L X [] d" and "env_ok e" and "host_answers e"
  shows "VirtioVgpuIoControl e code r d = None \<longleftrightarrow> blocked code r d"
proof -
  have "pool_ok (en_kernel e)" using assms(2) by (simp add: env_ok_def)
  note queries = queries_return [OF assms(1,3) this]
  have init: "CtlInitVirglContext e r 0 d \<noteq> None"
    by (simp add: CtlInitVirglContext_def Let_def split: sum.split prod.split)
  have close: "CtlCloseResource e r d \<noteq> None"
    unfolding CtlCloseResource_unfold by (intro returns_frame) (simp add: Let_def split: option.split)
  have transfer: "CtlTransferHost e h r d \<noteq> None" for h
    unfolding CtlTransferHost_unfold by (intro returns_frame) (simp add: Let_def split: option.split)
  have create: "CtlCreateResource e r d \<noteq> None"
    unfolding CtlCreateResource_unfold by (intro returns_frame) (simp add: Let_def split: option.split prod.split)
  have blob: "CtlCreateBlobResource e r d \<noteq> None"
    unfolding CtlCreateBlobResource_unfold by (intro returns_frame) (simp add: Let_def split: option.split prod.split)
  have destroy: "(case GetVirglContextFromList (rq_pid r) d of
      None \<Rightarrow> Some (STATUS_UNSUCCESSFUL, 0, rq_out r, d)
    | Some c \<Rightarrow> let (status, d') = CtlDestroyVirglContext e c d in Some (status, 0, rq_out r, d')) \<noteq> None"
    by (simp add: case_prod_beta Let_def split: option.split)
  have io: "VirtioVgpuIoControl e code r d = None \<longleftrightarrow> dispatch e code r d = None"
    by (simp add: VirtioVgpuIoControl_def split: option.split prod.split)
  consider "code = IOCTL_VIRTIO_VGPU_WAIT" | "code = IOCTL_VIRTIO_VGPU_MAP" | "code = IOCTL_VIRTIO_VGPU_EXECBUFFER"
    | "code \<noteq> IOCTL_VIRTIO_VGPU_WAIT" "code \<noteq> IOCTL_VIRTIO_VGPU_MAP" "code \<noteq> IOCTL_VIRTIO_VGPU_EXECBUFFER" by blast
  then show ?thesis
  proof cases
    case 1
    then have "dispatch e code r d = CtlWait e r d" by (simp add: dispatch_def ioctl_code_defs ctl_code_defs)
    with wait_None [of e r d] 1 show ?thesis unfolding io blocked_def by (auto simp: ioctl_code_defs ctl_code_defs)
  next
    case 2
    then have "dispatch e code r d = CtlMap e r d" by (simp add: dispatch_def ioctl_code_defs ctl_code_defs)
    with map_None [of e r d] 2 show ?thesis unfolding io blocked_def by (auto simp: ioctl_code_defs ctl_code_defs)
  next
    case 3
    then have "dispatch e code r d = CtlSubmitCommand e r d" by (simp add: dispatch_def ioctl_code_defs ctl_code_defs)
    with submit_None [of e r d] 3 show ?thesis unfolding io blocked_def by (auto simp: ioctl_code_defs ctl_code_defs)
  next
    case 4
    have "dispatch e code r d \<noteq> None"
      unfolding dispatch_def if_not_P [OF 4(1)] if_not_P [OF 4(2)] if_not_P [OF 4(3)]
      by (intro returns_if init destroy queries close transfer create blob) simp
    with 4 show ?thesis by (simp add: io blocked_def)
  qed
qed

text \<open>Process 7 waits for its busy resource 2: without \<open>VIRTGPU_WAIT_NOWAIT\<close> the request does not
  return, with it it does.\<close>

theorem request_blocks_iff_witness:
  "VirtioVgpuIoControl sample_env IOCTL_VIRTIO_VGPU_WAIT
     (sample_request (encode_drm_3d_wait \<lparr>dwt_handle = 2, dwt_flags = 0\<rparr>) 4) sample_driver = None
   \<and> VirtioVgpuIoControl sample_env IOCTL_VIRTIO_VGPU_WAIT
     (sample_request (encode_drm_3d_wait \<lparr>dwt_handle = 2, dwt_flags = 1\<rparr>) 4) sample_driver \<noteq> None"
proof -
  have "host_answers sample_env"
    using sample_env_ok(2) by (simp add: host_answers_def sample_env_def sample_kernel_def)
  note iff = request_blocks_iff [OF sample_driver_inv sample_env_ok(1) this]
  let ?r = "\<lambda>f. sample_request (encode_drm_3d_wait \<lparr>dwt_handle = 2, dwt_flags = f\<rparr>) 4"
  have "GetResourceFromListUnsafe sample_context 2 = Some sample_busy"
    by (simp add: GetResourceFromListUnsafe_def sample_context_def sample_blob_def sample_busy_def)
  then have "wait_blocked (?r f) sample_context \<longleftrightarrow> f AND VIRTGPU_WAIT_NOWAIT = 0" for f
    by (simp add: wait_blocked_def sized_input_def sized_output_def sample_request_def sample_busy_def)
  moreover have "caller (?r f) sample_driver c \<longleftrightarrow> c = sample_context" for f c
    using sample_caller [of _ 4] by (auto simp: caller_def)
  ultimately have "blocked IOCTL_VIRTIO_VGPU_WAIT (?r f) sample_driver \<longleftrightarrow> f AND VIRTGPU_WAIT_NOWAIT = 0" for f
    by (simp add: blocked_def ioctl_code_defs ctl_code_defs)
  then show ?thesis unfolding iff by (simp add: VIRTGPU_WAIT_NOWAIT_def)
qed

text \<open>A request that waits when its queue is stopped is completed by \<open>VirtioVgpuIoStop\<close>, and once
  more by its handler when the wait is over.\<close>

lemma stopped_request_completed_twice:
  assumes "VirtioVgpuIoControl e code r d = None"
    and "flags AND WdfRequestStopActionPurge \<noteq> 0" and "flags AND WdfRequestStopRequestCancelable = 0"
    and "framework_ok r" and "VirtioVgpuIoControl e code r d1 = Some (completions, out, d2)"
  shows "length (VirtioVgpuIoStop flags unmark @ completions) = 2"
proof -
  have "length (VirtioVgpuIoStop flags unmark) = 1" using assms(2,3) by (simp add: VirtioVgpuIoStop_def)
  moreover have "length completions = 1"
    using dispatch_typed [OF assms(4), of e code d1] assms(5)
    by (auto simp: VirtioVgpuIoControl_def split: option.splits prod.splits)
  ultimately show ?thesis by simp
qed

end
