(* ===== verification/Vgpu_Refinement.thy ===== *)
theory Vgpu_Refinement
  imports Vgpu_Replies
begin

text \<open>
  The abstract specification of the driver: a table that gives each process with a context the
  kinds of its resources by their ids.  The events change the table in the way user mode expects;
  everything else the driver does (memory, queues, fences, mappings) is invisible in it.
\<close>

unbundle bit_operations_syntax

subsection \<open>The table\<close>

datatype kind = Unbacked | Backed | Blob

type_synonym tables = "u32 \<rightharpoonup> u32 \<rightharpoonup> kind"

text \<open>A creation by process \<open>p\<close> adds one resource under an id no process has, or fails.\<close>

definition table_adds :: "u32 \<Rightarrow> (kind \<Rightarrow> bool) \<Rightarrow> tables \<Rightarrow> tables \<Rightarrow> bool" where
  "table_adds p ok t t' \<longleftrightarrow> t' = t
     \<or> (\<exists>tab i k. t p = Some tab \<and> ok k \<and> (\<forall>q tab'. t q = Some tab' \<longrightarrow> tab' i = None) \<and> t' = t(p \<mapsto> tab(i \<mapsto> k)))"

definition table_request :: "u32 \<Rightarrow> request \<Rightarrow> tables \<Rightarrow> tables \<Rightarrow> bool" where
  "table_request code r t t' \<longleftrightarrow>
     (if code = IOCTL_VIRTIO_VGPU_CONTEXT_INIT then
        t' = t \<or> t (rq_pid r) = None \<and> t' = t(rq_pid r \<mapsto> Map.empty)
      else if code = IOCTL_VIRTIO_VGPU_DESTROY_CONTEXT then t' = t(rq_pid r := None)
      else if code = IOCTL_VIRTIO_VGPU_RESOURCE_CREATE then table_adds (rq_pid r) (\<lambda>k. k \<noteq> Blob) t t'
      else if code = IOCTL_VIRTIO_VGPU_BLOB_RESOURCE_CREATE then table_adds (rq_pid r) (\<lambda>k. k = Blob) t t'
      else if code = IOCTL_VIRTIO_VGPU_RESOURCE_CLOSE then
        t' = t \<or> (\<exists>tab k. t (rq_pid r) = Some tab \<and> tab (dcl_handle (decode_drm_gem_close (rq_in r))) = Some k
          \<and> t' = t(rq_pid r \<mapsto> tab(dcl_handle (decode_drm_gem_close (rq_in r)) := None)))
      else t' = t)"

fun table_step :: "event \<Rightarrow> tables \<Rightarrow> tables \<Rightarrow> bool" where
  "table_step (Request code r) t t' = table_request code r t t'"
| "table_step (Notify p create) t t' = (t' = (if create then t else t(p := None)))"
| "table_step _ t t' = (t' = t)"

inductive table_steps :: "event list \<Rightarrow> tables \<Rightarrow> bool" where
  empty: "table_steps [] Map.empty"
| more: "table_steps evs t \<Longrightarrow> table_step ev t t' \<Longrightarrow> table_steps (evs @ [ev]) t'"

subsection \<open>The table of a driver state\<close>

definition kind_of :: "virgl_resource \<Rightarrow> kind" where
  "kind_of r = (if \<not> vr_bForBuffer r then Unbacked else if vr_bForBlob r then Blob else Backed)"

definition table :: "virgl_context \<Rightarrow> u32 \<rightharpoonup> kind" where
  "table c i = map_option kind_of (resource_loop i (vc_ResourceList c))"

definition abs_contexts :: "virgl_context list \<Rightarrow> tables" where
  "abs_contexts cs p = map_option table (context_loop p cs)"

abbreviation tables_of :: "driver \<Rightarrow> tables" where
  "tables_of d \<equiv> abs_contexts (g_VirglContextList d)"

lemma abs_Nil [simp]: "abs_contexts [] = Map.empty"
  by (rule ext) (simp add: abs_contexts_def)

lemma abs_insert: "abs_contexts (c # cs) = (abs_contexts cs)(vc_Id c \<mapsto> table c)"
  by (rule ext) (simp add: abs_contexts_def)

lemma table_empty [simp]: "table \<lparr>vc_Id = i, vc_ResourceList = []\<rparr> = Map.empty"
  by (rule ext) (simp add: table_def)

lemma abs_update:
  assumes "\<And>c. vc_Id (f c) = vc_Id c" and "context_loop i cs = Some c"
  shows "abs_contexts (upd_first (\<lambda>c. vc_Id c = i) f cs) = (abs_contexts cs)(i \<mapsto> table (f c))"
  by (rule ext) (simp add: abs_contexts_def contexts.search_update [OF assms(1)] assms(2))

lemma abs_update_same:
  assumes "\<And>c. vc_Id (f c) = vc_Id c" and "\<And>c. table (f c) = table c"
  shows "abs_contexts (upd_first (\<lambda>c. vc_Id c = i) f cs) = abs_contexts cs"
  by (rule ext)
    (simp add: abs_contexts_def contexts.search_update [OF assms(1)] option.map_comp comp_def assms(2))

lemma abs_delete:
  "distinct (map vc_Id cs) \<Longrightarrow> abs_contexts (del_first (\<lambda>c. vc_Id c = i) cs) = (abs_contexts cs)(i := None)"
  by (rule ext) (simp add: abs_contexts_def contexts.search_delete)

lemma table_insert: "table (insert_resource r c) = (table c)(vr_Id r \<mapsto> kind_of r)"
  by (rule ext) (simp add: table_def insert_resource_def)

lemma table_remove:
  "distinct (map vr_Id (vc_ResourceList c)) \<Longrightarrow> table (remove_resource h c) = (table c)(h := None)"
  by (rule ext) (simp add: table_def remove_resource_def resources.search_delete)

lemma table_change:
  assumes "\<And>r. vr_Id (f r) = vr_Id r" and "\<And>r. kind_of (f r) = kind_of r"
  shows "table (with_resource i f c) = table c"
  by (rule ext)
    (simp add: table_def with_resource_def resources.search_update [OF assms(1)] option.map_comp comp_def assms(2))

lemma kind_state [simp]: "kind_of (resource_state b f r) = kind_of r" "kind_of (set_share sh r) = kind_of r"
  by (simp_all add: kind_of_def set_share_def)

lemma vr_Id_set_share [simp]: "vr_Id (set_share sh r) = vr_Id r"
  by (simp add: set_share_def)

lemma table_busy [simp]: "table (UpdateResourceState is b f c) = table c"
  by (induction "is" arbitrary: c) (simp_all add: table_change split: option.split)

lemma tables_busy [simp]: "tables_of (with_context i (UpdateResourceState is b f) d) = tables_of d"
  by (simp add: abs_update_same)

lemma tables_share [simp]: "tables_of (with_context i (with_resource j (set_share sh)) d) = tables_of d"
  by (simp add: abs_update_same table_change)
subsection \<open>The handlers\<close>

abbreviation tables_same :: "driver \<Rightarrow> driver \<Rightarrow> bool" where
  "tables_same d \<equiv> \<lambda>d'. tables_of d' = tables_of d"

lemma fences_tables:
  "submit_handles r cmd i f d = Inl (s, d') \<Longrightarrow> tables_of d' = tables_of d"
  "submit_handles r cmd i f d = Inr (hs, d') \<Longrightarrow> tables_of d' = tables_of d"
  by (auto simp: submit_handles_def Let_def abs_update_same split: if_splits prod.splits option.splits
      simp del: UpdateResourceState.simps)

lemma requests_tables:
  "reply_all (tables_same d) (CtlGetCaps e r d)" "reply_all (tables_same d) (CtlGetParams e r d)"
  "reply_all (tables_same d) (CtlWait e r d)" "reply_all (tables_same d) (CtlTransferHost e h r d)"
  "reply_all (tables_same d) (CtlMap e r d)" "reply_all (tables_same d) (CtlSubmitCommand e r d)"
proof -
  show "reply_all (tables_same d) (CtlGetCaps e r d)"
    unfolding CtlGetCaps_def Let_def
    by (intro reply_input) (simp, simp split: option.split, intro allI impI reply_output,
        simp_all split: option.split)
  show "reply_all (tables_same d) (CtlGetParams e r d)"
    unfolding CtlGetParams_def
    by (rule reply_option, intro reply_frame) (auto simp: Let_def split: if_splits)
  show "reply_all (tables_same d) (CtlWait e r d)"
    unfolding CtlWait_unfold by (intro reply_frame) (simp_all add: Let_def split: option.split)
  show "reply_all (tables_same d) (CtlTransferHost e h r d)"
    unfolding CtlTransferHost_unfold
    by (intro reply_frame) (simp_all add: Let_def abs_update_same split: option.split del: UpdateResourceState.simps)
  show "reply_all (tables_same d) (CtlMap e r d)"
    unfolding CtlMap_unfold
    by (intro reply_frame)
      (auto simp: Let_def KeWait_def abs_update_same table_change dest: contexts_share split: option.split prod.split)
  show "reply_all (tables_same d) (CtlSubmitCommand e r d)"
    unfolding CtlSubmitCommand_unfold Let_def
  proof (intro reply_input reply_caller, goal_cases)
    case (3 _ n c)
    then show ?case
      by (simp split: sum.split option.split prod.split) (auto dest!: fences_contexts fences_tables)
  qed simp_all
qed

lemma init_tables:
  "reply_all (\<lambda>d'. tables_of d' = tables_of d
      \<or> tables_of d (rq_pid r) = None \<and> tables_of d' = (tables_of d)(rq_pid r \<mapsto> Map.empty)) (CtlInitVirglContext e r n d)"
proof (cases "init_context_check e r n d")
  case (Inl x)
  then show ?thesis by (simp add: CtlInitVirglContext_def split: prod.split)
next
  case (Inr x)
  then have "GetVirglContextFromList (rq_pid r) d = None"
    by (auto simp: init_context_check_def split: option.splits)
  then have "tables_of d (rq_pid r) = None"
    by (simp add: abs_contexts_def GetVirglContextFromList_def GetVirglContextFromListUnsafe_def)
  with Inr show ?thesis
    by (simp add: CtlInitVirglContext_def init_context_insert_def abs_insert Let_def split: prod.split)
qed

text \<open>A creation puts one resource at the head of the caller's list.\<close>

definition adds_one :: "u32 \<Rightarrow> (kind \<Rightarrow> bool) \<Rightarrow> driver \<Rightarrow> driver \<Rightarrow> bool" where
  "adds_one p ok d d' \<longleftrightarrow> g_VirglContextList d' = g_VirglContextList d
     \<or> (\<exists>c res. context_loop p (g_VirglContextList d) = Some c \<and> ok (kind_of res)
         \<and> g_VirglContextList d' = upd_first (\<lambda>c. vc_Id c = p) (insert_resource res) (g_VirglContextList d))"

lemma adds_same: "g_VirglContextList d' = g_VirglContextList d \<Longrightarrow> adds_one p ok d d'"
  by (simp add: adds_one_def)

lemma adds_insert:
  "context_loop p (g_VirglContextList d) = Some c \<Longrightarrow> ok (kind_of res) \<Longrightarrow>
   g_VirglContextList d1 = g_VirglContextList d \<Longrightarrow> adds_one p ok d (with_context p (insert_resource res) d1)"
  by (auto simp: adds_one_def)

lemma adds_on_dev: "adds_one p ok d (on_dev f d') = adds_one p ok d d'"
  by (simp add: adds_one_def)

lemma creates_add:
  "reply_all (adds_one (rq_pid r) (\<lambda>k. k \<noteq> Blob) d) (CtlCreateResource e r d)"
  "reply_all (adds_one (rq_pid r) (\<lambda>k. k = Blob) d) (CtlCreateBlobResource e r d)"
proof -
  show "reply_all (adds_one (rq_pid r) (\<lambda>k. k \<noteq> Blob) d) (CtlCreateResource e r d)"
    unfolding CtlCreateResource_unfold
  proof (intro reply_frame, goal_cases)
    case (4 _ _ s n c)
    then show ?case
      by (simp add: Let_def adds_same adds_insert kind_of_def split: option.split prod.split)
  qed (simp_all add: adds_same)
  show "reply_all (adds_one (rq_pid r) (\<lambda>k. k = Blob) d) (CtlCreateBlobResource e r d)"
    unfolding CtlCreateBlobResource_unfold
  proof (intro reply_frame, goal_cases)
    case (4 _ _ s n c)
    then show ?case
      by (simp add: Let_def adds_same adds_insert adds_on_dev kind_of_def split: option.split prod.split)
  qed (simp_all add: adds_same)
qed

text \<open>The id a creation draws is one no resource has.\<close>

lemma insert_fresh:
  fixes d :: driver
  assumes "context_loop p (g_VirglContextList d) = Some c"
    and "g_VirglContextList d' = upd_first (\<lambda>c. vc_Id c = p) (insert_resource res) (g_VirglContextList d)"
    and "driver_inv L X [] d'" and "context_loop q (g_VirglContextList d) = Some c'"
  shows "resource_loop (vr_Id res) (vc_ResourceList c') = None"
proof (rule ccontr)
  assume "resource_loop (vr_Id res) (vc_ResourceList c') \<noteq> None"
  then obtain x where x: "resource_loop (vr_Id res) (vc_ResourceList c') = Some x" by blast
  have h: "held res_ids [] d' = add_mset (vr_Id res) (held res_ids [] d)"
    using owned_insert [OF assms(1), of res_ids res] by (simp add: held_def assms(2) res_ids_def)
  have "issued_once (idr_Id (g_Idrs d' ! VIRGL_RESOURCE_ID_TYPE)) (held res_ids [] d')"
    using assms(3) by (simp add: driver_inv_def ids_ok_def)
  from this [unfolded issued_once_def, rule_format, of "vr_Id res"]
  have "count (held res_ids [] d') (vr_Id res) \<le> 1" by (rule order_trans) simp
  then have "vr_Id res \<notin># held res_ids [] d" by (simp add: h not_in_iff)
  moreover have "res_ids x \<subseteq># held res_ids [] d"
    using resources.search_share [OF x, of res_ids]
      contexts.search_share [OF assms(4), of "\<lambda>c. total res_ids (vc_ResourceList c)"]
    by (auto simp: held_def owned_total_def intro: subset_mset.trans)
  ultimately show False using resources.search_SomeD [OF x] by (simp add: res_ids_def)
qed

lemma adds_one_table:
  assumes "adds_one p ok d d'" and "driver_inv L X [] d'"
  shows "table_adds p ok (tables_of d) (tables_of d')"
proof (cases "g_VirglContextList d' = g_VirglContextList d")
  case True
  then show ?thesis by (simp add: table_adds_def)
next
  case False
  then obtain c res where c: "context_loop p (g_VirglContextList d) = Some c" "ok (kind_of res)"
    "g_VirglContextList d' = upd_first (\<lambda>c. vc_Id c = p) (insert_resource res) (g_VirglContextList d)"
    using assms(1) by (auto simp: adds_one_def)
  have "tab (vr_Id res) = None" if "tables_of d q = Some tab" for q tab
    using insert_fresh [OF c(1,3) assms(2), of q] that by (auto simp: abs_contexts_def table_def)
  moreover have "tables_of d' = (tables_of d)(p \<mapsto> (table c)(vr_Id res \<mapsto> kind_of res))"
    by (simp add: c(3) abs_update [OF _ c(1)] table_insert)
  moreover have "tables_of d p = Some (table c)" by (simp add: abs_contexts_def c(1))
  ultimately show ?thesis using c(2) unfolding table_adds_def by blast
qed

subsection \<open>Closing, destroying, and every event\<close>

lemma close_tables:
  assumes "driver_inv L X [] d"
  shows "reply_all (\<lambda>d'. tables_of d' = tables_of d
      \<or> (\<exists>tab k. tables_of d (rq_pid r) = Some tab \<and> tab (dcl_handle (decode_drm_gem_close (rq_in r))) = Some k
          \<and> tables_of d' = (tables_of d)(rq_pid r \<mapsto> tab(dcl_handle (decode_drm_gem_close (rq_in r)) := None))))
    (CtlCloseResource e r d)"
  unfolding CtlCloseResource_unfold
proof (intro reply_frame, goal_cases)
  case (3 s n c)
  let ?h = "dcl_handle (decode_drm_gem_close (rq_in r))"
  show ?case
  proof (cases "GetResourceFromList c ?h")
    case None
    then show ?thesis by (simp add: Let_def)
  next
    case (Some res)
    then have res: "resource_loop ?h (vc_ResourceList c) = Some res"
      by (simp add: GetResourceFromList_def GetResourceFromListUnsafe_def)
    then have "vr_Id res = ?h" using resources.search_SomeD by blast
    moreover have "distinct (map vr_Id (vc_ResourceList c))"
      using inv_context_ids [OF assms] contexts.search_SomeD [OF 3(1)] by blast
    note table_remove [OF this, of ?h]
    moreover have "vc_Id (remove_resource ?h x) = vc_Id x" for x by (simp add: remove_resource_def)
    note abs_update [OF this 3(1)]
    moreover have "tables_of d (rq_pid r) = Some (table c)" "table c ?h = Some (kind_of res)"
      by (simp_all add: abs_contexts_def 3(1) table_def res)
    ultimately show ?thesis
      using Some 3(2) by (simp add: Let_def remove_resource_def [abs_def])
  qed
qed simp_all

lemma destroy_tables:
  assumes "driver_inv L X [] d" and "GetVirglContextFromList i d = Some c"
  shows "tables_of (snd (CtlDestroyVirglContext e c d)) = (tables_of d)(i := None)"
proof -
  have "vc_Id c = i"
    using assms(2) contexts.search_SomeD by (auto simp: GetVirglContextFromList_def GetVirglContextFromListUnsafe_def)
  moreover have "distinct (map vc_Id (g_VirglContextList d))" using assms(1) by (simp add: driver_inv_def)
  ultimately show ?thesis by (simp add: CtlDestroyVirglContext_def Let_def abs_delete)
qed

lemma gone_tables: "GetVirglContextFromList i d = None \<Longrightarrow> tables_of d = (tables_of d)(i := None)"
  by (rule ext) (simp add: abs_contexts_def GetVirglContextFromList_def GetVirglContextFromListUnsafe_def)

lemma exit_tables:
  assumes "driver_inv L X [] d"
  shows "tables_of (ProcessNotify e p create d) = (if create then tables_of d else (tables_of d)(p := None))"
  using destroy_tables [OF assms, of p _ e] gone_tables [of p d]
  by (simp add: ProcessNotify_def split: option.split)

lemma request_tables:
  assumes "dispatch e code r d = Some (s, n, out, d')" and "driver_inv L X [] d" and "driver_inv L' X' [] d'"
  shows "table_request code r (tables_of d) (tables_of d')"
proof -
  have destroyed: "reply_all (\<lambda>d'. tables_of d' = (tables_of d)(rq_pid r := None)) (case GetVirglContextFromList (rq_pid r) d of
      None \<Rightarrow> Some (STATUS_UNSUCCESSFUL, 0, rq_out r, d)
    | Some c \<Rightarrow> let (status, d') = CtlDestroyVirglContext e c d in Some (status, 0, rq_out r, d'))"
    using destroy_tables [OF assms(2), of "rq_pid r" _ e] gone_tables [of "rq_pid r" d]
    by (simp add: case_prod_beta split: option.split)
  have created: "table_adds (rq_pid r) (\<lambda>k. k \<noteq> Blob) (tables_of d) (tables_of d')"
    if "CtlCreateResource e r d = Some (s, n, out, d')"
    using creates_add(1) [of r d e] that adds_one_table [OF _ assms(3)] by simp
  have blob_created: "table_adds (rq_pid r) (\<lambda>k. k = Blob) (tables_of d) (tables_of d')"
    if "CtlCreateBlobResource e r d = Some (s, n, out, d')"
    using creates_add(2) [of r d e] that adds_one_table [OF _ assms(3)] by simp
  consider (init) "code = IOCTL_VIRTIO_VGPU_CONTEXT_INIT" | (destroy) "code = IOCTL_VIRTIO_VGPU_DESTROY_CONTEXT"
    | (create) "code = IOCTL_VIRTIO_VGPU_RESOURCE_CREATE" | (blob) "code = IOCTL_VIRTIO_VGPU_BLOB_RESOURCE_CREATE"
    | (close) "code = IOCTL_VIRTIO_VGPU_RESOURCE_CLOSE"
    | (other) "code \<noteq> IOCTL_VIRTIO_VGPU_CONTEXT_INIT" "code \<noteq> IOCTL_VIRTIO_VGPU_DESTROY_CONTEXT"
      "code \<noteq> IOCTL_VIRTIO_VGPU_RESOURCE_CREATE" "code \<noteq> IOCTL_VIRTIO_VGPU_BLOB_RESOURCE_CREATE"
      "code \<noteq> IOCTL_VIRTIO_VGPU_RESOURCE_CLOSE" by blast
  then show ?thesis
  proof cases
    case init
    with assms(1) init_tables [of d r e 0] show ?thesis by (simp add: dispatch_def table_request_def)
  next
    case destroy
    with assms(1) destroyed show ?thesis
      by (simp add: dispatch_def table_request_def ioctl_code_defs ctl_code_defs)
  next
    case create
    with assms(1) have "CtlCreateResource e r d = Some (s, n, out, d')" by (simp add: create_dispatch)
    from created [OF this] create show ?thesis by (simp add: table_request_def ioctl_code_defs ctl_code_defs)
  next
    case blob
    with assms(1) have "CtlCreateBlobResource e r d = Some (s, n, out, d')"
      by (simp add: dispatch_def ioctl_code_defs ctl_code_defs)
    from blob_created [OF this] blob show ?thesis by (simp add: table_request_def ioctl_code_defs ctl_code_defs)
  next
    case close
    with assms(1) have "CtlCloseResource e r d = Some (s, n, out, d')"
      by (simp add: dispatch_def ioctl_code_defs ctl_code_defs)
    with close_tables [OF assms(2), of r e] close show ?thesis
      by (simp add: table_request_def ioctl_code_defs ctl_code_defs)
  next
    case other
    then have "reply_all (tables_same d) (dispatch e code r d)"
      unfolding dispatch_def by (simp only: requests_tables reply_all_simps split: if_split) simp
    with assms(1) other show ?thesis by (simp add: table_request_def)
  qed
qed
lemma tables_map_callback: "tables_of (MapBlobResourceCallback e c i gpa sz d) = tables_of d"
proof -
  have "vc_Id (with_resource i f x) = vc_Id x" for f x by simp
  moreover have "table (with_resource i (\<lambda>r. r\<lparr>vr_Buffer := g r, vr_StateEvent := b\<rparr>) x) = table x" for g b x
    by (rule table_change) (simp_all add: kind_of_def)
  ultimately show ?thesis
    by (simp add: MapBlobResourceCallback_def Let_def abs_update_same split: option.split)
qed

lemma tables_complete: "tables_of (complete_buffer e b resp d) = tables_of d"
  by (simp add: complete_buffer_def Let_def KeSetEvent_def tables_map_callback abs_update_same
      split: option.split virtio_gpu_ctrl_type.split del: UpdateResourceState.simps)

lemma tables_read: "tables_of (VirtioVgpuReadFromQueue e q used d) = tables_of d"
  by (induction e q used d rule: VirtioVgpuReadFromQueue.induct) (simp_all add: tables_complete)

lemma fold_tables: "(\<And>i d. tables_of (f i d) = tables_of d) \<Longrightarrow> tables_of (fold f is d) = tables_of d"
  by (induction "is" arbitrary: d) simp_all

lemma callbacks_tables:
  "tables_of (VirtioVgpuInterruptDpc e info used d) = tables_of d"
  "tables_of (snd (VirtioVgpuInterruptEnable info d)) = tables_of d"
  "tables_of (snd (VirtioVgpuInterruptDisable info d)) = tables_of d"
  by (simp_all add: VirtioVgpuInterruptDpc_def VirtioVgpuInterruptEnable_def VirtioVgpuInterruptDisable_def
      queue_log_def fold_tables tables_read)

lemma step_tables:
  assumes "step e d ev d'" and "driver_inv L X [] d" and "driver_inv L' X' [] d'"
  shows "table_step ev (tables_of d) (tables_of d')"
  using assms(1)
proof cases
  case (request code r completions out)
  then obtain s n where "dispatch e code r d = Some (s, n, out, d')"
    by (auto simp: VirtioVgpuIoControl_def split: option.splits prod.splits)
  from request_tables [OF this assms(2,3)] request(1) show ?thesis by simp
next
  case (notify pid create)
  then show ?thesis using exit_tables [OF assms(2)] by simp
qed (simp_all add: callbacks_tables)

text \<open>C2: every run of the driver is a run of the table: seen from user mode, it is a table of the
  processes that have a context and of the kinds of their resources, in which a context is made
  for a process that has none, a creation adds a resource under an id that is not in use
  anywhere, a close removes the resource it names, a destruction or the end of a process
  removes its context, and nothing else changes anything.\<close>

theorem runs_refine_tables:
  assumes "steps e d0 evs d" and "started d0" and "env_ok e" and "length evs < 2 ^ 32 - 1"
  shows "table_steps evs (tables_of d)"
  using assms
proof (induction rule: steps.induct)
  case (none d)
  then show ?case by (simp add: started_def table_steps.empty)
next
  case (more d evs d1 ev d2)
  then have t: "table_steps evs (tables_of d1)" by simp
  have "\<exists>L. driver_inv L {#} [] d1" using reachable_inv [OF more.hyps(1) more.prems(1,2)] more.prems(3) by auto
  moreover have "\<exists>L. driver_inv L {#} [] d2"
    using reachable_inv [OF steps.more [OF more.hyps] more.prems] by blast
  ultimately show ?case using table_steps.more [OF t step_tables [OF more.hyps(2)]] by blast
qed

theorem runs_refine_tables_witness:
  "\<exists>d. steps sample_env sample_start sample_events d \<and> table_steps sample_events (tables_of d)
    \<and> tables_of d = [7 \<mapsto> [1 \<mapsto> Backed, 2 \<mapsto> Backed]]"
proof -
  obtain d where d: "steps sample_env sample_start sample_events d"
    "g_VirglContextList d = [\<lparr>vc_Id = 7, vc_ResourceList = [sample_created 2 0x2000 0x101000, sample_created 1 0x1000 0x100000]\<rparr>]"
    using sample_run_steps by blast
  have "tables_of d = [7 \<mapsto> [1 \<mapsto> Backed, 2 \<mapsto> Backed]]"
    by (auto simp: fun_eq_iff abs_contexts_def table_def d(2) sample_created_def new_buffer_def kind_of_def)
  moreover have "length sample_events < 2 ^ 32 - 1" by (simp add: sample_events_def)
  ultimately show ?thesis using runs_refine_tables [OF d(1) sample_started sample_env_ok(1)] d(1) by blast
qed

end
