(* ===== verification/Vgpu_Lifecycle.thy ===== *)
theory Vgpu_Lifecycle
  imports Vgpu_Reachable
begin

text \<open>
  Bringing the device up and down: the plug-and-play and power callbacks of \<open>vgpu.c\<close>.  \<open>hardware\<close>
  is the part of \<open>DEVICE_CONTEXT\<close> those callbacks manage, the kernel objects they create, and
  the driver state of \<open>Vgpu_Control\<close> underneath; \<open>platform\<close> is what the framework, the memory
  manager and the virtio library answer to one callback.  \<open>ASSERT\<close> does nothing, as in a release
  build; \<open>WdfDeviceCreate\<close>, whose status only an \<open>ASSERT\<close> looks at, is taken to succeed.
  What the kernel would stop the machine for is recorded in \<open>hw_faults\<close>.

  The framework calls \<open>DeviceAdd\<close>, \<open>PrepareHardware\<close> and \<open>D0Entry\<close> in this order, and
  \<open>D0Exit\<close> and \<open>ReleaseHardware\<close> on the way down; it calls \<open>ReleaseHardware\<close> also after a
  \<open>PrepareHardware\<close> that failed.
\<close>

unbundle bit_operations_syntax

subsection \<open>State\<close>

datatype hw_fault =
    Hw_null_write
  | Hw_bad_free u64
  | Hw_uninitialised_list
  | Hw_interrupt_index nat

record hardware =
  hw_driver :: driver
  hw_VDevice :: bool
  hw_NumVirtQueues :: u8
  hw_VirtQueues :: u64
  hw_VirtQueueLocks :: u64
  hw_WdfInterrupt :: "u64 list"
  hw_VgpuMemoryAddress :: u64
  hw_CapsetsData :: u64
  hw_ResourceList :: bool
  hw_BufferList :: bool
  hw_notify :: nat
  hw_driver_ok :: bool
  hw_pool :: "u64 list"
  hw_contiguous :: "u64 list"
  hw_locks :: nat
  hw_faults :: "hw_fault list"

record platform =
  pl_initialize :: NTSTATUS
  pl_VirtQueues :: u64
  pl_VirtQueueLocks :: u64
  pl_CapsetsData :: u64
  pl_memory :: u64
  pl_physical :: u64
  pl_bitmap :: u64
  pl_lock :: "nat \<Rightarrow> NTSTATUS"
  pl_params :: u64
  pl_queues :: NTSTATUS

definition MAX_INTERRUPT_COUNT :: nat where "MAX_INTERRUPT_COUNT = 4"

definition hw_fault :: "hw_fault \<Rightarrow> hardware \<Rightarrow> hardware" where
  "hw_fault f hw = hw\<lparr>hw_faults := hw_faults hw @ [f]\<rparr>"

text \<open>\<open>ExAllocatePool2\<close> with its answer, \<open>ExFreePoolWithTag\<close>, \<open>MmFreeContiguousMemory\<close> and
  \<open>ExDeleteLookasideListEx\<close>.\<close>

definition take_pool :: "u64 \<Rightarrow> hardware \<Rightarrow> hardware" where
  "take_pool a hw = (if a = 0 then hw else hw\<lparr>hw_pool := a # hw_pool hw\<rparr>)"

definition give_pool :: "u64 \<Rightarrow> hardware \<Rightarrow> hardware" where
  "give_pool a hw =
     (if a \<in> set (hw_pool hw) then hw\<lparr>hw_pool := remove1 a (hw_pool hw)\<rparr> else hw_fault (Hw_bad_free a) hw)"

definition give_contiguous :: "u64 \<Rightarrow> hardware \<Rightarrow> hardware" where
  "give_contiguous a hw =
     (if a \<in> set (hw_contiguous hw) then hw\<lparr>hw_contiguous := remove1 a (hw_contiguous hw)\<rparr>
      else hw_fault (Hw_bad_free a) hw)"

definition delete_list :: "bool \<Rightarrow> hardware \<Rightarrow> hardware" where
  "delete_list initialised hw = (if initialised then hw else hw_fault Hw_uninitialised_list hw)"

subsection \<open>The callbacks\<close>

text \<open>The loop that creates a spin lock for each queue: \<open>Some\<close> is the early return.\<close>

fun create_locks :: "platform \<Rightarrow> nat list \<Rightarrow> hardware \<Rightarrow> NTSTATUS option \<times> hardware" where
  "create_locks pl [] hw = (None, hw)"
| "create_locks pl (i # is) hw =
     (let hw = (if hw_VirtQueueLocks hw = 0 then hw_fault Hw_null_write hw else hw);
          status = pl_lock pl i
      in if \<not> NT_SUCCESS status then (Some status, hw)
         else create_locks pl is (hw\<lparr>hw_locks := Suc (hw_locks hw)\<rparr>))"

definition on_driver :: "(driver \<Rightarrow> driver) \<Rightarrow> hardware \<Rightarrow> hardware" where
  "on_driver f hw = hw\<lparr>hw_driver := f (hw_driver hw)\<rparr>"

definition set_caps :: "virtio_vgpu_config \<Rightarrow> driver \<Rightarrow> driver" where
  "set_caps cfg = on_dev (\<lambda>dv. dv\<lparr>g_Capsets := (g_Capsets dv)
     \<lparr>cps_NumCaps := cfg_num_capsets cfg, cps_Initialized := False,
      cps_Data := replicate (unat (cfg_num_capsets cfg)) \<lparr>cs_id = 0, cs_max_version = 0, cs_max_size = 0\<rparr>\<rparr>\<rparr>)"

text \<open>The virtqueues do not exist until \<open>D0Entry\<close>; the configuration space is \<open>dr_config\<close>.\<close>

definition VirtioVgpuDevicePrepareHardware :: "platform \<Rightarrow> hardware \<Rightarrow> NTSTATUS \<times> hardware" where
  "VirtioVgpuDevicePrepareHardware pl hw =
     (if \<not> NT_SUCCESS (pl_initialize pl) then (pl_initialize pl, hw)
      else
        let cfg = dr_config (hw_driver hw);
            hw = hw\<lparr>hw_VDevice := True, hw_NumVirtQueues := cfg_num_queues cfg\<rparr>;
            hw = take_pool (pl_VirtQueues pl) (hw\<lparr>hw_VirtQueues := pl_VirtQueues pl\<rparr>);
            hw = take_pool (pl_VirtQueueLocks pl) (hw\<lparr>hw_VirtQueueLocks := pl_VirtQueueLocks pl\<rparr>);
            hw = on_driver (\<lambda>d. d\<lparr>dr_Capabilities := cfg_capabilities cfg\<rparr>) hw;
            vgpuMemorySize = cfg_memory_size cfg;
            hw = take_pool (pl_CapsetsData pl) (on_driver (set_caps cfg) (hw\<lparr>hw_CapsetsData := pl_CapsetsData pl\<rparr>));
            hw = hw\<lparr>hw_VgpuMemoryAddress := pl_memory pl\<rparr>
        in if hw_VgpuMemoryAddress hw = 0 then (STATUS_UNSUCCESSFUL, hw)
           else
             let hw = hw\<lparr>hw_contiguous := pl_memory pl # hw_contiguous hw\<rparr>;
                 hw = on_driver (\<lambda>d. d\<lparr>k_mem := zero_bytes (pl_memory pl) vgpuMemorySize (k_mem d)\<rparr>) hw;
                 hw = take_pool (pl_bitmap pl) (on_driver (\<lambda>d. d\<lparr>g_Memory :=
                        InitializeVgpuMemory (pl_bitmap pl) (pl_memory pl) (pl_physical pl) vgpuMemorySize (g_Memory d)\<rparr>) hw)
             in case create_locks pl [0..<unat (hw_NumVirtQueues hw)] hw of
                  (Some status, hw) \<Rightarrow> (status, hw)
                | (None, hw) \<Rightarrow>
                    let hw = hw\<lparr>hw_notify := Suc (hw_notify hw)\<rparr>;
                        hw = on_driver (\<lambda>d. d\<lparr>g_VirglContextList := [], g_Idrs := InitializeIdr (g_Idrs d)\<rparr>) hw
                    in (STATUS_SUCCESS, hw\<lparr>hw_ResourceList := True, hw_BufferList := True\<rparr>))"

definition VirtioVgpuDeviceReleaseHardware :: "hardware \<Rightarrow> NTSTATUS \<times> hardware" where
  "VirtioVgpuDeviceReleaseHardware hw =
     (let hw = (if hw_VirtQueues hw \<noteq> 0 then (give_pool (hw_VirtQueues hw) hw)\<lparr>hw_VirtQueues := 0\<rparr> else hw);
          hw = (if hw_VirtQueueLocks hw \<noteq> 0 then (give_pool (hw_VirtQueueLocks hw) hw)\<lparr>hw_VirtQueueLocks := 0\<rparr> else hw);
          hw = (if hw_CapsetsData hw \<noteq> 0 then (give_pool (hw_CapsetsData hw) hw)\<lparr>hw_CapsetsData := 0\<rparr> else hw);
          hw = (if hw_VgpuMemoryAddress hw \<noteq> 0 then
                  let hw = on_driver (\<lambda>d. d\<lparr>g_Memory := UninitializeVgpuMemory (g_Memory d)\<rparr>)
                             (give_pool (vm_RegionBitmapBuffer (g_Memory (hw_driver hw))) hw)
                  in give_contiguous (hw_VgpuMemoryAddress hw) hw
                else hw);
          hw = on_driver (\<lambda>d. d\<lparr>g_Idrs := UnInitializeIdr (g_Idrs d)\<rparr>) hw;
          hw = (delete_list (hw_ResourceList hw) hw)\<lparr>hw_ResourceList := False\<rparr>;
          hw = (delete_list (hw_BufferList hw) hw)\<lparr>hw_BufferList := False\<rparr>
      in (STATUS_SUCCESS, hw\<lparr>hw_notify := hw_notify hw - 1, hw_VDevice := False\<rparr>))"

fun bind_interrupts :: "nat list \<Rightarrow> hardware \<Rightarrow> hardware" where
  "bind_interrupts [] hw = hw"
| "bind_interrupts (i # is) hw =
     bind_interrupts is (if i < length (hw_WdfInterrupt hw) then hw else hw_fault (Hw_interrupt_index i) hw)"

definition VirtioVgpuDeviceD0Entry :: "platform \<Rightarrow> hardware \<Rightarrow> NTSTATUS \<times> hardware" where
  "VirtioVgpuDeviceD0Entry pl hw =
     (if hw_NumVirtQueues hw = 0 then (STATUS_INVALID_PARAMETER, hw)
      else if pl_params pl = 0 then (STATUS_INSUFFICIENT_RESOURCES, hw)
      else
        let hw = take_pool (pl_params pl) hw;
            hw = bind_interrupts [0..<unat (hw_NumVirtQueues hw)] hw;
            status = pl_queues pl;
            hw = (if NT_SUCCESS status then
                    (on_driver (on_dev (\<lambda>dv. dv\<lparr>dv_VirtQueues := replicate (unat (hw_NumVirtQueues hw)) []\<rparr>)) hw)
                      \<lparr>hw_driver_ok := True\<rparr>
                  else hw)
        in (status, give_pool (pl_params pl) hw))"

definition VirtioVgpuDeviceD0Exit :: "hardware \<Rightarrow> NTSTATUS \<times> hardware" where
  "VirtioVgpuDeviceD0Exit hw =
     (STATUS_SUCCESS,
      (on_driver (on_dev (\<lambda>dv. dv\<lparr>dv_VirtQueues := []\<rparr>)) hw)\<lparr>hw_driver_ok := False\<rparr>)"

text \<open>What the framework answers while a device is added.\<close>

record framework =
  fw_interface :: NTSTATUS
  fw_interrupt :: "nat \<Rightarrow> NTSTATUS \<times> u64"
  fw_queue :: NTSTATUS
  fw_dispatching :: NTSTATUS

fun create_interrupts :: "framework \<Rightarrow> nat list \<Rightarrow> hardware \<Rightarrow> NTSTATUS option \<times> hardware" where
  "create_interrupts fw [] hw = (None, hw)"
| "create_interrupts fw (i # is) hw =
     (case fw_interrupt fw i of
        (status, handle) \<Rightarrow>
          if \<not> NT_SUCCESS status then (Some status, hw)
          else create_interrupts fw is (hw\<lparr>hw_WdfInterrupt := (hw_WdfInterrupt hw)[i := handle]\<rparr>))"

definition VirtioVgpuDeviceAdd :: "framework \<Rightarrow> hardware \<Rightarrow> NTSTATUS \<times> hardware" where
  "VirtioVgpuDeviceAdd fw hw =
     (let hw = on_driver (\<lambda>d. d\<lparr>dr_Capabilities := 0\<rparr>)
            (hw\<lparr>hw_VDevice := False, hw_NumVirtQueues := 0, hw_VirtQueues := 0, hw_VirtQueueLocks := 0,
                hw_WdfInterrupt := replicate MAX_INTERRUPT_COUNT 0, hw_VgpuMemoryAddress := 0,
                hw_ResourceList := False, hw_BufferList := False\<rparr>)
      in if \<not> NT_SUCCESS (fw_interface fw) then (STATUS_UNSUCCESSFUL, hw)
         else case create_interrupts fw [0..<MAX_INTERRUPT_COUNT] hw of
                (Some status, hw) \<Rightarrow> (status, hw)
              | (None, hw) \<Rightarrow>
                  if \<not> NT_SUCCESS (fw_queue fw) then (STATUS_UNSUCCESSFUL, hw)
                  else if \<not> NT_SUCCESS (fw_dispatching fw) then (STATUS_UNSUCCESSFUL, hw)
                  else (STATUS_SUCCESS, hw))"
subsection \<open>Bringing the device up\<close>

lemma hw_simps [simp]:
  "hw_driver (take_pool a hw) = hw_driver hw" "hw_VirtQueues (take_pool a hw) = hw_VirtQueues hw"
  "hw_VirtQueueLocks (take_pool a hw) = hw_VirtQueueLocks hw" "hw_NumVirtQueues (take_pool a hw) = hw_NumVirtQueues hw"
  "hw_contiguous (take_pool a hw) = hw_contiguous hw" "hw_notify (take_pool a hw) = hw_notify hw"
  "hw_VgpuMemoryAddress (take_pool a hw) = hw_VgpuMemoryAddress hw" "hw_faults (take_pool a hw) = hw_faults hw"
  "hw_locks (take_pool a hw) = hw_locks hw" "hw_CapsetsData (take_pool a hw) = hw_CapsetsData hw"
  "hw_WdfInterrupt (take_pool a hw) = hw_WdfInterrupt hw" "a \<noteq> 0 \<Longrightarrow> hw_pool (take_pool a hw) = a # hw_pool hw"
  "hw_driver (give_pool a hw) = hw_driver hw" "hw_driver (bind_interrupts is hw) = hw_driver hw"
  "hw_NumVirtQueues (give_pool a hw) = hw_NumVirtQueues hw"
  "hw_NumVirtQueues (bind_interrupts is hw) = hw_NumVirtQueues hw"
  by (simp_all add: take_pool_def give_pool_def hw_fault_def) (induction "is" arbitrary: hw; simp add: hw_fault_def)+

lemma create_locks_driver:
  "create_locks pl is hw = (x, hw') \<Longrightarrow> hw_driver hw' = hw_driver hw \<and> hw_NumVirtQueues hw' = hw_NumVirtQueues hw
    \<and> (\<forall>s. x = Some s \<longrightarrow> \<not> NT_SUCCESS s)"
  by (induction "is" arbitrary: hw) (auto simp: Let_def hw_fault_def split: if_splits)

lemma create_locks_result:
  "create_locks pl is hw = (None, hw') \<Longrightarrow> hw_VirtQueueLocks hw \<noteq> 0 \<Longrightarrow>
   hw' = hw\<lparr>hw_locks := hw_locks hw + length is\<rparr>"
proof (induction "is" arbitrary: hw)
  case (Cons i "is")
  from Cons.prems have "create_locks pl is (hw\<lparr>hw_locks := Suc (hw_locks hw)\<rparr>) = (None, hw')"
    by (simp add: Let_def split: if_splits)
  from Cons.IH [OF this] Cons.prems(2) show ?case by simp
qed simp

text \<open>The driver state a successful \<open>PrepareHardware\<close> leaves.\<close>

definition prepared :: "platform \<Rightarrow> driver \<Rightarrow> driver" where
  "prepared pl d =
     (let cfg = dr_config d; d = set_caps cfg (d\<lparr>dr_Capabilities := cfg_capabilities cfg\<rparr>)
      in d\<lparr>k_mem := zero_bytes (pl_memory pl) (cfg_memory_size cfg) (k_mem d),
           g_Memory := InitializeVgpuMemory (pl_bitmap pl) (pl_memory pl) (pl_physical pl) (cfg_memory_size cfg) (g_Memory d),
           g_VirglContextList := [], g_Idrs := InitializeIdr (g_Idrs d)\<rparr>)"

lemma on_driver_simps [simp]:
  "hw_driver (on_driver f hw) = f (hw_driver hw)" "hw_NumVirtQueues (on_driver f hw) = hw_NumVirtQueues hw"
  "hw_VirtQueueLocks (on_driver f hw) = hw_VirtQueueLocks hw"
  "hw_VgpuMemoryAddress (on_driver f hw) = hw_VgpuMemoryAddress hw"
  by (simp_all add: on_driver_def)

lemma set_caps_simps [simp]:
  "dr_config (set_caps cfg d) = dr_config d" "k_mem (set_caps cfg d) = k_mem d" "g_Memory (set_caps cfg d) = g_Memory d"
  "g_Idrs (set_caps cfg d) = g_Idrs d"
  by (simp_all add: set_caps_def on_dev_def)

lemma not_success [simp]: "STATUS_UNSUCCESSFUL \<noteq> STATUS_SUCCESS" "\<not> NT_SUCCESS s \<Longrightarrow> s \<noteq> STATUS_SUCCESS"
  using NT_SUCCESS_codes(1,3) by metis+

lemma prepare_driver:
  assumes "VirtioVgpuDevicePrepareHardware pl hw = (STATUS_SUCCESS, hw')"
  shows "hw_driver hw' = prepared pl (hw_driver hw) \<and> hw_NumVirtQueues hw' = cfg_num_queues (dr_config (hw_driver hw))"
  using assms
  by (auto simp: VirtioVgpuDevicePrepareHardware_def Let_def prepared_def split: if_splits prod.splits option.splits
      dest!: create_locks_driver)
lemma add_driver:
  assumes "VirtioVgpuDeviceAdd fw hw = (status, hw')"
  shows "\<exists>c. hw_driver hw' = (hw_driver hw)\<lparr>dr_Capabilities := c\<rparr>"
proof -
  have c: "create_interrupts fw is h = (x, h') \<Longrightarrow> hw_driver h' = hw_driver h" for "is" h x h'
    by (induction "is" arbitrary: h) (auto split: if_splits prod.splits)
  show ?thesis
    using assms by (auto simp: VirtioVgpuDeviceAdd_def Let_def on_driver_def split: if_splits prod.splits option.splits dest!: c)
qed

text \<open>Nothing is left of an earlier run.\<close>

definition unused :: "driver \<Rightarrow> bool" where
  "unused d \<longleftrightarrow> dv_pool (dr_dev d) = [] \<and> dv_lookaside (dr_dev d) = 0 \<and> dv_faults (dr_dev d) = []
     \<and> length (g_Idrs d) = IDR_MAX_SIZE"

text \<open>A configuration the driver expects: at least the two queues it uses and memory in units of 32K
  (the \<open>ASSERT\<close> of \<open>InitializeVgpuMemory\<close>), of fewer than \<open>2 ^ 32\<close> pages, below the end of the address
  space.\<close>

definition config_ok :: "virtio_vgpu_config \<Rightarrow> u64 \<Rightarrow> bool" where
  "config_ok cfg va \<longleftrightarrow> 2 \<le> cfg_num_queues cfg \<and> unat (cfg_memory_size cfg) mod 32768 = 0
     \<and> unat (cfg_memory_size cfg) div 4096 < 2 ^ 32 \<and> unat va + unat (cfg_memory_size cfg) \<le> 2 ^ 64"

text \<open>C20: when the three callbacks that bring the device up succeed and the configuration is one
  the allocator can serve, the driver is in the state the runs of \<open>Vgpu_System\<close> start from,
  with as many empty queues as the configuration names.\<close>

theorem bring_up_starts:
  assumes "VirtioVgpuDeviceAdd fw hw = (STATUS_SUCCESS, hw1)"
    and "VirtioVgpuDevicePrepareHardware pl hw1 = (STATUS_SUCCESS, hw2)"
    and "VirtioVgpuDeviceD0Entry pl' hw2 = (STATUS_SUCCESS, hw3)"
    and "unused (hw_driver hw)" and "config_ok (dr_config (hw_driver hw)) (pl_memory pl)" and "pl_bitmap pl \<noteq> 0"
  shows "started (hw_driver hw3)
    \<and> dv_VirtQueues (dr_dev (hw_driver hw3)) = replicate (unat (cfg_num_queues (dr_config (hw_driver hw)))) []"
proof -
  let ?cfg = "dr_config (hw_driver hw)"
  obtain c where 1: "hw_driver hw1 = (hw_driver hw)\<lparr>dr_Capabilities := c\<rparr>" using add_driver [OF assms(1)] by blast
  note 2 = prepare_driver [OF assms(2)]
  have 3: "hw_driver hw3 = on_dev (\<lambda>dv. dv\<lparr>dv_VirtQueues := replicate (unat (hw_NumVirtQueues hw2)) []\<rparr>) (hw_driver hw2)"
    using assms(3) by (auto simp: VirtioVgpuDeviceD0Entry_def Let_def status_defs split: if_splits)
      (simp_all add: NT_SUCCESS_def)
  have "2 \<le> unat (cfg_num_queues ?cfg)"
    using assms(5) by (simp add: config_ok_def word_le_nat_alt)
  moreover have "mem_owned {#} (InitializeVgpuMemory (pl_bitmap pl) (pl_memory pl) (pl_physical pl)
      (cfg_memory_size ?cfg) (g_Memory (hw_driver hw)))"
    using assms(5,6) by (intro initialize_owned) (simp_all add: config_ok_def whole_pages)
  ultimately show ?thesis
    using assms(4) 1 2 3
    by (auto simp: started_def unused_def prepared_def set_caps_def on_dev_def NumVirtQueues_def caps_inv_def Let_def)
qed

definition sample_hardware :: hardware where
  "sample_hardware = \<lparr>hw_driver = sample_start\<lparr>g_Idrs := Idrs_static, g_Memory := VgpuMemory_static,
       dr_dev := sample_device\<lparr>dv_VirtQueues := []\<rparr>\<rparr>,
     hw_VDevice = False, hw_NumVirtQueues = 0, hw_VirtQueues = 0, hw_VirtQueueLocks = 0, hw_WdfInterrupt = [],
     hw_VgpuMemoryAddress = 0, hw_CapsetsData = 0, hw_ResourceList = False, hw_BufferList = False,
     hw_notify = 0, hw_driver_ok = False, hw_pool = [], hw_contiguous = [], hw_locks = 0, hw_faults = []\<rparr>"

definition sample_platform :: platform where
  "sample_platform = \<lparr>pl_initialize = STATUS_SUCCESS, pl_VirtQueues = 0x11000, pl_VirtQueueLocks = 0x12000,
     pl_CapsetsData = 0x13000, pl_memory = 0x100000, pl_physical = 0x200000, pl_bitmap = 0x14000,
     pl_lock = \<lambda>i. STATUS_SUCCESS, pl_params = 0x15000, pl_queues = STATUS_SUCCESS\<rparr>"

definition sample_framework :: framework where
  "sample_framework = \<lparr>fw_interface = STATUS_SUCCESS, fw_interrupt = \<lambda>i. (STATUS_SUCCESS, of_nat i + 1),
     fw_queue = STATUS_SUCCESS, fw_dispatching = STATUS_SUCCESS\<rparr>"

definition added_hardware :: hardware where
  "added_hardware = snd (VirtioVgpuDeviceAdd sample_framework sample_hardware)"

definition prepared_hardware :: hardware where
  "prepared_hardware = snd (VirtioVgpuDevicePrepareHardware sample_platform added_hardware)"

definition running_hardware :: hardware where
  "running_hardware = snd (VirtioVgpuDeviceD0Entry sample_platform prepared_hardware)"

lemma upt_samples: "[0..<4] = [0, 1, 2, 3 :: nat]" "[0..<2] = [0, 1 :: nat]" "replicate 2 x = [x, x]"
  by (simp_all add: upt_rec numeral_2_eq_2)

lemma sample_bring_up:
  "VirtioVgpuDeviceAdd sample_framework sample_hardware = (STATUS_SUCCESS, added_hardware)"
  "VirtioVgpuDevicePrepareHardware sample_platform added_hardware = (STATUS_SUCCESS, prepared_hardware)"
  "VirtioVgpuDeviceD0Entry sample_platform prepared_hardware = (STATUS_SUCCESS, running_hardware)"
proof -
  have 1: "fst (VirtioVgpuDeviceAdd sample_framework sample_hardware) = STATUS_SUCCESS"
    by (simp add: VirtioVgpuDeviceAdd_def sample_framework_def MAX_INTERRUPT_COUNT_def upt_samples Let_def)
  then show added: "VirtioVgpuDeviceAdd sample_framework sample_hardware = (STATUS_SUCCESS, added_hardware)"
    by (simp add: added_hardware_def prod_eq_iff)
  have cfg: "dr_config (hw_driver added_hardware) = dr_config sample_start"
    using add_driver [OF added] by (auto simp: sample_hardware_def)
  have "fst (VirtioVgpuDevicePrepareHardware sample_platform added_hardware) = STATUS_SUCCESS"
    by (simp add: VirtioVgpuDevicePrepareHardware_def cfg sample_platform_def sample_start_def upt_samples Let_def)
  then show prep: "VirtioVgpuDevicePrepareHardware sample_platform added_hardware = (STATUS_SUCCESS, prepared_hardware)"
    by (simp add: prepared_hardware_def prod_eq_iff)
  have "hw_NumVirtQueues prepared_hardware = 2"
    using prepare_driver [OF prep] cfg by (simp add: sample_start_def)
  then have "fst (VirtioVgpuDeviceD0Entry sample_platform prepared_hardware) = STATUS_SUCCESS"
    by (simp add: VirtioVgpuDeviceD0Entry_def sample_platform_def Let_def)
  then show "VirtioVgpuDeviceD0Entry sample_platform prepared_hardware = (STATUS_SUCCESS, running_hardware)"
    by (simp add: running_hardware_def prod_eq_iff)
qed

theorem bring_up_starts_witness:
  "started (hw_driver running_hardware) \<and> dv_VirtQueues (dr_dev (hw_driver running_hardware)) = [[], []]"
proof -
  have "unused (hw_driver sample_hardware)"
    by (simp add: unused_def sample_hardware_def sample_device_def Idrs_static_def)
  moreover have "config_ok (dr_config (hw_driver sample_hardware)) (pl_memory sample_platform)"
    by (simp add: config_ok_def sample_hardware_def sample_platform_def sample_start_def)
  ultimately show ?thesis
    using bring_up_starts [OF sample_bring_up]
    by (simp add: sample_platform_def sample_hardware_def sample_start_def upt_samples)
qed
subsection \<open>Taking the device down\<close>

lemma give_pool_back:
  assumes "mset (hw_pool hw) = add_mset a M"
  shows "\<exists>p. give_pool a hw = hw\<lparr>hw_pool := p\<rparr> \<and> mset p = M"
proof -
  have "a \<in># mset (hw_pool hw)" by (simp add: assms)
  then have "a \<in> set (hw_pool hw)" by simp
  then show ?thesis using assms by (intro exI [of _ "remove1 a (hw_pool hw)"]) (simp add: give_pool_def)
qed

text \<open>All that \<open>PrepareHardware\<close> took, when it succeeds with memory for everything.\<close>

definition pool_served :: "platform \<Rightarrow> bool" where
  "pool_served pl \<longleftrightarrow> pl_VirtQueues pl \<noteq> 0 \<and> pl_VirtQueueLocks pl \<noteq> 0 \<and> pl_CapsetsData pl \<noteq> 0 \<and> pl_bitmap pl \<noteq> 0"

lemma prepare_takes:
  assumes "VirtioVgpuDevicePrepareHardware pl hw = (STATUS_SUCCESS, hw1)" and "pool_served pl"
  shows "\<exists>d. hw1 = hw\<lparr>hw_driver := d, hw_VDevice := True, hw_NumVirtQueues := cfg_num_queues (dr_config (hw_driver hw)),
      hw_VirtQueues := pl_VirtQueues pl, hw_VirtQueueLocks := pl_VirtQueueLocks pl, hw_CapsetsData := pl_CapsetsData pl,
      hw_VgpuMemoryAddress := pl_memory pl, hw_contiguous := pl_memory pl # hw_contiguous hw,
      hw_pool := [pl_bitmap pl, pl_CapsetsData pl, pl_VirtQueueLocks pl, pl_VirtQueues pl] @ hw_pool hw,
      hw_locks := hw_locks hw + unat (cfg_num_queues (dr_config (hw_driver hw))),
      hw_notify := Suc (hw_notify hw), hw_ResourceList := True, hw_BufferList := True\<rparr>
    \<and> vm_RegionBitmapBuffer (g_Memory d) = pl_bitmap pl \<and> pl_memory pl \<noteq> 0"
proof -
  have vm: "vm_RegionBitmapBuffer (InitializeVgpuMemory (pl_bitmap pl) a b c m) = pl_bitmap pl" for a b c m
    by (simp add: InitializeVgpuMemory_def Let_def)
  show ?thesis
    using assms
    by (intro exI [of _ "hw_driver hw1"])
      (auto simp: VirtioVgpuDevicePrepareHardware_def Let_def pool_served_def take_pool_def on_driver_def set_caps_def vm
        split: if_splits prod.splits option.splits dest: create_locks_driver dest!: create_locks_result)
qed

text \<open>\<open>holds pl P C n hw\<close>: what a preparation that the platform served holds, beside the pool blocks
  \<open>P\<close>, the contiguous memory \<open>C\<close> and the \<open>n\<close> registrations that were there before.\<close>

definition holds :: "platform \<Rightarrow> u64 multiset \<Rightarrow> u64 list \<Rightarrow> nat \<Rightarrow> hardware \<Rightarrow> bool" where
  "holds pl P C n hw \<longleftrightarrow>
     mset (hw_pool hw) = {#pl_bitmap pl, pl_CapsetsData pl, pl_VirtQueueLocks pl, pl_VirtQueues pl#} + P
   \<and> hw_contiguous hw = pl_memory pl # C \<and> hw_notify hw = Suc n \<and> hw_ResourceList hw \<and> hw_BufferList hw
   \<and> hw_VirtQueues hw = pl_VirtQueues pl \<and> hw_VirtQueueLocks hw = pl_VirtQueueLocks pl
   \<and> hw_CapsetsData hw = pl_CapsetsData pl \<and> hw_VgpuMemoryAddress hw = pl_memory pl \<and> pl_memory pl \<noteq> 0
   \<and> vm_RegionBitmapBuffer (g_Memory (hw_driver hw)) = pl_bitmap pl \<and> pool_served pl"

lemma prepare_holds:
  assumes "VirtioVgpuDevicePrepareHardware pl hw = (STATUS_SUCCESS, hw1)" and "pool_served pl"
  shows "holds pl (mset (hw_pool hw)) (hw_contiguous hw) (hw_notify hw) hw1"
    and "hw_faults hw1 = hw_faults hw" and "hw_WdfInterrupt hw1 = hw_WdfInterrupt hw"
    and "hw_locks hw1 = hw_locks hw + unat (cfg_num_queues (dr_config (hw_driver hw)))"
  using prepare_takes [OF assms] assms(2) by (auto simp: holds_def)

lemma release_gives_back:
  assumes "holds pl P C n hw"
  shows "\<exists>hw2. VirtioVgpuDeviceReleaseHardware hw = (STATUS_SUCCESS, hw2)
    \<and> mset (hw_pool hw2) = P \<and> hw_contiguous hw2 = C \<and> hw_notify hw2 = n
    \<and> \<not> hw_ResourceList hw2 \<and> \<not> hw_BufferList hw2 \<and> \<not> hw_VDevice hw2
    \<and> hw_VirtQueues hw2 = 0 \<and> hw_VirtQueueLocks hw2 = 0 \<and> hw_CapsetsData hw2 = 0 \<and> hw_VgpuMemoryAddress hw2 = pl_memory pl
    \<and> hw_faults hw2 = hw_faults hw \<and> hw_WdfInterrupt hw2 = hw_WdfInterrupt hw \<and> hw_locks hw2 = hw_locks hw"
proof -
  have h: "mset (hw_pool hw) = {#pl_bitmap pl, pl_CapsetsData pl, pl_VirtQueueLocks pl, pl_VirtQueues pl#} + P"
    using assms by (simp add: holds_def)
  obtain p1 where 1: "give_pool (pl_VirtQueues pl) hw = hw\<lparr>hw_pool := p1\<rparr>"
    "mset p1 = {#pl_bitmap pl, pl_CapsetsData pl, pl_VirtQueueLocks pl#} + P"
    using give_pool_back [of hw "pl_VirtQueues pl"] by (fastforce simp: h)
  let ?h1 = "hw\<lparr>hw_pool := p1, hw_VirtQueues := 0\<rparr>"
  obtain p2 where 2: "give_pool (pl_VirtQueueLocks pl) ?h1 = ?h1\<lparr>hw_pool := p2\<rparr>"
    "mset p2 = {#pl_bitmap pl, pl_CapsetsData pl#} + P"
    using give_pool_back [of ?h1 "pl_VirtQueueLocks pl"] by (fastforce simp: 1(2))
  let ?h2 = "?h1\<lparr>hw_pool := p2, hw_VirtQueueLocks := 0\<rparr>"
  obtain p3 where 3: "give_pool (pl_CapsetsData pl) ?h2 = ?h2\<lparr>hw_pool := p3\<rparr>" "mset p3 = add_mset (pl_bitmap pl) P"
    using give_pool_back [of ?h2 "pl_CapsetsData pl"] by (fastforce simp: 2(2))
  let ?h3 = "?h2\<lparr>hw_pool := p3, hw_CapsetsData := 0\<rparr>"
  obtain p4 where 4: "give_pool (pl_bitmap pl) ?h3 = ?h3\<lparr>hw_pool := p4\<rparr>" "mset p4 = P"
    using give_pool_back [of ?h3 "pl_bitmap pl"] by (fastforce simp: 3(2))
  from 1 2 3 4 assms show ?thesis
    by (simp add: VirtioVgpuDeviceReleaseHardware_def Let_def holds_def pool_served_def on_driver_def give_contiguous_def
        delete_list_def)
qed

text \<open>C35: when the pool serves \<open>PrepareHardware\<close> and it succeeds, \<open>ReleaseHardware\<close> right after it gives
  back every pool block, the contiguous memory, the notification routine and the lookaside lists,
  without a fault; only the spin locks stay, one for each queue the host announces.\<close>

theorem prepare_release_roundtrip:
  assumes "VirtioVgpuDevicePrepareHardware pl hw = (STATUS_SUCCESS, hw1)" and "pool_served pl"
  shows "\<exists>hw2. VirtioVgpuDeviceReleaseHardware hw1 = (STATUS_SUCCESS, hw2)
    \<and> mset (hw_pool hw2) = mset (hw_pool hw) \<and> hw_contiguous hw2 = hw_contiguous hw
    \<and> hw_notify hw2 = hw_notify hw \<and> \<not> hw_ResourceList hw2 \<and> \<not> hw_BufferList hw2 \<and> \<not> hw_VDevice hw2
    \<and> hw_faults hw2 = hw_faults hw
    \<and> hw_locks hw2 = hw_locks hw + unat (cfg_num_queues (dr_config (hw_driver hw)))"
  using release_gives_back [OF prepare_holds(1) [OF assms]] prepare_holds(2-4) [OF assms] by auto

theorem prepare_release_roundtrip_witness:
  "\<exists>hw2. VirtioVgpuDeviceReleaseHardware prepared_hardware = (STATUS_SUCCESS, hw2)
    \<and> hw_pool hw2 = [] \<and> hw_contiguous hw2 = [] \<and> hw_faults hw2 = [] \<and> hw_locks hw2 = 2"
proof -
  have a: "hw_pool added_hardware = []" "hw_contiguous added_hardware = []" "hw_faults added_hardware = []"
    "hw_locks added_hardware = 0" "cfg_num_queues (dr_config (hw_driver added_hardware)) = 2"
    by (simp_all add: added_hardware_def VirtioVgpuDeviceAdd_def sample_framework_def MAX_INTERRUPT_COUNT_def
        upt_samples sample_hardware_def sample_start_def on_driver_def Let_def)
  have "pool_served sample_platform" by (simp add: pool_served_def sample_platform_def)
  from prepare_release_roundtrip [OF sample_bring_up(2) this] a show ?thesis by auto
qed

lemma give_pool_frame [simp]:
  "hw_contiguous (give_pool a hw) = hw_contiguous hw" "hw_VgpuMemoryAddress (give_pool a hw) = hw_VgpuMemoryAddress hw"
  "hw_ResourceList (give_pool a hw) = hw_ResourceList hw" "hw_BufferList (give_pool a hw) = hw_BufferList hw"
  by (simp_all add: give_pool_def hw_fault_def)

lemma release_stale:
  assumes "hw_VirtQueues hw = 0" and "hw_VirtQueueLocks hw = 0" and "hw_CapsetsData hw = 0"
    and "hw_VgpuMemoryAddress hw \<noteq> 0" and "hw_VgpuMemoryAddress hw \<notin> set (hw_contiguous hw)" and "\<not> hw_ResourceList hw"
    and "VirtioVgpuDeviceReleaseHardware hw = (status, hw')"
  shows "{Hw_bad_free (hw_VgpuMemoryAddress hw), Hw_uninitialised_list} \<subseteq> set (hw_faults hw')"
proof -
  have mono: "set (hw_faults h) \<subseteq> set (hw_faults (delete_list b h))" for b h
    by (simp add: delete_list_def hw_fault_def) blast
  have hw': "hw_faults hw' = hw_faults (delete_list (hw_BufferList hw) (hw_fault Hw_uninitialised_list
      (hw_fault (Hw_bad_free (hw_VgpuMemoryAddress hw)) (give_pool (vm_RegionBitmapBuffer (g_Memory (hw_driver hw))) hw))))"
    using assms
    by (auto simp: VirtioVgpuDeviceReleaseHardware_def Let_def on_driver_def give_contiguous_def delete_list_def hw_fault_def)
  show ?thesis unfolding hw' using mono by (auto simp: hw_fault_def delete_list_def)
qed

text \<open>C38: \<open>ReleaseHardware\<close> leaves \<open>VgpuMemoryAddress\<close> as it was.  If the device is prepared and
  released, and then the next preparation fails before it allocates the memory again, the
  release that follows frees that memory a second time, and deletes the lookaside lists that
  were not initialised again.\<close>

theorem stale_memory_freed_again:
  assumes "VirtioVgpuDevicePrepareHardware pl hw = (STATUS_SUCCESS, hw1)" and "pool_served pl"
    and "pl_memory pl \<notin> set (hw_contiguous hw)"
    and "VirtioVgpuDeviceReleaseHardware hw1 = (status, hw2)" and "\<not> NT_SUCCESS (pl_initialize pl')"
    and "VirtioVgpuDevicePrepareHardware pl' hw2 = (status', hw3)"
    and "VirtioVgpuDeviceReleaseHardware hw3 = (status'', hw4)"
  shows "{Hw_bad_free (pl_memory pl), Hw_uninitialised_list} \<subseteq> set (hw_faults hw4)"
proof -
  obtain h where "VirtioVgpuDeviceReleaseHardware hw1 = (STATUS_SUCCESS, h)" "hw_contiguous h = hw_contiguous hw"
    "hw_VirtQueues h = 0" "hw_VirtQueueLocks h = 0" "hw_CapsetsData h = 0" "hw_VgpuMemoryAddress h = pl_memory pl"
    "\<not> hw_ResourceList h" "pl_memory pl \<noteq> 0"
    using release_gives_back [OF prepare_holds(1) [OF assms(1,2)]] prepare_holds(1) [OF assms(1,2)] by (auto simp: holds_def)
  moreover from this have "h = hw2" using assms(4) by simp
  moreover have "hw3 = hw2" using assms(5,6) by (simp add: VirtioVgpuDevicePrepareHardware_def)
  ultimately show ?thesis using release_stale [of hw3, OF _ _ _ _ _ _ assms(7)] assms(3) by simp
qed

theorem stale_memory_freed_again_witness:
  "\<exists>hw2 hw3 hw4. VirtioVgpuDeviceReleaseHardware prepared_hardware = (STATUS_SUCCESS, hw2)
    \<and> VirtioVgpuDevicePrepareHardware (sample_platform\<lparr>pl_initialize := STATUS_UNSUCCESSFUL\<rparr>) hw2 = (STATUS_UNSUCCESSFUL, hw3)
    \<and> VirtioVgpuDeviceReleaseHardware hw3 = (STATUS_SUCCESS, hw4) \<and> Hw_bad_free 0x100000 \<in> set (hw_faults hw4)"
proof -
  let ?pl = "sample_platform\<lparr>pl_initialize := STATUS_UNSUCCESSFUL\<rparr>"
  have s: "pool_served sample_platform" by (simp add: pool_served_def sample_platform_def)
  have "hw_contiguous added_hardware = []"
    by (simp add: added_hardware_def VirtioVgpuDeviceAdd_def sample_framework_def MAX_INTERRUPT_COUNT_def
        upt_samples sample_hardware_def on_driver_def Let_def)
  then have c: "pl_memory sample_platform \<notin> set (hw_contiguous added_hardware)" by simp
  obtain hw2 where 2: "VirtioVgpuDeviceReleaseHardware prepared_hardware = (STATUS_SUCCESS, hw2)"
    by (simp add: VirtioVgpuDeviceReleaseHardware_def Let_def)
  have 3: "VirtioVgpuDevicePrepareHardware ?pl hw2 = (STATUS_UNSUCCESSFUL, hw2)"
    by (simp add: VirtioVgpuDevicePrepareHardware_def)
  obtain hw4 where 4: "VirtioVgpuDeviceReleaseHardware hw2 = (STATUS_SUCCESS, hw4)"
    by (simp add: VirtioVgpuDeviceReleaseHardware_def Let_def)
  have "\<not> NT_SUCCESS (pl_initialize ?pl)" by simp
  from stale_memory_freed_again [OF sample_bring_up(2) s c 2 this 3 4] 2 3 4 show ?thesis
    by (auto simp: sample_platform_def)
qed

subsection \<open>Power cycles\<close>

text \<open>C28: leaving and re-entering the working state gives fresh, empty queues and keeps the
  invariant; but the commands that were in the queues are forgotten: their blocks and lookaside
  entries, and the memory of the submissions among them, stay allocated with nobody to release
  them.\<close>

theorem power_cycle_forgets_queues:
  assumes "driver_inv L X [] (hw_driver hw)" and "2 \<le> hw_NumVirtQueues hw"
    and "VirtioVgpuDeviceD0Exit hw = (status, hw1)"
    and "VirtioVgpuDeviceD0Entry pl hw1 = (STATUS_SUCCESS, hw2)"
  shows "dv_VirtQueues (dr_dev (hw_driver hw2)) = replicate (unat (hw_NumVirtQueues hw)) []
    \<and> driver_inv (L + image_mset bf_pBuf (mset (concat (dv_VirtQueues (dr_dev (hw_driver hw))))))
        (X + queue_regions (dr_dev (hw_driver hw))) [] (hw_driver hw2)"
proof -
  let ?dv = "dr_dev (hw_driver hw)" and ?qs = "replicate (unat (hw_NumVirtQueues hw)) []"
  have e: "concat ?qs = []" by simp
  have 1: "hw_driver hw1 = on_dev (\<lambda>dv. dv\<lparr>dv_VirtQueues := []\<rparr>) (hw_driver hw)" "hw_NumVirtQueues hw1 = hw_NumVirtQueues hw"
    using assms(3) by (auto simp: VirtioVgpuDeviceD0Exit_def)
  have "hw_driver hw2 = on_dev (\<lambda>dv. dv\<lparr>dv_VirtQueues := replicate (unat (hw_NumVirtQueues hw1)) []\<rparr>) (hw_driver hw1)"
    using assms(4) by (auto simp: VirtioVgpuDeviceD0Entry_def Let_def status_defs split: if_splits)
      (simp_all add: NT_SUCCESS_def)
  then have 2: "hw_driver hw2 = (hw_driver hw)\<lparr>dr_dev := ?dv\<lparr>dv_VirtQueues := ?qs\<rparr>\<rparr>"
    by (simp add: 1 on_dev_def)
  have "2 \<le> unat (hw_NumVirtQueues hw)" using assms(2) by (simp add: word_le_nat_alt)
  then show ?thesis
    using assms(1)
    by (simp add: 2 driver_inv_def device_acct_def queue_regions_def queue_ok_def queue_cmds_def held_def listed_def
        e ac_simps del: mset_concat set_concat mset_replicate)
qed
theorem power_cycle_forgets_queues_witness:
  "\<exists>hw2. VirtioVgpuDeviceD0Entry sample_platform (snd (VirtioVgpuDeviceD0Exit
        (running_hardware\<lparr>hw_driver := on_dev (UnrefResource sample_kernel 7 9) sample_driver\<rparr>))) = (STATUS_SUCCESS, hw2)
    \<and> dv_VirtQueues (dr_dev (hw_driver hw2)) = [[], []]
    \<and> driver_inv (image_mset bf_pBuf (mset (concat (dv_VirtQueues (UnrefResource sample_kernel 7 9 sample_device)))))
        (queue_regions (UnrefResource sample_kernel 7 9 sample_device)) [] (hw_driver hw2)"
proof -
  let ?hw = "running_hardware\<lparr>hw_driver := on_dev (UnrefResource sample_kernel 7 9) sample_driver\<rparr>"
  have k: "en_kernel sample_env = sample_kernel" by (simp add: sample_env_def)
  have "pool_ok sample_kernel" "accepts_all sample_kernel" by (simp_all add: sample_kernel_ok)
  with kept_calls(9) [OF keptI [OF sample_driver_inv], of sample_kernel 7 9]
  have inv: "driver_inv {#} {#} [] (hw_driver ?hw)" using kept_accepts by simp
  have "hw_NumVirtQueues prepared_hardware = 2"
    using prepare_driver [OF sample_bring_up(2)] add_driver [OF sample_bring_up(1)]
    by (auto simp: sample_hardware_def sample_start_def)
  then have n: "hw_NumVirtQueues ?hw = 2"
    by (simp add: running_hardware_def VirtioVgpuDeviceD0Entry_def sample_platform_def hw_fault_def Let_def on_driver_def)
  obtain hw1 where 1: "VirtioVgpuDeviceD0Exit ?hw = (STATUS_SUCCESS, hw1)" by (simp add: VirtioVgpuDeviceD0Exit_def)
  then have "hw_NumVirtQueues hw1 = 2" using n by (auto simp: VirtioVgpuDeviceD0Exit_def)
  then obtain hw2 where 2: "VirtioVgpuDeviceD0Entry sample_platform hw1 = (STATUS_SUCCESS, hw2)"
    by (simp add: VirtioVgpuDeviceD0Entry_def sample_platform_def Let_def)
  have "2 \<le> hw_NumVirtQueues ?hw" by (simp add: n)
  from power_cycle_forgets_queues [OF inv this 1 2] 1 2 n show ?thesis by (simp add: upt_samples)
qed

text \<open>A device that announces more queues than the driver has interrupts for is read past the end
  of the interrupt array; only an \<open>ASSERT\<close> stands in the way.\<close>

lemma many_queues_overrun:
  assumes "length (hw_WdfInterrupt hw) = MAX_INTERRUPT_COUNT" and "4 < hw_NumVirtQueues hw" and "pl_params pl \<noteq> 0"
  shows "Hw_interrupt_index 4 \<in> set (hw_faults (snd (VirtioVgpuDeviceD0Entry pl hw)))"
proof -
  have mono: "set (hw_faults h) \<subseteq> set (hw_faults (bind_interrupts is h))" for "is" h
  proof (induction "is" arbitrary: h)
    case (Cons i "is")
    have "set (hw_faults h) \<subseteq> set (hw_faults (hw_fault (Hw_interrupt_index i) h))" by (simp add: hw_fault_def) blast
    with Cons.IH [of h] Cons.IH [of "hw_fault (Hw_interrupt_index i) h"] show ?case by (auto split: if_splits)
  qed simp
  have "Hw_interrupt_index i \<in> set (hw_faults (bind_interrupts is h))"
    if "i \<in> set is" "length (hw_WdfInterrupt h) \<le> i" for i "is" h
    using that
  proof (induction "is" arbitrary: h)
    case (Cons j "is")
    show ?case
    proof (cases "i = j")
      case True
      have "Hw_interrupt_index i \<in> set (hw_faults (hw_fault (Hw_interrupt_index i) h))" by (simp add: hw_fault_def)
      with mono [of "hw_fault (Hw_interrupt_index i) h" "is"] True Cons.prems show ?thesis by auto
    next
      case False
      have "hw_WdfInterrupt (hw_fault f h) = hw_WdfInterrupt h" for f by (simp add: hw_fault_def)
      with False Cons show ?thesis by simp
    qed
  qed simp
  moreover have "4 < unat (hw_NumVirtQueues hw)" using assms(2) by (simp add: word_less_nat_alt)
  ultimately have "Hw_interrupt_index 4 \<in> set (hw_faults (bind_interrupts [0..<unat (hw_NumVirtQueues hw)] (take_pool (pl_params pl) hw)))"
    using assms(1) by (simp add: MAX_INTERRUPT_COUNT_def)
  moreover have give: "f \<in> set (hw_faults h) \<Longrightarrow> f \<in> set (hw_faults (give_pool a h))" for f a h
    by (simp add: give_pool_def hw_fault_def)
  moreover have "hw_NumVirtQueues hw \<noteq> 0" using assms(2) by auto
  ultimately show ?thesis
    using assms(3) by (auto simp: VirtioVgpuDeviceD0Entry_def Let_def on_driver_def intro!: give)
qed

end
