(* ===== verification/Vgpu_Threads.thy ===== *)
theory Vgpu_Threads
  imports Vgpu_Reachable Vgpu_Replies
begin

text \<open>
  Requests that run at the same time.  The queue of the device is parallel, so a handler can be
  overtaken by others between finding the context or resource it works on and using it, above all
  while it waits for an event.  A handler is split there: \<open>first_part\<close> checks the buffers and looks
  up, \<open>second_part\<close> is the rest.  A \<open>thread\<close> is a request between the two; its \<open>point\<close> holds the
  local variables it goes on with.  Pointers to contexts and resources are their ids, as in
  \<open>Vgpu_Control\<close>; \<open>th_live\<close> tells whether the object a thread points to has been in its list ever
  since it was found, so whether the pointer still points to memory in use.

  The queries, which look up neither, are one part.  Each part is a step of its own; the steps of
  a part do not interleave further.
\<close>

unbundle bit_operations_syntax

subsection \<open>The two parts of a handler\<close>

datatype point =
    At_start u32
  | At_insert NTSTATUS u64 u32
  | At_destroy u32
  | At_create NTSTATUS u64 u32
  | At_create_blob u64 u32
  | At_submit u64 u32
  | At_close NTSTATUS u64 u32 u32
  | At_wait NTSTATUS u64 u32 u32
  | At_map NTSTATUS u64 u32 u32
  | At_transfer bool NTSTATUS u64 u32 u32

type_synonym returned = "NTSTATUS \<times> u64 \<times> u8 list"

text \<open>The checks of the buffers and the lookup of the caller's context: \<open>Inl\<close> is an early return.\<close>

definition check_buffer :: "request \<Rightarrow> NTSTATUS \<Rightarrow> u8 list \<Rightarrow> u64 \<Rightarrow> returned + (NTSTATUS \<times> u64)" where
  "check_buffer r status bs sz =
     (let bytesReturn = retrieved r status bs
      in if \<not> NT_SUCCESS status then Inl (status, bytesReturn, rq_out r)
         else if bytesReturn \<noteq> sz then Inl (STATUS_UNSUCCESSFUL, bytesReturn, rq_out r)
         else Inr (status, bytesReturn))"

definition check_input :: "request \<Rightarrow> u64 \<Rightarrow> returned + (NTSTATUS \<times> u64)" where
  "check_input r sz = check_buffer r (rq_in_status r) (rq_in r) sz"

definition check_buffers :: "request \<Rightarrow> u64 \<Rightarrow> u64 \<Rightarrow> returned + (NTSTATUS \<times> u64)" where
  "check_buffers r insz outsz =
     (case check_input r insz of
        Inl ret \<Rightarrow> Inl ret
      | Inr x \<Rightarrow> check_buffer r (rq_out_status r) (rq_out r) outsz)"

definition find_context ::
  "request \<Rightarrow> returned + (NTSTATUS \<times> u64) \<Rightarrow> driver \<Rightarrow> returned + (NTSTATUS \<times> u64 \<times> virgl_context)" where
  "find_context r checked d =
     (case checked of
        Inl ret \<Rightarrow> Inl ret
      | Inr (status, bytesReturn) \<Rightarrow>
          (case GetVirglContextFromListUnsafe (rq_pid r) d of
             None \<Rightarrow> Inl (STATUS_UNSUCCESSFUL, bytesReturn, rq_out r)
           | Some c \<Rightarrow> Inr (status, bytesReturn, c)))"

definition find_resource ::
  "request \<Rightarrow> returned + (NTSTATUS \<times> u64) \<Rightarrow> u32 \<Rightarrow> driver
     \<Rightarrow> returned + (NTSTATUS \<times> u64 \<times> virgl_context \<times> virgl_resource)" where
  "find_resource r checked handle d =
     (case find_context r checked d of
        Inl ret \<Rightarrow> Inl ret
      | Inr (status, bytesReturn, c) \<Rightarrow>
          (case GetResourceFromListUnsafe c handle of
             None \<Rightarrow> Inl (STATUS_UNSUCCESSFUL, bytesReturn, rq_out r)
           | Some res \<Rightarrow> Inr (status, bytesReturn, c, res)))"

text \<open>The first part of each handler.\<close>

definition CtlInitVirglContext_first :: "env \<Rightarrow> request \<Rightarrow> driver \<Rightarrow> returned + point" where
  "CtlInitVirglContext_first e r d =
     (case init_context_check e r 0 d of
        Inl (status, bytesReturn) \<Rightarrow> Inl (status, bytesReturn, rq_out r)
      | Inr (status, bytesReturn, contextInit) \<Rightarrow> Inr (At_insert status bytesReturn contextInit))"

definition DestroyContext_first :: "request \<Rightarrow> driver \<Rightarrow> returned + point" where
  "DestroyContext_first r d =
     (case GetVirglContextFromList (rq_pid r) d of
        None \<Rightarrow> Inl (STATUS_UNSUCCESSFUL, 0, rq_out r)
      | Some c \<Rightarrow> Inr (At_destroy (vc_Id c)))"

definition CtlCreateResource_first :: "request \<Rightarrow> driver \<Rightarrow> returned + point" where
  "CtlCreateResource_first r d =
     map_sum id (\<lambda>(status, n, c). At_create status n (vc_Id c)) (find_context r (check_buffers r 56 8) d)"

definition CtlCreateBlobResource_first :: "request \<Rightarrow> driver \<Rightarrow> returned + point" where
  "CtlCreateBlobResource_first r d =
     map_sum id (\<lambda>(status, n, c). At_create_blob n (vc_Id c)) (find_context r (check_buffers r 72 8) d)"

definition CtlCloseResource_first :: "request \<Rightarrow> driver \<Rightarrow> returned + point" where
  "CtlCloseResource_first r d =
     map_sum id (\<lambda>(status, n, c, res). At_close status n (vc_Id c) (vr_Id res))
       (find_resource r (check_input r 8) (dcl_handle (decode_drm_gem_close (rq_in r))) d)"

definition CtlWait_first :: "request \<Rightarrow> driver \<Rightarrow> returned + point" where
  "CtlWait_first r d =
     map_sum id (\<lambda>(status, n, c, res). At_wait status n (vc_Id c) (vr_Id res))
       (find_resource r (check_buffers r 8 4) (dwt_handle (decode_drm_3d_wait (rq_in r))) d)"

definition CtlMap_first :: "request \<Rightarrow> driver \<Rightarrow> returned + point" where
  "CtlMap_first r d =
     (case find_resource r (check_buffers r 16 8) (dmp_handle (decode_drm_map (rq_in r))) d of
        Inl ret \<Rightarrow> Inl ret
      | Inr (status, n, c, res) \<Rightarrow>
          let sh = mb_Share (vr_Buffer res)
          in if \<not> vr_bForBuffer res then Inl (STATUS_UNSUCCESSFUL, n, rq_out r)
             else if sh_pMdl sh \<noteq> 0 then Inl (status, n, le64 (sh_UserAdderss sh))
             else Inr (At_map status n (vc_Id c) (vr_Id res)))"

definition CtlTransferHost_first :: "bool \<Rightarrow> request \<Rightarrow> driver \<Rightarrow> returned + point" where
  "CtlTransferHost_first ToHost r d =
     map_sum id (\<lambda>(status, n, c, res). At_transfer ToHost status n (vc_Id c) (vr_Id res))
       (find_resource r (check_input r 48) (dtr_bo_handle (decode_drm_3d_transfer (rq_in r))) d)"

definition CtlSubmitCommand_first :: "request \<Rightarrow> driver \<Rightarrow> returned + point" where
  "CtlSubmitCommand_first r d =
     map_sum id (\<lambda>(status, n, c). At_submit n (vc_Id c)) (find_context r (check_input r 48) d)"

definition first_part :: "env \<Rightarrow> u32 \<Rightarrow> request \<Rightarrow> driver \<Rightarrow> returned + point" where
  "first_part e code r d =
     (if code = IOCTL_VIRTIO_VGPU_CONTEXT_INIT then CtlInitVirglContext_first e r d
      else if code = IOCTL_VIRTIO_VGPU_DESTROY_CONTEXT then DestroyContext_first r d
      else if code = IOCTL_VIRTIO_VGPU_GETPARAM then Inr (At_start code)
      else if code = IOCTL_VIRTIO_VGPU_GET_CAPS then Inr (At_start code)
      else if code = IOCTL_VIRTIO_VGPU_RESOURCE_CREATE then CtlCreateResource_first r d
      else if code = IOCTL_VIRTIO_VGPU_RESOURCE_CLOSE then CtlCloseResource_first r d
      else if code = IOCTL_VIRTIO_VGPU_WAIT then CtlWait_first r d
      else if code = IOCTL_VIRTIO_VGPU_MAP then CtlMap_first r d
      else if code = IOCTL_VIRTIO_VGPU_EXECBUFFER then CtlSubmitCommand_first r d
      else if code = IOCTL_VIRTIO_VGPU_TRANSFER_FROM_HOST then CtlTransferHost_first False r d
      else if code = IOCTL_VIRTIO_VGPU_TRANSFER_TO_HOST then CtlTransferHost_first True r d
      else if code = IOCTL_VIRTIO_VGPU_BLOB_RESOURCE_CREATE then CtlCreateBlobResource_first r d
      else Inl (STATUS_NOT_SUPPORTED, 0, rq_out r))"

text \<open>What a pointer points to.\<close>

definition context_at :: "u32 \<Rightarrow> driver \<Rightarrow> virgl_context option" where
  "context_at ctx d = context_loop ctx (g_VirglContextList d)"

definition resource_at :: "u32 \<Rightarrow> u32 \<Rightarrow> driver \<Rightarrow> virgl_resource option" where
  "resource_at ctx i d =
     (case context_at ctx d of None \<Rightarrow> None | Some c \<Rightarrow> resource_loop i (vc_ResourceList c))"

text \<open>The second part; \<open>None\<close> where it still waits, or where there is nothing at the pointer.\<close>

fun second_part :: "env \<Rightarrow> request \<Rightarrow> point \<Rightarrow> driver \<Rightarrow> reply option" where
  "second_part e r (At_start code) d = dispatch e code r d"
| "second_part e r (At_insert status n contextInit) d =
     (let (status, d') = init_context_insert e r status contextInit d in Some (status, n, rq_out r, d'))"
| "second_part e r (At_destroy ctx) d =
     (case context_at ctx d of
        None \<Rightarrow> None
      | Some c \<Rightarrow> let (status, d') = CtlDestroyVirglContext e c d in Some (status, 0, rq_out r, d'))"
| "second_part e r (At_create status n ctx) d = CtlCreateResource_found e r status n ctx d"
| "second_part e r (At_create_blob n ctx) d = CtlCreateBlobResource_found e r n ctx d"
| "second_part e r (At_submit n ctx) d = CtlSubmitCommand_found e r n ctx d"
| "second_part e r (At_close status n ctx i) d =
     (case resource_at ctx i d of
        None \<Rightarrow> None | Some res \<Rightarrow> CtlCloseResource_found e r status n ctx res d)"
| "second_part e r (At_wait status n ctx i) d =
     (case resource_at ctx i d of None \<Rightarrow> None | Some res \<Rightarrow> CtlWait_found r status n res d)"
| "second_part e r (At_map status n ctx i) d =
     (case resource_at ctx i d of None \<Rightarrow> None | Some res \<Rightarrow> CtlMap_found r status n ctx res d)"
| "second_part e r (At_transfer ToHost status n ctx i) d =
     (case resource_at ctx i d of
        None \<Rightarrow> None | Some res \<Rightarrow> CtlTransferHost_found e ToHost r status n ctx res d)"
subsection \<open>The parts put together\<close>

definition join :: "env \<Rightarrow> request \<Rightarrow> returned + point \<Rightarrow> driver \<Rightarrow> reply option" where
  "join e r part d =
     (case part of Inl (status, n, out) \<Rightarrow> Some (status, n, out, d) | Inr pt \<Rightarrow> second_part e r pt d)"

lemma join_simps [simp]:
  "join e r (Inl (status, n, out)) d = Some (status, n, out, d)" "join e r (Inr pt) d = second_part e r pt d"
  by (simp_all add: join_def)

lemma context_frame:
  "with_input r insz d (\<lambda>status n. with_caller r n d (body status n)) =
    (case find_context r (check_input r insz) d of
       Inl (status, n, out) \<Rightarrow> Some (status, n, out, d) | Inr (status, n, c) \<Rightarrow> body status n c)"
  "with_input r insz d (\<lambda>status n. with_output r outsz d (\<lambda>status n. with_caller r n d (body status n))) =
    (case find_context r (check_buffers r insz outsz) d of
       Inl (status, n, out) \<Rightarrow> Some (status, n, out, d) | Inr (status, n, c) \<Rightarrow> body status n c)"
  by (simp_all add: find_context_def check_buffers_def check_input_def check_buffer_def with_input_def
      with_output_def with_caller_def Let_def split: option.split)

lemma resource_frame:
  "(case find_context r checked d of
      Inl (status, n, out) \<Rightarrow> Some (status, n, out, d)
    | Inr (status, n, c) \<Rightarrow> (case GetResourceFromListUnsafe c h of
        None \<Rightarrow> Some (STATUS_UNSUCCESSFUL, n, rq_out r, d) | Some res \<Rightarrow> body status n c res)) =
    (case find_resource r checked h d of
      Inl (status, n, out) \<Rightarrow> Some (status, n, out, d) | Inr (status, n, c, res) \<Rightarrow> body status n c res)"
  by (simp add: find_resource_def split: sum.split option.split)

lemma found_context: "find_context r checked d = Inr (status, n, c) \<Longrightarrow> context_at (vc_Id c) d = Some c"
  using contexts.search_SomeD [of "rq_pid r" "g_VirglContextList d" c]
  by (auto simp: find_context_def context_at_def GetVirglContextFromListUnsafe_def split: sum.splits option.splits)

lemma found_resource:
  "find_resource r checked h d = Inr (status, n, c, res) \<Longrightarrow>
   context_at (vc_Id c) d = Some c \<and> vr_Id res = h \<and> resource_at (vc_Id c) h d = Some res"
  using resources.search_SomeD [of h "vc_ResourceList c" res]
  by (auto simp: find_resource_def resource_at_def GetResourceFromListUnsafe_def dest!: found_context
      split: sum.splits option.splits)

lemma handlers_join:
  "CtlInitVirglContext e r 0 d = join e r (CtlInitVirglContext_first e r d) d"
  "CtlCreateResource e r d = join e r (CtlCreateResource_first r d) d"
  "CtlCreateBlobResource e r d = join e r (CtlCreateBlobResource_first r d) d"
  "CtlSubmitCommand e r d = join e r (CtlSubmitCommand_first r d) d"
  "CtlCloseResource e r d = join e r (CtlCloseResource_first r d) d"
  "CtlWait e r d = join e r (CtlWait_first r d) d"
  "CtlMap e r d = join e r (CtlMap_first r d) d"
  "CtlTransferHost e h r d = join e r (CtlTransferHost_first h r d) d"
  by (auto simp: CtlInitVirglContext_def CtlInitVirglContext_first_def CtlCreateResource_def CtlCreateResource_first_def
      CtlCreateBlobResource_def CtlCreateBlobResource_first_def CtlSubmitCommand_def CtlSubmitCommand_first_def
      CtlCloseResource_def CtlCloseResource_first_def CtlWait_def CtlWait_first_def CtlMap_def CtlMap_first_def
      CtlTransferHost_def CtlTransferHost_first_def context_frame GetResourceFromList_def resource_frame Let_def
      dest!: found_resource split: sum.split)

lemma destroy_join:
  "(case GetVirglContextFromList (rq_pid r) d of
      None \<Rightarrow> Some (STATUS_UNSUCCESSFUL, 0, rq_out r, d)
    | Some c \<Rightarrow> let (status, d') = CtlDestroyVirglContext e c d in Some (status, 0, rq_out r, d')) =
   join e r (DestroyContext_first r d) d"
  using contexts.search_SomeD [of "rq_pid r" "g_VirglContextList d"]
  by (auto simp: DestroyContext_first_def GetVirglContextFromList_def GetVirglContextFromListUnsafe_def
      context_at_def split: option.split)

text \<open>A handler that nothing overtakes is its two parts, one after the other.\<close>

lemma dispatch_parts: "dispatch e code r d = join e r (first_part e code r d) d"
proof (cases "code = IOCTL_VIRTIO_VGPU_GETPARAM \<or> code = IOCTL_VIRTIO_VGPU_GET_CAPS")
  case True
  then show ?thesis by (auto simp: first_part_def ioctl_code_defs ctl_code_defs)
next
  case False
  then show ?thesis unfolding dispatch_def first_part_def by (simp add: handlers_join destroy_join)
qed
lemma second_part_dispatch: "first_part e code r d = Inr pt \<Longrightarrow> second_part e r pt d = dispatch e code r d"
  by (simp add: dispatch_parts)

subsection \<open>Threads\<close>

text \<open>A machine is the driver with its threads, in the order they began; \<open>mc_replies\<close> logs what each
  request returned, \<open>mc_stale\<close> the threads that went on with a pointer to memory that had been
  freed.  What such a thread then does to that memory is not followed.\<close>

record thread =
  th_code :: u32
  th_request :: request
  th_point :: point
  th_live :: bool

record machine =
  mc_driver :: driver
  mc_threads :: "thread list"
  mc_stale :: "thread list"
  mc_replies :: "(u32 \<times> request \<times> returned) list"

datatype action =
    Begin u32 request
  | Proceed nat
  | Callback event

fun is_request :: "event \<Rightarrow> bool" where
  "is_request (Request code r) = True"
| "is_request ev = False"

fun callbacks :: "action list \<Rightarrow> event list" where
  "callbacks [] = []"
| "callbacks (Callback ev # acts) = ev # callbacks acts"
| "callbacks (act # acts) = callbacks acts"

text \<open>The object a point holds a pointer to: a context, or a resource of a context.\<close>

fun point_target :: "point \<Rightarrow> (u32 \<times> u32 option) option" where
  "point_target (At_start code) = None"
| "point_target (At_insert status n contextInit) = None"
| "point_target (At_destroy ctx) = Some (ctx, None)"
| "point_target (At_create status n ctx) = Some (ctx, None)"
| "point_target (At_create_blob n ctx) = Some (ctx, None)"
| "point_target (At_submit n ctx) = Some (ctx, None)"
| "point_target (At_close status n ctx i) = Some (ctx, Some i)"
| "point_target (At_wait status n ctx i) = Some (ctx, Some i)"
| "point_target (At_map status n ctx i) = Some (ctx, Some i)"
| "point_target (At_transfer ToHost status n ctx i) = Some (ctx, Some i)"

definition target_in_use :: "point \<Rightarrow> driver \<Rightarrow> bool" where
  "target_in_use pt d =
     (case point_target pt of
        None \<Rightarrow> True
      | Some (ctx, None) \<Rightarrow> context_at ctx d \<noteq> None
      | Some (ctx, Some i) \<Rightarrow> resource_at ctx i d \<noteq> None)"

definition refresh :: "driver \<Rightarrow> thread \<Rightarrow> thread" where
  "refresh d t = t\<lparr>th_live := th_live t \<and> target_in_use (th_point t) d\<rparr>"

text \<open>The machine after a step that left the driver in \<open>d\<close> with the threads \<open>ts\<close>.\<close>

definition after :: "driver \<Rightarrow> thread list \<Rightarrow> machine \<Rightarrow> machine" where
  "after d ts m = m\<lparr>mc_driver := d, mc_threads := map (refresh d) ts\<rparr>"

definition without :: "nat \<Rightarrow> 'a list \<Rightarrow> 'a list" where
  "without i ts = take i ts @ drop (Suc i) ts"

definition log_reply :: "u32 \<Rightarrow> request \<Rightarrow> returned \<Rightarrow> machine \<Rightarrow> machine" where
  "log_reply code r ret m = m\<lparr>mc_replies := mc_replies m @ [(code, r, ret)]\<rparr>"

inductive mstep :: "env \<Rightarrow> machine \<Rightarrow> action \<Rightarrow> machine \<Rightarrow> bool" for e where
  returns: "first_part e code r (mc_driver m) = Inl ret \<Longrightarrow> mstep e m (Begin code r) (log_reply code r ret m)"
| begins: "first_part e code r (mc_driver m) = Inr pt \<Longrightarrow>
    mstep e m (Begin code r)
      (m\<lparr>mc_threads := mc_threads m @ [\<lparr>th_code = code, th_request = r, th_point = pt, th_live = True\<rparr>]\<rparr>)"
| proceeds: "i < length (mc_threads m) \<Longrightarrow> t = mc_threads m ! i \<Longrightarrow> th_live t \<Longrightarrow>
    second_part e (th_request t) (th_point t) (mc_driver m) = Some (status, n, out, d) \<Longrightarrow>
    mstep e m (Proceed i)
      (log_reply (th_code t) (th_request t) (status, n, out) (after d (without i (mc_threads m)) m))"
| dangles: "i < length (mc_threads m) \<Longrightarrow> t = mc_threads m ! i \<Longrightarrow> \<not> th_live t \<Longrightarrow>
    mstep e m (Proceed i) (m\<lparr>mc_threads := without i (mc_threads m), mc_stale := mc_stale m @ [t]\<rparr>)"
| calls: "\<not> is_request ev \<Longrightarrow> step e (mc_driver m) ev d \<Longrightarrow>
    mstep e m (Callback ev) (after d (mc_threads m) m)"

inductive_cases mstep_BeginE: "mstep e m (Begin code r) m'"
inductive_cases mstep_ProceedE: "mstep e m (Proceed i) m'"
inductive_cases mstep_CallbackE: "mstep e m (Callback ev) m'"

text \<open>Runs in which each action is one that \<open>ok\<close> allows in the machine it starts from.\<close>

inductive mruns :: "env \<Rightarrow> (machine \<Rightarrow> action \<Rightarrow> bool) \<Rightarrow> machine \<Rightarrow> action list \<Rightarrow> machine \<Rightarrow> bool" for e ok where
  rests: "mruns e ok m [] m"
| moves: "mruns e ok m acts m1 \<Longrightarrow> ok m1 act \<Longrightarrow> mstep e m1 act m2 \<Longrightarrow> mruns e ok m (acts @ [act]) m2"

definition idle_machine :: "driver \<Rightarrow> machine" where
  "idle_machine d = \<lparr>mc_driver = d, mc_threads = [], mc_stale = [], mc_replies = []\<rparr>"

text \<open>The reference: the driver that serves one request after the other, with what each returned.\<close>

inductive serves :: "env \<Rightarrow> driver \<Rightarrow> event list \<Rightarrow> (u32 \<times> request \<times> returned) list \<Rightarrow> driver \<Rightarrow> bool" for e where
  starts: "serves e d [] [] d"
| answers: "serves e d evs rets d1 \<Longrightarrow> dispatch e code r d1 = Some (status, n, out, d2) \<Longrightarrow>
    serves e d (evs @ [Request code r]) (rets @ [(code, r, (status, n, out))]) d2"
| called: "serves e d evs rets d1 \<Longrightarrow> \<not> is_request ev \<Longrightarrow> step e d1 ev d2 \<Longrightarrow>
    serves e d (evs @ [ev]) rets d2"

lemma serves_steps: "serves e d evs rets d' \<Longrightarrow> steps e d evs d'"
proof (induction rule: serves.induct)
  case (answers d evs rets d1 code r status n out d2)
  then have "step e d1 (Request code r) d2" by (auto simp: VirtioVgpuIoControl_def)
  with answers.IH show ?case by (rule steps.more)
qed (auto intro: steps.intros)

subsection \<open>Threads that nobody disturbs\<close>

text \<open>A thread may go on undisturbed if its first part, run again, would find the same; a step is
  calm if it is not one of a disturbed thread.\<close>

definition undisturbed :: "env \<Rightarrow> driver \<Rightarrow> thread \<Rightarrow> bool" where
  "undisturbed e d t \<longleftrightarrow> th_live t \<and> first_part e (th_code t) (th_request t) d = Inr (th_point t)"

definition calm :: "env \<Rightarrow> machine \<Rightarrow> action \<Rightarrow> bool" where
  "calm e m act = (case act of
       Proceed i \<Rightarrow> i < length (mc_threads m) \<longrightarrow> undisturbed e (mc_driver m) (mc_threads m ! i)
     | _ \<Rightarrow> True)"

lemma machine_simps [simp]:
  "mc_driver (log_reply code r ret m) = mc_driver m" "mc_threads (log_reply code r ret m) = mc_threads m"
  "mc_stale (log_reply code r ret m) = mc_stale m" "mc_replies (log_reply code r ret m) = mc_replies m @ [(code, r, ret)]"
  "mc_driver (after d ts m) = d" "mc_threads (after d ts m) = map (refresh d) ts"
  "mc_stale (after d ts m) = mc_stale m" "mc_replies (after d ts m) = mc_replies m"
  "mc_driver (idle_machine d) = d" "mc_threads (idle_machine d) = []" "mc_stale (idle_machine d) = []"
  "mc_replies (idle_machine d) = []"
  by (simp_all add: log_reply_def after_def idle_machine_def)

lemma proceeds_at:
  assumes "mc_threads m = us @ t # vs" and "th_live t"
    and "second_part e (th_request t) (th_point t) (mc_driver m) = Some (status, n, out, d)"
  shows "mstep e m (Proceed (length us)) (log_reply (th_code t) (th_request t) (status, n, out) (after d (us @ vs) m))"
proof -
  have "without (length us) (mc_threads m) = us @ vs" "mc_threads m ! length us = t" "length us < length (mc_threads m)"
    by (simp_all add: assms(1) without_def)
  with mstep.proceeds [OF this(3) this(2) [symmetric] assms(2,3)] show ?thesis by (simp only:)
qed

lemma dangles_at:
  assumes "mc_threads m = us @ t # vs" and "\<not> th_live t"
  shows "mstep e m (Proceed (length us)) (m\<lparr>mc_threads := us @ vs, mc_stale := mc_stale m @ [t]\<rparr>)"
proof -
  have "without (length us) (mc_threads m) = us @ vs" "mc_threads m ! length us = t" "length us < length (mc_threads m)"
    by (simp_all add: assms(1) without_def)
  with mstep.dangles [OF this(3) this(2) [symmetric] assms(2)] show ?thesis by (simp only:)
qed

lemma callbacks_append [simp]: "callbacks (acts @ acts') = callbacks acts @ callbacks acts'"
  by (induction acts rule: callbacks.induct) simp_all

lemma calm_runs_serve:
  assumes "mruns e (calm e) m acts m'" and "m = idle_machine d0"
  shows "\<exists>evs. serves e d0 evs (mc_replies m') (mc_driver m') \<and> filter (\<lambda>ev. \<not> is_request ev) evs = callbacks acts
    \<and> length evs \<le> length acts \<and> mc_stale m' = []"
  using assms
proof (induction rule: mruns.induct)
  case (rests m)
  then show ?case by (auto intro: serves.starts)
next
  case (moves m acts m1 act m2)
  then obtain evs where evs: "serves e d0 evs (mc_replies m1) (mc_driver m1)" "length evs \<le> length acts" "mc_stale m1 = []"
    "filter (\<lambda>ev. \<not> is_request ev) evs = callbacks acts"
    by blast
  from moves.hyps(3) show ?case
  proof cases
    case (returns code r ret)
    obtain status n out where ret: "ret = (status, n, out)" by (cases ret)
    have "dispatch e code r (mc_driver m1) = Some (status, n, out, mc_driver m1)"
      by (simp add: dispatch_parts returns(3) ret)
    from serves.answers [OF evs(1) this] evs returns ret show ?thesis by (intro exI [of _ "evs @ [Request code r]"]) simp
  next
    case (begins code r pt)
    with evs show ?thesis by (intro exI [of _ evs]) simp
  next
    case (proceeds i t status n out d)
    have "undisturbed e (mc_driver m1) t" using moves.hyps(2) proceeds by (simp add: calm_def)
    then have "dispatch e (th_code t) (th_request t) (mc_driver m1) = Some (status, n, out, d)"
      by (simp add: dispatch_parts undisturbed_def proceeds(6))
    from serves.answers [OF evs(1) this] evs proceeds(1,2) show ?thesis
      by (intro exI [of _ "evs @ [Request (th_code t) (th_request t)]"]) simp
  next
    case (dangles i t)
    with moves.hyps(2) show ?thesis by (simp add: calm_def undisturbed_def)
  next
    case (calls ev d)
    from serves.called [OF evs(1) calls(3,4)] evs calls(1-3) show ?thesis by (intro exI [of _ "evs @ [ev]"]) simp
  qed
qed

end
