(* ===== verification/Vgpu_Interleaving.thy ===== *)
theory Vgpu_Interleaving
  imports Vgpu_Threads Vgpu_Submissions
begin

text \<open>
  When overtaking does no harm.  A thread is undisturbed as long as nobody changes what its first
  part read: the shape of the caller's context, and the mask of capability sets, which only ever
  gains bits.  Requests of other processes and all callbacks but the exit of the process leave that
  alone, so if every process has one request under way at a time, each run of the machine of
  \<open>Vgpu_Threads\<close> is one of the driver that serves requests one after the other, and the properties
  of \<open>Vgpu_Reachable\<close> hold of it.
\<close>

unbundle bit_operations_syntax

subsection \<open>What a first part depends on\<close>

text \<open>The shape of a context: which resources it has, which have a buffer and which are mapped.  It
  is all a first part reads of it.\<close>

definition outline :: "virgl_resource \<Rightarrow> u32 \<times> bool \<times> u64" where
  "outline res = (vr_Id res, vr_bForBuffer res, sh_pMdl (mb_Share (vr_Buffer res)))"

definition shape :: "virgl_context \<Rightarrow> u32 \<times> (u32 \<times> bool \<times> u64) list" where
  "shape c = (vc_Id c, map outline (vc_ResourceList c))"

definition shape_of :: "u32 \<Rightarrow> driver \<Rightarrow> (u32 \<times> (u32 \<times> bool \<times> u64) list) option" where
  "shape_of p d = map_option shape (context_loop p (g_VirglContextList d))"

definition caps_grow :: "driver \<Rightarrow> driver \<Rightarrow> bool" where
  "caps_grow d d' \<longleftrightarrow> (\<forall>n. bit (cps_CapsetIdMask (g_Capsets (dr_dev d))) n \<longrightarrow> bit (cps_CapsetIdMask (g_Capsets (dr_dev d'))) n)"

lemma map_sum_Inr: "map_sum id g x = Inr pt \<longleftrightarrow> (\<exists>y. x = Inr y \<and> pt = g y)"
  by (cases x) auto

lemma find_context_shape:
  assumes "find_context r checked d = Inr (status, n, c)" and "shape_of (rq_pid r) d' = shape_of (rq_pid r) d"
  shows "\<exists>c'. find_context r checked d' = Inr (status, n, c') \<and> shape c' = shape c"
  using assms
  by (auto simp: find_context_def shape_of_def GetVirglContextFromListUnsafe_def split: sum.splits option.splits)

lemma resource_outline:
  assumes "resource_loop h rs = Some res" and "map outline rs' = map outline rs"
  shows "\<exists>res'. resource_loop h rs' = Some res' \<and> outline res' = outline res"
  using assms
proof (induction rs arbitrary: rs')
  case (Cons x rs)
  then obtain y ys where "rs' = y # ys" "outline y = outline x" "map outline ys = map outline rs" by auto
  with Cons show ?case by (auto simp: outline_def split: if_splits)
qed simp

lemma find_resource_shape:
  assumes "find_resource r checked h d = Inr (status, n, c, res)" and "shape_of (rq_pid r) d' = shape_of (rq_pid r) d"
  shows "\<exists>c' res'. find_resource r checked h d' = Inr (status, n, c', res') \<and> vc_Id c' = vc_Id c \<and> outline res' = outline res"
proof -
  have "find_context r checked d = Inr (status, n, c)" "resource_loop h (vc_ResourceList c) = Some res"
    using assms(1) by (auto simp: find_resource_def GetResourceFromListUnsafe_def split: sum.splits option.splits)
  moreover from find_context_shape [OF this(1) assms(2)] obtain c' where
    "find_context r checked d' = Inr (status, n, c')" "shape c' = shape c" by blast
  ultimately show ?thesis using resource_outline [of h "vc_ResourceList c" res "vc_ResourceList c'"]
    by (auto simp: find_resource_def GetResourceFromListUnsafe_def shape_def)
qed

lemma param_loop_grow:
  assumes "param_loop ids ps s ci = (t, ci')" and "NT_SUCCESS t" and "\<forall>n. bit ids n \<longrightarrow> bit ids' n"
  shows "param_loop ids' ps s ci = (t, ci')"
  using assms(1)
proof (induction ps arbitrary: s ci)
  case (Cons p ps)
  have bad: "param_loop ids qs STATUS_UNSUCCESSFUL ci = (t, ci') \<Longrightarrow> \<not> NT_SUCCESS t" for qs ci
    by (induction qs arbitrary: ci) (auto split: if_splits)
  have "ids AND push_bit k 1 = 0" if "ids' AND push_bit k 1 = 0" for k
  proof (rule bit_eqI)
    fix n
    assume "possible_bit TYPE(u64) n"
    from arg_cong [OF that, of "\<lambda>w. bit w n"] assms(3) show "bit (ids AND push_bit k 1) n = bit 0 n"
      by (auto simp: bit_simps)
  qed
  with Cons bad assms(2) show ?case by (auto split: if_splits)
qed simp

lemma init_check_shape:
  assumes "init_context_check e r n d = Inr x" and "shape_of (rq_pid r) d' = shape_of (rq_pid r) d" and "caps_grow d d'"
  shows "init_context_check e r n d' = Inr x"
proof -
  let ?mask = "\<lambda>d. cps_CapsetIdMask (g_Capsets (dr_dev d))"
  have "context_loop (rq_pid r) (g_VirglContextList d) = None"
    using assms(1)
    by (auto simp: init_context_check_def GetVirglContextFromList_def GetVirglContextFromListUnsafe_def split: option.splits)
  with assms(2) have "context_loop (rq_pid r) (g_VirglContextList d') = None" by (simp add: shape_of_def)
  moreover have "param_loop (?mask d') ps s 0 = (t, ci)" if "param_loop (?mask d) ps s 0 = (t, ci)" "NT_SUCCESS t" for ps s t ci
    using param_loop_grow [OF that] assms(3) by (simp add: caps_grow_def)
  ultimately show ?thesis
    using assms(1)
    by (auto simp: init_context_check_def GetVirglContextFromList_def GetVirglContextFromListUnsafe_def Let_def
        split: option.splits if_splits prod.splits)
qed

text \<open>What holds of every handler's first part holds of \<open>first_part\<close>.\<close>

lemma first_part_all:
  assumes "Q (CtlInitVirglContext_first e r d) (CtlInitVirglContext_first e r d')"
    and "Q (DestroyContext_first r d) (DestroyContext_first r d')"
    and "Q (CtlCreateResource_first r d) (CtlCreateResource_first r d')"
    and "Q (CtlCreateBlobResource_first r d) (CtlCreateBlobResource_first r d')"
    and "Q (CtlSubmitCommand_first r d) (CtlSubmitCommand_first r d')"
    and "Q (CtlCloseResource_first r d) (CtlCloseResource_first r d')"
    and "Q (CtlWait_first r d) (CtlWait_first r d')" and "Q (CtlMap_first r d) (CtlMap_first r d')"
    and "\<And>h. Q (CtlTransferHost_first h r d) (CtlTransferHost_first h r d')"
    and "Q (Inr (At_start code)) (Inr (At_start code))"
    and "Q (Inl (STATUS_NOT_SUPPORTED, 0, rq_out r)) (Inl (STATUS_NOT_SUPPORTED, 0, rq_out r))"
  shows "Q (first_part e code r d) (first_part e code r d')"
proof -
  have "Q x x' \<Longrightarrow> Q y y' \<Longrightarrow> Q (if b then x else y) (if b then x' else y')" for b x x' y y' by simp
  note if_rule = this
  show ?thesis unfolding first_part_def by (intro if_rule assms)
qed

lemmas first_part_defs =
  CtlInitVirglContext_first_def DestroyContext_first_def CtlCreateResource_first_def CtlCreateBlobResource_first_def
  CtlSubmitCommand_first_def CtlCloseResource_first_def CtlWait_first_def CtlTransferHost_first_def CtlMap_first_def

lemma first_part_shape:
  assumes "first_part e code r d = Inr pt" and "shape_of (rq_pid r) d' = shape_of (rq_pid r) d" and "caps_grow d d'"
  shows "first_part e code r d' = Inr pt"
proof -
  note shapes = find_context_shape [OF _ assms(2)] find_resource_shape [OF _ assms(2)]
  have "\<forall>pt. first_part e code r d = Inr pt \<longrightarrow> first_part e code r d' = Inr pt"
  proof (rule first_part_all)
    show "\<forall>pt. CtlInitVirglContext_first e r d = Inr pt \<longrightarrow> CtlInitVirglContext_first e r d' = Inr pt"
      using init_check_shape [OF _ assms(2,3)] by (auto simp: CtlInitVirglContext_first_def split: sum.splits)
    show "\<forall>pt. DestroyContext_first r d = Inr pt \<longrightarrow> DestroyContext_first r d' = Inr pt"
      using assms(2)
      by (auto simp: DestroyContext_first_def shape_of_def GetVirglContextFromList_def GetVirglContextFromListUnsafe_def
          shape_def split: option.splits)
    show "\<forall>pt. CtlMap_first r d = Inr pt \<longrightarrow> CtlMap_first r d' = Inr pt"
      by (auto simp: CtlMap_first_def outline_def Let_def dest!: shapes(2) split: sum.splits if_splits)
  qed (auto simp: first_part_defs map_sum_Inr shape_def outline_def dest!: shapes)
  with assms(1) show ?thesis by blast
qed

lemma first_part_target:
  assumes "first_part e code r d = Inr pt"
  shows "target_in_use pt d"
proof -
  have c: "context_loop p (g_VirglContextList d) = Some c \<Longrightarrow> context_at (vc_Id c) d = Some c" for p c
    using contexts.search_SomeD [of p "g_VirglContextList d" c] by (simp add: context_at_def)
  have "\<forall>pt. first_part e code r d = Inr pt \<longrightarrow> target_in_use pt d"
    by (rule first_part_all)
      (auto simp: first_part_defs target_in_use_def map_sum_Inr GetVirglContextFromList_def
        GetVirglContextFromListUnsafe_def Let_def dest!: found_context found_resource c
        split: sum.splits option.splits if_splits)
  with assms show ?thesis by blast
qed
subsection \<open>What the steps of others leave alone\<close>

text \<open>No handler but \<open>CtlGetParams\<close> changes the capability table, and that one only adds bits to
  the mask.\<close>

lemma caps_same: "g_Capsets (dr_dev d') = g_Capsets (dr_dev d) \<Longrightarrow> caps_grow d d'"
  by (simp add: caps_grow_def)

lemma caps_step_grows: "caps_info_step k i dv = Some dv' \<Longrightarrow> bit (cps_CapsetIdMask (g_Capsets dv)) n \<Longrightarrow>
    bit (cps_CapsetIdMask (g_Capsets dv')) n"
  by (auto simp: caps_info_step_def completed_def case_prod_beta Let_def bit_simps split: if_splits option.splits)

lemma caps_loop_grows: "caps_info_loop k is dv = Some dv' \<Longrightarrow> bit (cps_CapsetIdMask (g_Capsets dv)) n \<Longrightarrow>
    bit (cps_CapsetIdMask (g_Capsets dv')) n"
  by (induction k "is" dv rule: caps_info_loop.induct) (auto dest: caps_step_grows split: option.splits)

lemma caps_simps [simp]:
  "g_Capsets (dr_dev (fault_at f d)) = g_Capsets (dr_dev d)" "g_Capsets (dr_dev (with_context i g d)) = g_Capsets (dr_dev d)"
  "g_Capsets (dr_dev (IoFreeMdl m d)) = g_Capsets (dr_dev d)" "g_Capsets (dr_dev (MmUnmapIoSpace a s d)) = g_Capsets (dr_dev d)"
  "g_Capsets (dr_dev (copy_command va al sz bs d)) = g_Capsets (dr_dev d)" "g_Capsets (dr_dev (free_resource ctx i d)) = g_Capsets (dr_dev d)"
  "g_Capsets (dr_dev (KeSetEvent x d)) = g_Capsets (dr_dev d)"
  "g_Capsets (dr_dev (MmUnmapLockedPages a m d)) = g_Capsets (dr_dev d)" "g_Capsets (dr_dev (free_context ctx d)) = g_Capsets (dr_dev d)"
  by (simp_all add: fault_at_def IoFreeMdl_def MmUnmapIoSpace_def copy_command_def free_resource_def KeSetEvent_def
      MmUnmapLockedPages_def free_context_def
      with_context_def on_dev_def Let_def)
lemmas call_caps [simp] =
  gpu.run_frame [of _ "Call_CreateVirglContext x y" for x y, simplified]
  gpu.run_frame [of _ "Call_DestroyVirglContext x" for x, simplified]
  gpu.run_frame [of _ "Call_TransferHost3D x y z w" for x y z w, simplified]
  gpu.run_frame [of _ "Call_Create3DResource x y z w" for x y z w, simplified]
  gpu.run_frame [of _ "Call_CreateBlobResource x y z w" for x y z w, simplified]
  gpu.run_frame [of _ "Call_MapBlobResource x y z" for x y z, simplified]
  gpu.run_frame [of _ "Call_UnMapBlobResource x y z" for x y z, simplified]
  gpu.run_frame [of _ "Call_AttachResourceBacking x y" for x y, simplified]
  gpu.run_frame [of _ "Call_DetachResourceBacking x" for x, simplified]
  gpu.run_frame [of _ "Call_UnrefResource x y" for x y, simplified]

lemma submit_caps: "SubmitCommand k ctx m bufsz sz ids n f obj dv = (status, dv') \<Longrightarrow> g_Capsets dv' = g_Capsets dv"
proof -
  assume "SubmitCommand k ctx m bufsz sz ids n f obj dv = (status, dv')"
  then obtain b sg where
    "PushQueue k COMMAND_QUEUE sg 2 0 b (snd (AllocateCommandBuffer k 32 0 False 0 dv)) = (status, dv')"
    using SubmitCommand_push by blast
  moreover have "g_Capsets (snd (PushQueue k COMMAND_QUEUE sg 2 0 b (snd (AllocateCommandBuffer k 32 0 False 0 dv)))) = g_Capsets dv"
    by simp
  ultimately show ?thesis by simp
qed

lemma delete_caps [simp]:
  "g_Capsets (dr_dev (DeleteResource e ctx r d)) = g_Capsets (dr_dev d)"
  "g_Capsets (dr_dev (destroy_loop e ctx rs d)) = g_Capsets (dr_dev d)"
  "g_Capsets (dr_dev (snd (CtlDestroyVirglContext e c d))) = g_Capsets (dr_dev d)"
proof -
  show del: "g_Capsets (dr_dev (DeleteResource e ctx r d)) = g_Capsets (dr_dev d)" for r d
    by (simp add: DeleteResource_def DeleteUserShareMemory_def Let_def)
  show "g_Capsets (dr_dev (destroy_loop e ctx rs d)) = g_Capsets (dr_dev d)" for rs d ctx
    by (induction rs arbitrary: d) (simp_all add: DeleteResource_def DeleteUserShareMemory_def Let_def)
  then show "g_Capsets (dr_dev (snd (CtlDestroyVirglContext e c d))) = g_Capsets (dr_dev d)"
    by (simp add: CtlDestroyVirglContext_def Let_def)
qed

lemma parts_caps:
  "CreateUserShareMemory r sh d = (ok, sh', d') \<Longrightarrow> g_Capsets (dr_dev d') = g_Capsets (dr_dev d)"
  "submit_in_fence r cmd d = Inl (Some (s, d')) \<Longrightarrow> g_Capsets (dr_dev d') = g_Capsets (dr_dev d)"
  "submit_in_fence r cmd d = Inr d' \<Longrightarrow> g_Capsets (dr_dev d') = g_Capsets (dr_dev d)"
  "submit_out_fence r cmd d = Inl (s, d') \<Longrightarrow> g_Capsets (dr_dev d') = g_Capsets (dr_dev d)"
  "submit_out_fence r cmd d = Inr (x, d') \<Longrightarrow> g_Capsets (dr_dev d') = g_Capsets (dr_dev d)"
  "submit_handles r cmd i f d = Inl (s, d') \<Longrightarrow> g_Capsets (dr_dev d') = g_Capsets (dr_dev d)"
  "submit_handles r cmd i f d = Inr (hs, d') \<Longrightarrow> g_Capsets (dr_dev d') = g_Capsets (dr_dev d)"
  "GetCaps k j v (dr_dev d) = Some (bs, dv) \<Longrightarrow> g_Capsets dv = g_Capsets (dr_dev d)"
  by (auto simp: CreateUserShareMemory_def submit_in_fence_def submit_out_fence_def submit_handles_def KeWait_def
      GetCaps_def completed_def case_prod_beta Let_def split: if_splits prod.splits option.splits)

abbreviation caps_kept :: "driver \<Rightarrow> driver \<Rightarrow> bool" where
  "caps_kept d \<equiv> \<lambda>d'. g_Capsets (dr_dev d') = g_Capsets (dr_dev d)"

lemma requests_caps:
  "reply_all (caps_kept d) (CtlInitVirglContext e r n d)" "reply_all (caps_kept d) (CtlGetCaps e r d)"
  "reply_all (caps_kept d) (CtlCreateResource e r d)" "reply_all (caps_kept d) (CtlCreateBlobResource e r d)"
  "reply_all (caps_kept d) (CtlCloseResource e r d)" "reply_all (caps_kept d) (CtlWait e r d)"
  "reply_all (caps_kept d) (CtlMap e r d)" "reply_all (caps_kept d) (CtlTransferHost e h r d)"
  "reply_all (caps_kept d) (CtlSubmitCommand e r d)"
proof -
  show "reply_all (caps_kept d) (CtlInitVirglContext e r n d)"
    by (simp add: CtlInitVirglContext_def init_context_insert_def Let_def split: sum.split prod.split)
  show "reply_all (caps_kept d) (CtlGetCaps e r d)"
    unfolding CtlGetCaps_def Let_def
    by (intro reply_input) (simp, simp split: option.split, intro allI impI reply_output,
        auto dest: parts_caps split: option.split)
  show "reply_all (caps_kept d) (CtlCreateResource e r d)"
    unfolding CtlCreateResource_unfold by (intro reply_frame) (simp_all add: Let_def split: option.split prod.split)
  show "reply_all (caps_kept d) (CtlCreateBlobResource e r d)"
    unfolding CtlCreateBlobResource_unfold by (intro reply_frame) (simp_all add: Let_def split: option.split prod.split)
  show "reply_all (caps_kept d) (CtlCloseResource e r d)"
    unfolding CtlCloseResource_unfold by (intro reply_frame) (simp_all add: Let_def split: option.split)
  show "reply_all (caps_kept d) (CtlWait e r d)"
    unfolding CtlWait_unfold by (intro reply_frame) (simp_all add: Let_def split: option.split)
  show "reply_all (caps_kept d) (CtlMap e r d)"
    unfolding CtlMap_unfold
    by (intro reply_frame) (auto simp: Let_def KeWait_def dest: parts_caps split: option.split prod.split)
  show "reply_all (caps_kept d) (CtlTransferHost e h r d)"
    unfolding CtlTransferHost_unfold by (intro reply_frame) (simp_all add: Let_def split: option.split)
  show "reply_all (caps_kept d) (CtlSubmitCommand e r d)"
    unfolding CtlSubmitCommand_unfold Let_def
  proof (intro reply_input reply_caller, goal_cases)
    case (3 _ n c)
    then show ?case
      by (simp split: sum.split option.split prod.split) (auto dest!: parts_caps submit_caps)
  qed simp_all
qed

lemma reply_weaken: "reply_all P R \<Longrightarrow> (\<And>d. P d \<Longrightarrow> Q d) \<Longrightarrow> reply_all Q R"
  by (auto simp: reply_all_def split: option.splits)

lemma dispatch_caps: "reply_all (caps_grow d) (dispatch e code r d)"
proof -
  note weak = requests_caps [THEN reply_weaken, OF caps_same]
  have destroy: "reply_all (caps_grow d) (case GetVirglContextFromList (rq_pid r) d of
      None \<Rightarrow> Some (s, 0, out, d)
    | Some c \<Rightarrow> let (status, d') = CtlDestroyVirglContext e c d in Some (status, 0, out, d'))" for s out
    by (simp add: case_prod_beta caps_same split: option.split)
  have "caps_grow d (d\<lparr>dr_dev := dv\<lparr>g_Capsets := (g_Capsets dv)\<lparr>cps_Initialized := True\<rparr>\<rparr>\<rparr>)"
    if "GetCapsInfo (en_kernel e) (dr_dev d) = Some dv" for dv
    using that caps_loop_grows by (auto simp: caps_grow_def GetCapsInfo_def)
  then have params: "reply_all (caps_grow d) (CtlGetParams e r d)"
    unfolding CtlGetParams_def
    by (intro reply_option reply_frame) (auto simp: Let_def caps_same split: if_splits)
  show ?thesis
    unfolding dispatch_def by (simp only: weak destroy params split: if_split) (simp add: caps_same)
qed
text \<open>Completions change neither the shape of a context nor the capability table.\<close>

definition shapes :: "driver \<Rightarrow> (u32 \<times> (u32 \<times> bool \<times> u64) list) list" where
  "shapes d = map shape (g_VirglContextList d)"

lemma shape_of_cong:
  assumes "shapes d' = shapes d"
  shows "shape_of p d' = shape_of p d"
proof -
  have "map shape cs' = map shape cs \<Longrightarrow> map_option shape (context_loop p cs') = map_option shape (context_loop p cs)" for cs cs'
  proof (induction cs arbitrary: cs')
    case (Cons c cs)
    then obtain x xs where cs': "cs' = x # xs" by (cases cs') auto
    with Cons.prems have "shape x = shape c" "map shape xs = map shape cs" by simp_all
    moreover from this(1) have "vc_Id x = vc_Id c" by (simp add: shape_def)
    ultimately show ?case using Cons.IH [of xs] by (simp add: cs')
  qed simp
  from this [OF assms [unfolded shapes_def]] show ?thesis by (simp add: shape_of_def)
qed

lemma shape_busy [simp]: "shape (UpdateResourceState is b f c) = shape c"
proof -
  have "outline (resource_state b f r) = outline r" for r by (simp add: outline_def resource_state_def)
  then show ?thesis by (simp only: shape_def map_UpdateResourceState vc_Id_UpdateResourceState)
qed

lemma shape_change: "(\<And>res. outline (g res) = outline res) \<Longrightarrow> shape (with_resource i g c) = shape c"
  by (simp add: shape_def with_resource_def map_upd_first)

lemma shapes_simps [simp]:
  "shapes (on_dev f d) = shapes d" "shapes (KeSetEvent x d) = shapes d" "shapes (d\<lparr>g_Memory := m\<rparr>) = shapes d"
  "shapes (d\<lparr>k_iomaps := is\<rparr>) = shapes d"
  by (simp_all add: shapes_def on_dev_def KeSetEvent_def)

lemma shapes_context: "(\<And>c. shape (g c) = shape c) \<Longrightarrow> shapes (with_context i g d) = shapes d"
  by (simp add: shapes_def with_context_def map_upd_first)

lemma complete_shapes: "shapes (complete_buffer e b resp d) = shapes d"
  by (simp add: complete_buffer_def MapBlobResourceCallback_def shapes_context shape_change outline_def Let_def
      split: option.split virtio_gpu_ctrl_type.split del: UpdateResourceState.simps)

lemma complete_caps: "g_Capsets (dr_dev (complete_buffer e b resp d)) = g_Capsets (dr_dev d)"
  by (simp add: complete_buffer_def MapBlobResourceCallback_def Let_def
      split: option.split virtio_gpu_ctrl_type.split)

lemma read_quiet:
  "shapes (VirtioVgpuReadFromQueue e q used d) = shapes d
   \<and> g_Capsets (dr_dev (VirtioVgpuReadFromQueue e q used d)) = g_Capsets (dr_dev d)"
  by (induction e q used d rule: VirtioVgpuReadFromQueue.induct) (simp_all add: complete_shapes complete_caps completed_def)

lemma fold_quiet:
  "(\<And>i d. f (g i d) = f d) \<Longrightarrow> f (fold g is d) = f d"
  by (induction "is" arbitrary: d) simp_all

lemma callbacks_quiet:
  "shapes (VirtioVgpuInterruptDpc e info used d) = shapes d
   \<and> g_Capsets (dr_dev (VirtioVgpuInterruptDpc e info used d)) = g_Capsets (dr_dev d)"
  "shapes (snd (VirtioVgpuInterruptEnable info d)) = shapes d
   \<and> g_Capsets (dr_dev (snd (VirtioVgpuInterruptEnable info d))) = g_Capsets (dr_dev d)"
  "shapes (snd (VirtioVgpuInterruptDisable info d)) = shapes d
   \<and> g_Capsets (dr_dev (snd (VirtioVgpuInterruptDisable info d))) = g_Capsets (dr_dev d)"
proof -
  have log: "shapes (queue_log es d) = shapes d" "g_Capsets (dr_dev (queue_log es d)) = g_Capsets (dr_dev d)" for es d
    by (simp_all add: queue_log_def)
  note quiet = fold_quiet [of shapes] fold_quiet [of "\<lambda>d. g_Capsets (dr_dev d)"] log read_quiet
  show "shapes (VirtioVgpuInterruptDpc e info used d) = shapes d
    \<and> g_Capsets (dr_dev (VirtioVgpuInterruptDpc e info used d)) = g_Capsets (dr_dev d)"
    by (simp add: VirtioVgpuInterruptDpc_def quiet)
  show "shapes (snd (VirtioVgpuInterruptEnable info d)) = shapes d
    \<and> g_Capsets (dr_dev (snd (VirtioVgpuInterruptEnable info d))) = g_Capsets (dr_dev d)"
    by (simp add: VirtioVgpuInterruptEnable_def quiet)
  show "shapes (snd (VirtioVgpuInterruptDisable info d)) = shapes d
    \<and> g_Capsets (dr_dev (snd (VirtioVgpuInterruptDisable info d))) = g_Capsets (dr_dev d)"
    by (simp add: VirtioVgpuInterruptDisable_def quiet)
qed

text \<open>What a callback leaves alone for process \<open>p\<close>: everything a first part reads, unless it reports
  the exit of \<open>p\<close>.\<close>

lemma callback_leaves:
  assumes "step e d ev d'" and "\<not> is_request ev" and "ev \<noteq> Notify p False"
  shows "shape_of p d' = shape_of p d \<and> caps_grow d d'"
  using assms(1)
proof cases
  case (notify pid create)
  show ?thesis
  proof (cases create)
    case True
    with notify show ?thesis by (simp add: ProcessNotify_def caps_same)
  next
    case False
    with assms(3) notify have "p \<noteq> pid" by auto
    with False notify destroy_others [of pid d _ e] show ?thesis
      by (auto simp: ProcessNotify_def shape_of_def caps_same split: option.splits)
  qed
qed (use assms(2) callbacks_quiet in \<open>auto intro: shape_of_cong caps_same\<close>)

lemma request_leaves:
  assumes "dispatch e code r d = Some (status, n, out, d')" and "p \<noteq> rq_pid r"
  shows "shape_of p d' = shape_of p d \<and> caps_grow d d'"
  using dispatch_others [of r d e code] dispatch_caps [of d e code r] assms by (simp add: shape_of_def)
subsection \<open>One request of a process at a time\<close>

text \<open>What a process with one thread, or one lock around the device, does: it asks for nothing while
  an earlier request of its own has not returned.  It cannot exit then either, since a thread that
  waits in the kernel for an object is not alertable.\<close>

definition one_at_a_time :: "machine \<Rightarrow> action \<Rightarrow> bool" where
  "one_at_a_time m act = (case act of
       Begin code r \<Rightarrow> (\<forall>t \<in> set (mc_threads m). rq_pid (th_request t) \<noteq> rq_pid r)
     | Callback (Notify pid create) \<Rightarrow> create \<or> (\<forall>t \<in> set (mc_threads m). rq_pid (th_request t) \<noteq> pid)
     | _ \<Rightarrow> True)"

definition threads_apart :: "env \<Rightarrow> machine \<Rightarrow> bool" where
  "threads_apart e m \<longleftrightarrow> distinct (map (\<lambda>t. rq_pid (th_request t)) (mc_threads m))
     \<and> (\<forall>t \<in> set (mc_threads m). undisturbed e (mc_driver m) t)"

lemma undisturbed_stays:
  assumes "undisturbed e d t" and "shape_of (rq_pid (th_request t)) d' = shape_of (rq_pid (th_request t)) d"
    and "caps_grow d d'"
  shows "undisturbed e d' (refresh d' t)"
proof -
  have "first_part e (th_code t) (th_request t) d' = Inr (th_point t)"
    using first_part_shape [OF _ assms(2,3)] assms(1) by (simp add: undisturbed_def)
  with first_part_target [OF this] assms(1) show ?thesis by (simp add: undisturbed_def refresh_def)
qed

lemma request_refresh [simp]: "th_request (refresh d t) = th_request t" "th_code (refresh d t) = th_code t"
  by (simp_all add: refresh_def)

lemma pids_refresh [simp]:
  "map (\<lambda>t. rq_pid (th_request t)) (map (refresh d) ts) = map (\<lambda>t. rq_pid (th_request t)) ts"
  by simp

lemma without_split:
  assumes "i < length ts"
  shows "\<exists>us vs. ts = us @ ts ! i # vs \<and> without i ts = us @ vs"
  using id_take_nth_drop [OF assms] by (auto simp: without_def)

lemma apart_step:
  assumes "mstep e m act m'" and "one_at_a_time m act" and "threads_apart e m"
  shows "calm e m act \<and> threads_apart e m'"
  using assms(1)
proof cases
  case (returns code r ret)
  with assms(3) show ?thesis by (simp add: calm_def threads_apart_def)
next
  case (begins code r pt)
  with assms(2,3) show ?thesis
    by (auto simp: calm_def threads_apart_def one_at_a_time_def undisturbed_def)
next
  case (proceeds i t status n out d)
  from without_split [OF proceeds(3)] proceeds(4) obtain us vs where
    ts: "mc_threads m = us @ t # vs" "without i (mc_threads m) = us @ vs" by auto
  have t: "undisturbed e (mc_driver m) t" using assms(3) by (simp add: threads_apart_def ts(1))
  then have "dispatch e (th_code t) (th_request t) (mc_driver m) = Some (status, n, out, d)"
    by (simp add: dispatch_parts undisturbed_def proceeds(6))
  note leaves = request_leaves [OF this]
  have "undisturbed e d (refresh d u)" if "u \<in> set (us @ vs)" for u
  proof -
    have "rq_pid (th_request u) \<noteq> rq_pid (th_request t)" "undisturbed e (mc_driver m) u"
      using that assms(3) by (auto simp: threads_apart_def ts(1) image_iff)
    with leaves show ?thesis by (intro undisturbed_stays [of e "mc_driver m"]) auto
  qed
  moreover have "mc_threads m' = map (refresh d) (us @ vs)" "mc_driver m' = d"
    by (simp_all only: proceeds(2) machine_simps ts(2))
  moreover have "distinct (map (\<lambda>t. rq_pid (th_request t)) (us @ vs))"
    using assms(3) by (simp add: threads_apart_def ts(1))
  ultimately have "threads_apart e m'" by (auto simp: threads_apart_def comp_def)
  with t show ?thesis using proceeds(1,4) by (simp add: calm_def)
next
  case (dangles i t)
  then have "t \<in> set (mc_threads m)" by simp
  with dangles assms(3) show ?thesis by (simp add: threads_apart_def undisturbed_def)
next
  case (calls ev d)
  have "undisturbed e d (refresh d t)" if "t \<in> set (mc_threads m)" for t
  proof (rule undisturbed_stays [of e "mc_driver m"])
    have "ev \<noteq> Notify (rq_pid (th_request t)) False"
      using assms(2) that calls(1) by (auto simp: one_at_a_time_def)
    from callback_leaves [OF calls(4,3) this]
    show "shape_of (rq_pid (th_request t)) d = shape_of (rq_pid (th_request t)) (mc_driver m)" "caps_grow (mc_driver m) d"
      by simp_all
  qed (use that assms(3) in \<open>simp add: threads_apart_def\<close>)
  with assms(3) calls(1,2) show ?thesis by (auto simp: threads_apart_def calm_def comp_def)
qed

lemma apart_runs_calm:
  assumes "mruns e one_at_a_time m acts m'" and "threads_apart e m"
  shows "mruns e (calm e) m acts m' \<and> threads_apart e m'"
  using assms
proof (induction rule: mruns.induct)
  case (moves m acts m1 act m2)
  then show ?case using apart_step [OF moves.hyps(3,2)] mruns.moves by blast
qed (simp add: mruns.rests)

text \<open>When no process has two requests under way, requests of different processes may overtake
  each other at will, and wait while others run, and still each returns what it would return if
  the requests ran as a whole, one after the other in the order in which they return, with the
  same callbacks in between; the driver ends in the state that gives, and no thread has used a
  context or resource that was freed.\<close>

theorem interleavings_serialize:
  assumes "mruns e one_at_a_time (idle_machine d0) acts m"
  shows "\<exists>evs. serves e d0 evs (mc_replies m) (mc_driver m) \<and> filter (\<lambda>ev. \<not> is_request ev) evs = callbacks acts
    \<and> length evs \<le> length acts \<and> mc_stale m = []"
proof -
  have "threads_apart e (idle_machine d0)" by (simp add: threads_apart_def)
  with apart_runs_calm [OF assms] calm_runs_serve show ?thesis by blast
qed

text \<open>What holds of every state reached by serving requests one after the other.\<close>

lemma served_safe:
  assumes "\<exists>evs. serves e d0 evs (mc_replies m) (mc_driver m) \<and> filter (\<lambda>ev. \<not> is_request ev) evs = callbacks acts
      \<and> length evs \<le> length acts \<and> mc_stale m = []"
    and "started d0" and "env_ok e" and "length acts < 2 ^ 32 - 1"
  shows "mem_owned (driver_regions (mc_driver m)) (g_Memory (mc_driver m))
    \<and> distinct (concat (map (\<lambda>c. map vr_Id (vc_ResourceList c)) (g_VirglContextList (mc_driver m))))
    \<and> distinct (map vc_Id (g_VirglContextList (mc_driver m)))
    \<and> (\<forall>a. Fault_pool_free a \<notin> set (dv_faults (dr_dev (mc_driver m))))"
proof -
  obtain evs where "serves e d0 evs (mc_replies m) (mc_driver m)" "length evs \<le> length acts"
    using assms(1) by blast
  then have "steps e d0 evs (mc_driver m)" "length evs < 2 ^ 32 - 1"
    using serves_steps assms(4) by auto
  from reachable_inv [OF this(1) assms(2,3) this(2)] obtain L where inv: "driver_inv L {#} [] (mc_driver m)" by blast
  then have "mem_owned (driver_regions (mc_driver m)) (g_Memory (mc_driver m))"
    "device_acct L (dr_dev (mc_driver m))" "distinct (map vc_Id (g_VirglContextList (mc_driver m)))"
    by (simp_all add: driver_inv_def driver_regions_def)
  moreover from this(2) have "\<forall>a. Fault_pool_free a \<notin> set (dv_faults (dr_dev (mc_driver m)))"
    by (auto simp: device_acct_def)
  ultimately show ?thesis using inv_ids(1) [OF inv] by blast
qed

subsection \<open>A run\<close>

text \<open>Process 7 waits for a busy resource; process 8 asks for a context; the submission that names
  the resource completes; process 8 gets its context, and then process 7 its answer.\<close>

definition wait_request :: request where
  "wait_request = sample_request (encode_drm_3d_wait \<lparr>dwt_handle = 2, dwt_flags = 0\<rparr>) 4"

definition other_request :: request where
  "other_request = init_request\<lparr>rq_pid := 8\<rparr>"

definition sample_used :: used_buffers where
  "sample_used i = (if i = 0 then [(sample_submit 5 \<lparr>bf_FenceObject := 0x9004\<rparr>, sample_response)] else [])"

definition sample_interrupt :: event where
  "sample_interrupt = Interrupt \<lparr>ii_MessageSignaled = True, ii_MessageNumber = 0\<rparr> sample_used"

definition overtaking :: "action list" where
  "overtaking = [Begin IOCTL_VIRTIO_VGPU_WAIT wait_request, Begin IOCTL_VIRTIO_VGPU_CONTEXT_INIT other_request,
     Callback sample_interrupt, Proceed 1, Proceed 0]"

lemma begin_wait: "first_part e IOCTL_VIRTIO_VGPU_WAIT wait_request sample_submitted = Inr (At_wait STATUS_SUCCESS 4 7 2)"
  by (simp add: first_part_def ioctl_code_defs ctl_code_defs CtlWait_first_def find_resource_def find_context_def
      check_buffers_def check_input_def check_buffer_def retrieved_def wait_request_def GetVirglContextFromListUnsafe_def
      GetResourceFromListUnsafe_def sample_submitted_def sample_context_def sample_blob_def sample_busy_def)

text \<open>A process without a context asks for one, and goes on to insert it.\<close>

definition asks_context :: "request \<Rightarrow> bool" where
  "asks_context r \<longleftrightarrow> (\<exists>pid. r = init_request\<lparr>rq_pid := pid\<rparr>)"

lemma asks_context [simp]: "asks_context init_request" "asks_context other_request"
  by (auto simp: asks_context_def other_request_def init_request_def sample_request_def intro: exI [of _ 7])

definition init_thread :: "request \<Rightarrow> thread" where
  "init_thread r = \<lparr>th_code = IOCTL_VIRTIO_VGPU_CONTEXT_INIT, th_request = r,
     th_point = At_insert STATUS_SUCCESS 16 0, th_live = True\<rparr>"

lemma refresh_init [simp]: "refresh d (init_thread r) = init_thread r"
  by (simp add: refresh_def init_thread_def target_in_use_def)

lemma init_begins:
  assumes "asks_context r" and "context_loop (rq_pid r) (g_VirglContextList (mc_driver m)) = None"
  shows "mstep e m (Begin IOCTL_VIRTIO_VGPU_CONTEXT_INIT r) (m\<lparr>mc_threads := mc_threads m @ [init_thread r]\<rparr>)"
proof -
  have "first_part e IOCTL_VIRTIO_VGPU_CONTEXT_INIT r (mc_driver m) = Inr (At_insert STATUS_SUCCESS 16 0)"
    using assms
    by (auto simp: asks_context_def first_part_def CtlInitVirglContext_first_def init_context_check_def Let_def
        GetVirglContextFromList_def GetVirglContextFromListUnsafe_def init_request_def retrieved_def decode_set_params_def)
  from mstep.begins [of e, OF this] show ?thesis by (simp add: init_thread_def)
qed

lemma init_proceeds:
  assumes "asks_context r" and "mc_threads m = us @ init_thread r # vs"
  shows "\<exists>d. mstep e m (Proceed (length us))
      (log_reply IOCTL_VIRTIO_VGPU_CONTEXT_INIT r (STATUS_SUCCESS, 16, []) (after d (us @ vs) m))
    \<and> g_VirglContextList d = \<lparr>vc_Id = rq_pid r, vc_ResourceList = []\<rparr> # g_VirglContextList (mc_driver m)
    \<and> g_Idrs d = g_Idrs (mc_driver m) \<and> g_Memory d = g_Memory (mc_driver m)"
proof -
  have "\<exists>d. init_context_insert e r STATUS_SUCCESS 0 (mc_driver m) = (STATUS_SUCCESS, d)
      \<and> g_VirglContextList d = \<lparr>vc_Id = rq_pid r, vc_ResourceList = []\<rparr> # g_VirglContextList (mc_driver m)
      \<and> g_Idrs d = g_Idrs (mc_driver m) \<and> g_Memory d = g_Memory (mc_driver m)"
    using assms(1) by (auto simp: asks_context_def init_context_insert_def init_request_def Let_def)
  then obtain d where d: "init_context_insert e r STATUS_SUCCESS 0 (mc_driver m) = (STATUS_SUCCESS, d)"
    "g_VirglContextList d = \<lparr>vc_Id = rq_pid r, vc_ResourceList = []\<rparr> # g_VirglContextList (mc_driver m)"
    "g_Idrs d = g_Idrs (mc_driver m)" "g_Memory d = g_Memory (mc_driver m)" by blast
  moreover have "rq_out r = []" using assms(1) by (auto simp: asks_context_def init_request_def)
  ultimately show ?thesis
    using proceeds_at [OF assms(2), of e STATUS_SUCCESS 16 "[]" d]
    by (intro exI [of _ d]) (simp add: init_thread_def)
qed

lemma sample_interrupt_step:
  "\<exists>d c res. step sample_env sample_submitted sample_interrupt d \<and> context_at 7 d = Some c
    \<and> resource_loop 2 (vc_ResourceList c) = Some res \<and> vr_StateEvent res"
proof -
  let ?b = "sample_submit 5 \<lparr>bf_FenceObject := 0x9004\<rparr>" and ?d1 = "on_dev (completed 0 (sample_submit 5 \<lparr>bf_FenceObject := 0x9004\<rparr>)) sample_submitted"
  let ?d = "complete_buffer sample_env ?b sample_response ?d1"
  have q: "NumVirtQueues sample_submitted = 2" by (simp add: NumVirtQueues_def sample_submitted_def)
  have "VirtioVgpuInterruptDpc sample_env \<lparr>ii_MessageSignaled = True, ii_MessageNumber = 0\<rparr> sample_used sample_submitted = ?d"
    by (simp add: VirtioVgpuInterruptDpc_def q sample_used_def)
  moreover have "dpc_ok \<lparr>ii_MessageSignaled = True, ii_MessageNumber = 0\<rparr> sample_used sample_submitted"
    by (simp add: dpc_ok_def used_ok_def sample_used_def NumVirtQueues_def sample_submitted_def)
  ultimately have "step sample_env sample_submitted sample_interrupt ?d"
    using step.interrupt [of _ sample_used sample_submitted sample_env] by (fastforce simp: sample_interrupt_def)
  moreover have "completes ?b 7 [2, 1] 5" using sample_completes [of 5] by (simp add: completes_def)
  moreover have "context_loop 7 (g_VirglContextList ?d1) = Some sample_context" "resource_loop 2 (vc_ResourceList sample_context) = Some sample_busy"
    using sample_lookup by (simp_all add: sample_submitted_def sample_context_def GetResourceFromListUnsafe_def)
  ultimately show ?thesis
    using complete_submit_resource [of ?b 7 "[2, 1]" 5 ?d1 sample_context 2 sample_busy sample_env sample_response] sample_distinct
    by (auto simp: context_at_def resource_state_def sample_busy_def)
qed

text \<open>The thread of process 7, and the machine with both threads.\<close>

definition wait_thread :: thread where
  "wait_thread = \<lparr>th_code = IOCTL_VIRTIO_VGPU_WAIT, th_request = wait_request,
     th_point = At_wait STATUS_SUCCESS 4 7 2, th_live = True\<rparr>"

lemma refresh_wait [simp]: "resource_at 7 2 d \<noteq> None \<Longrightarrow> refresh d wait_thread = wait_thread"
  by (simp add: refresh_def wait_thread_def target_in_use_def)

lemma wait_proceeds:
  assumes "mc_threads m = us @ wait_thread # vs" and "resource_at 7 2 (mc_driver m) = Some res" and "vr_StateEvent res"
  shows "mstep e m (Proceed (length us)) (log_reply IOCTL_VIRTIO_VGPU_WAIT wait_request
    (STATUS_SUCCESS, 4, le32 0) (after (mc_driver m) (us @ vs) m))"
  using proceeds_at [OF assms(1), of e STATUS_SUCCESS 4 "le32 0" "mc_driver m"] assms(2,3)
  by (simp add: wait_thread_def CtlWait_found_def KeWait_def wait_request_def)

lemma sample_pids: "rq_pid wait_request = 7" "rq_pid init_request = 7" "rq_pid other_request = 8"
  by (simp_all add: wait_request_def init_request_def other_request_def)

lemma overtaking_begun:
  "mruns sample_env one_at_a_time (idle_machine sample_submitted)
     [Begin IOCTL_VIRTIO_VGPU_WAIT wait_request, Begin IOCTL_VIRTIO_VGPU_CONTEXT_INIT other_request]
     (idle_machine sample_submitted\<lparr>mc_threads := [wait_thread, init_thread other_request]\<rparr>)"
proof -
  let ?m0 = "idle_machine sample_submitted" and ?m1 = "idle_machine sample_submitted\<lparr>mc_threads := [wait_thread]\<rparr>"
  have "mruns sample_env one_at_a_time ?m0 [Begin IOCTL_VIRTIO_VGPU_WAIT wait_request] ?m1"
    using mruns.moves [OF mruns.rests [of sample_env one_at_a_time ?m0] _ mstep.begins, of IOCTL_VIRTIO_VGPU_WAIT wait_request] begin_wait
    by (simp add: one_at_a_time_def wait_thread_def)
  moreover have "mstep sample_env ?m1 (Begin IOCTL_VIRTIO_VGPU_CONTEXT_INIT other_request)
      (?m0\<lparr>mc_threads := [wait_thread, init_thread other_request]\<rparr>)"
    using init_begins [of other_request ?m1 sample_env] sample_pids by (simp add: sample_submitted_def sample_context_def)
  moreover have "one_at_a_time ?m1 (Begin IOCTL_VIRTIO_VGPU_CONTEXT_INIT other_request)"
    by (simp add: one_at_a_time_def wait_thread_def sample_pids)
  ultimately show ?thesis using mruns.moves [of sample_env one_at_a_time ?m0 _ ?m1] by fastforce
qed

lemma overtaking_run:
  "\<exists>m. mruns sample_env one_at_a_time (idle_machine sample_submitted) overtaking m
    \<and> mc_replies m = [(IOCTL_VIRTIO_VGPU_CONTEXT_INIT, other_request, (STATUS_SUCCESS, 16, [])),
        (IOCTL_VIRTIO_VGPU_WAIT, wait_request, (STATUS_SUCCESS, 4, le32 0))]"
proof -
  let ?m2 = "idle_machine sample_submitted\<lparr>mc_threads := [wait_thread, init_thread other_request]\<rparr>"
  obtain d c res where d: "step sample_env sample_submitted sample_interrupt d" "context_at 7 d = Some c"
    "resource_loop 2 (vc_ResourceList c) = Some res" "vr_StateEvent res"
    using sample_interrupt_step by blast
  have at: "resource_at 7 2 d = Some res" using d(2,3) by (simp add: resource_at_def)
  define m3 where "m3 = after d [wait_thread, init_thread other_request] ?m2"
  then have m3: "mc_threads m3 = [wait_thread] @ init_thread other_request # []" "mc_driver m3 = d" "mc_replies m3 = []"
    using at by simp_all
  have s3: "mstep sample_env ?m2 (Callback sample_interrupt) m3"
    using mstep.calls [of sample_interrupt sample_env ?m2 d] d(1) by (simp add: m3_def sample_interrupt_def)
  from init_proceeds [OF asks_context(2) m3(1), of sample_env] obtain d' where
    s4: "mstep sample_env m3 (Proceed 1)
      (log_reply IOCTL_VIRTIO_VGPU_CONTEXT_INIT other_request (STATUS_SUCCESS, 16, []) (after d' [wait_thread] m3))"
    and d': "g_VirglContextList d' = \<lparr>vc_Id = 8, vc_ResourceList = []\<rparr> # g_VirglContextList d"
    by (auto simp: m3(2) sample_pids)
  have at: "resource_at 7 2 d' = Some res" using d(2,3) by (simp add: resource_at_def context_at_def d')
  define m4 where "m4 = log_reply IOCTL_VIRTIO_VGPU_CONTEXT_INIT other_request (STATUS_SUCCESS, 16, []) (after d' [wait_thread] m3)"
  then have m4: "mc_threads m4 = [] @ wait_thread # []" "mc_driver m4 = d'"
    "mc_replies m4 = [(IOCTL_VIRTIO_VGPU_CONTEXT_INIT, other_request, (STATUS_SUCCESS, 16, []))]"
    using at m3(3) by simp_all
  define m5 where "m5 = log_reply IOCTL_VIRTIO_VGPU_WAIT wait_request (STATUS_SUCCESS, 4, le32 0) (after d' [] m4)"
  have s5: "mstep sample_env m4 (Proceed 0) m5"
    using wait_proceeds [OF m4(1), of res sample_env] at d(4) by (simp add: m4(2) m5_def)
  note overtaking_begun
  from mruns.moves [OF this _ s3] have "mruns sample_env one_at_a_time (idle_machine sample_submitted)
      [Begin IOCTL_VIRTIO_VGPU_WAIT wait_request, Begin IOCTL_VIRTIO_VGPU_CONTEXT_INIT other_request,
       Callback sample_interrupt] m3"
    by (simp add: one_at_a_time_def sample_interrupt_def)
  from mruns.moves [OF mruns.moves [OF this _ s4 [folded m4_def]] _ s5]
  have "mruns sample_env one_at_a_time (idle_machine sample_submitted) overtaking m5"
    by (simp add: one_at_a_time_def overtaking_def)
  then show ?thesis using m4(3) by (intro exI [of _ m5]) (simp add: m5_def)
qed

theorem interleavings_serialize_witness:
  "\<exists>m evs. mruns sample_env one_at_a_time (idle_machine sample_submitted) overtaking m
    \<and> serves sample_env sample_submitted evs
        [(IOCTL_VIRTIO_VGPU_CONTEXT_INIT, other_request, (STATUS_SUCCESS, 16, [])),
         (IOCTL_VIRTIO_VGPU_WAIT, wait_request, (STATUS_SUCCESS, 4, [0, 0, 0, 0]))] (mc_driver m)
    \<and> filter (\<lambda>ev. \<not> is_request ev) evs = [sample_interrupt] \<and> mc_stale m = []"
proof -
  obtain m where m: "mruns sample_env one_at_a_time (idle_machine sample_submitted) overtaking m"
    "mc_replies m = [(IOCTL_VIRTIO_VGPU_CONTEXT_INIT, other_request, (STATUS_SUCCESS, 16, [])),
        (IOCTL_VIRTIO_VGPU_WAIT, wait_request, (STATUS_SUCCESS, 4, le32 0))]"
    using overtaking_run by blast
  have "callbacks overtaking = [sample_interrupt]" by (simp add: overtaking_def)
  with interleavings_serialize [OF m(1)] m(2) have "\<exists>evs. serves sample_env sample_submitted evs
        [(IOCTL_VIRTIO_VGPU_CONTEXT_INIT, other_request, (STATUS_SUCCESS, 16, [])),
         (IOCTL_VIRTIO_VGPU_WAIT, wait_request, (STATUS_SUCCESS, 4, [0, 0, 0, 0]))] (mc_driver m)
    \<and> filter (\<lambda>ev. \<not> is_request ev) evs = [sample_interrupt] \<and> mc_stale m = []"
    by (simp add: le32_def) blast
  with m(1) show ?thesis by blast
qed

end
