(* ===== verification/Vgpu_Careful.thy ===== *)
theory Vgpu_Careful
  imports Vgpu_Interleaving Vgpu_Refinement
begin

text \<open>
  Requests of one process that run at the same time.  Between its two parts a thread relies on
  little: that the context or resource it found is still there, for a mapping that it is not mapped
  yet, for a new context that there is none yet.  The second parts of other threads keep that unless
  the two conflict: one closes what the other uses, both map the same resource, both ask for the
  context of the process.  So every run in which no thread goes on while one it conflicts with is
  under way is a run of the driver that serves requests one after the other.  \<open>Vgpu_Races\<close> shows
  what each conflict does.
\<close>

unbundle bit_operations_syntax

subsection \<open>What a thread relies on\<close>

definition outline_at :: "u32 \<Rightarrow> u32 \<Rightarrow> driver \<Rightarrow> (u32 \<times> bool \<times> u64) option" where
  "outline_at p i d = map_option outline (resource_at p i d)"

fun relies :: "u32 \<Rightarrow> point \<Rightarrow> driver \<Rightarrow> driver \<Rightarrow> bool" where
  "relies p (At_start code) d d' \<longleftrightarrow> True"
| "relies p (At_insert status n contextInit) d d' \<longleftrightarrow> context_at p d' = None"
| "relies p (At_map status n ctx i) d d' \<longleftrightarrow> outline_at ctx i d' = outline_at ctx i d"
| "relies p pt d d' \<longleftrightarrow> target_in_use pt d'"

lemma find_context_again:
  assumes "find_context r checked d = Inr (status, n, c)" and "context_at (vc_Id c) d' \<noteq> None"
  shows "\<exists>c'. find_context r checked d' = Inr (status, n, c') \<and> vc_Id c' = vc_Id c"
  using assms contexts.search_SomeD [of "rq_pid r" "g_VirglContextList d"] contexts.search_SomeD [of "rq_pid r" "g_VirglContextList d'"]
  by (auto simp: find_context_def context_at_def GetVirglContextFromListUnsafe_def split: sum.splits option.splits)

lemma find_resource_again:
  assumes "find_resource r checked h d = Inr (status, n, c, res)" and "resource_at (vc_Id c) h d' = Some res'"
  shows "\<exists>c'. find_resource r checked h d' = Inr (status, n, c', res') \<and> vc_Id c' = vc_Id c"
proof -
  have "find_context r checked d = Inr (status, n, c)"
    using assms(1) by (auto simp: find_resource_def split: sum.splits option.splits)
  moreover have "context_at (vc_Id c) d' \<noteq> None"
    using assms(2) by (auto simp: resource_at_def split: option.splits)
  ultimately obtain c' where c': "find_context r checked d' = Inr (status, n, c')" "vc_Id c' = vc_Id c"
    using find_context_again by blast
  with found_context [OF c'(1)] assms(2) show ?thesis
    by (simp add: find_resource_def resource_at_def GetResourceFromListUnsafe_def)
qed

lemma found_ids: "find_resource r checked h d = Inr (status, n, c, res) \<Longrightarrow> vr_Id res = h \<and> resource_at (vc_Id c) h d = Some res"
  by (auto dest: found_resource)

lemma at_ids: "resource_at p i d = Some res \<Longrightarrow> vr_Id res = i"
  using resources.search_SomeD by (fastforce simp: resource_at_def split: option.splits)

lemma relies_resource:
  assumes "find_resource r checked h d = Inr (status, n, c, res)" and "resource_at (vc_Id c) h d' \<noteq> None"
  shows "\<exists>c' res'. find_resource r checked h d' = Inr (status, n, c', res') \<and> vc_Id c' = vc_Id c \<and> vr_Id res' = h"
proof -
  from assms(2) obtain res' where "resource_at (vc_Id c) h d' = Some res'" by blast
  with find_resource_again [OF assms(1) this] at_ids [OF this] show ?thesis by blast
qed

lemma relies_outline:
  assumes "find_resource r checked h d = Inr (status, n, c, res)" and "outline_at (vc_Id c) h d' = outline_at (vc_Id c) h d"
  shows "\<exists>c' res'. find_resource r checked h d' = Inr (status, n, c', res') \<and> vc_Id c' = vc_Id c \<and> outline res' = outline res"
proof -
  have "resource_at (vc_Id c) h d = Some res" using found_ids [OF assms(1)] by simp
  with assms(2) obtain res' where "resource_at (vc_Id c) h d' = Some res'" "outline res' = outline res"
    by (auto simp: outline_at_def)
  with find_resource_again [OF assms(1) this(1)] show ?thesis by blast
qed

lemma relies_init:
  assumes "CtlInitVirglContext_first e r d = Inr (At_insert status n ci)" and "context_at (rq_pid r) d' = None" and "caps_grow d d'"
  shows "CtlInitVirglContext_first e r d' = Inr (At_insert status n ci)"
proof -
  have check: "init_context_check e r 0 d = Inr (status, n, ci)"
    using assms(1) by (auto simp: CtlInitVirglContext_first_def split: sum.splits)
  then have "context_loop (rq_pid r) (g_VirglContextList d) = None"
    by (auto simp: init_context_check_def GetVirglContextFromList_def GetVirglContextFromListUnsafe_def split: option.splits)
  with assms(2) have "shape_of (rq_pid r) d' = shape_of (rq_pid r) d" by (simp add: shape_of_def context_at_def)
  from init_check_shape [OF check this assms(3)] show ?thesis by (simp add: CtlInitVirglContext_first_def)
qed

lemma relies_map:
  assumes "CtlMap_first r d = Inr pt" and "relies p pt d d'"
  shows "CtlMap_first r d' = Inr pt"
proof -
  let ?find = "find_resource r (check_buffers r 16 8) (dmp_handle (decode_drm_map (rq_in r)))"
  obtain status n c res where found: "?find d = Inr (status, n, c, res)"
    and res: "vr_bForBuffer res" "sh_pMdl (mb_Share (vr_Buffer res)) = 0" and pt: "pt = At_map status n (vc_Id c) (vr_Id res)"
    using assms(1) by (auto simp: CtlMap_first_def Let_def split: sum.splits if_splits)
  have h: "vr_Id res = dmp_handle (decode_drm_map (rq_in r))" using found_ids [OF found] by simp
  then have "outline_at (vc_Id c) (dmp_handle (decode_drm_map (rq_in r))) d' =
      outline_at (vc_Id c) (dmp_handle (decode_drm_map (rq_in r))) d"
    using assms(2) pt by simp
  from relies_outline [OF found this] obtain c' res' where
    "?find d' = Inr (status, n, c', res')" "vc_Id c' = vc_Id c" "outline res' = outline res"
    by blast
  with res show ?thesis by (simp add: CtlMap_first_def pt outline_def)
qed

lemma context_first_again:
  assumes "map_sum id (\<lambda>(status, n, c). P status n (vc_Id c)) (find_context r checked d) = Inr pt"
    and "\<And>status n ctx. point_target (P status n ctx) = Some (ctx, None)" and "target_in_use pt d'"
  shows "map_sum id (\<lambda>(status, n, c). P status n (vc_Id c)) (find_context r checked d') = Inr pt"
proof -
  obtain status n c where found: "find_context r checked d = Inr (status, n, c)" and pt: "pt = P status n (vc_Id c)"
    using assms(1) by (auto simp: map_sum_Inr)
  with assms(2,3) have "context_at (vc_Id c) d' \<noteq> None" by (simp add: target_in_use_def)
  from find_context_again [OF found this] show ?thesis by (auto simp: pt)
qed

lemma resource_first_again:
  assumes "map_sum id (\<lambda>(status, n, c, res). P status n (vc_Id c) (vr_Id res)) (find_resource r checked h d) = Inr pt"
    and "\<And>status n ctx i. point_target (P status n ctx i) = Some (ctx, Some i)" and "target_in_use pt d'"
  shows "map_sum id (\<lambda>(status, n, c, res). P status n (vc_Id c) (vr_Id res)) (find_resource r checked h d') = Inr pt"
proof -
  obtain status n c res where found: "find_resource r checked h d = Inr (status, n, c, res)"
    and pt: "pt = P status n (vc_Id c) (vr_Id res)"
    using assms(1) by (auto simp: map_sum_Inr)
  moreover have h: "vr_Id res = h" using found_ids [OF found] by simp
  ultimately have "resource_at (vc_Id c) h d' \<noteq> None" using assms(2,3) by (simp add: target_in_use_def)
  from relies_resource [OF found this] show ?thesis by (auto simp: pt h)
qed

lemma relies_first_part:
  assumes "first_part e code r d = Inr pt" and "relies (rq_pid r) pt d d'" and "caps_grow d d'"
  shows "first_part e code r d' = Inr pt"
proof -
  have "\<forall>pt. first_part e code r d = Inr pt \<longrightarrow> relies (rq_pid r) pt d d' \<longrightarrow> first_part e code r d' = Inr pt"
  proof (rule first_part_all)
    show "\<forall>pt. CtlInitVirglContext_first e r d = Inr pt \<longrightarrow> relies (rq_pid r) pt d d' \<longrightarrow> CtlInitVirglContext_first e r d' = Inr pt"
    proof (intro allI impI)
      fix pt assume pt: "CtlInitVirglContext_first e r d = Inr pt" "relies (rq_pid r) pt d d'"
      then obtain status n ci where "pt = At_insert status n ci" by (auto simp: CtlInitVirglContext_first_def split: sum.splits)
      with pt show "CtlInitVirglContext_first e r d' = Inr pt" by (auto intro: relies_init [OF _ _ assms(3)])
    qed
    show "\<forall>pt. DestroyContext_first r d = Inr pt \<longrightarrow> relies (rq_pid r) pt d d' \<longrightarrow> DestroyContext_first r d' = Inr pt"
      using contexts.search_SomeD [of "rq_pid r" "g_VirglContextList d"] contexts.search_SomeD [of "rq_pid r" "g_VirglContextList d'"]
      by (auto simp: DestroyContext_first_def GetVirglContextFromList_def GetVirglContextFromListUnsafe_def
          target_in_use_def context_at_def split: option.splits)
    show "\<forall>pt. CtlMap_first r d = Inr pt \<longrightarrow> relies (rq_pid r) pt d d' \<longrightarrow> CtlMap_first r d' = Inr pt"
      using relies_map by blast
    show "\<forall>pt. CtlCreateResource_first r d = Inr pt \<longrightarrow> relies (rq_pid r) pt d d' \<longrightarrow> CtlCreateResource_first r d' = Inr pt"
      "\<forall>pt. CtlSubmitCommand_first r d = Inr pt \<longrightarrow> relies (rq_pid r) pt d d' \<longrightarrow> CtlSubmitCommand_first r d' = Inr pt"
      "\<forall>pt. CtlCreateBlobResource_first r d = Inr pt \<longrightarrow> relies (rq_pid r) pt d d' \<longrightarrow> CtlCreateBlobResource_first r d' = Inr pt"
      unfolding first_part_defs
      by (intro allI impI, rule context_first_again, assumption, simp, force simp: map_sum_Inr)+
    show "\<forall>pt. CtlCloseResource_first r d = Inr pt \<longrightarrow> relies (rq_pid r) pt d d' \<longrightarrow> CtlCloseResource_first r d' = Inr pt"
      "\<forall>pt. CtlWait_first r d = Inr pt \<longrightarrow> relies (rq_pid r) pt d d' \<longrightarrow> CtlWait_first r d' = Inr pt"
      "\<And>h. \<forall>pt. CtlTransferHost_first h r d = Inr pt \<longrightarrow> relies (rq_pid r) pt d d' \<longrightarrow> CtlTransferHost_first h r d' = Inr pt"
      unfolding first_part_defs
      by (intro allI impI, rule resource_first_again, assumption, simp, force simp: map_sum_Inr)+
  qed simp_all
  with assms(1,2) show ?thesis by blast
qed
subsection \<open>What a second part keeps\<close>

text \<open>\<open>gone\<close> are the resources of context \<open>p\<close> that may disappear, \<open>mapped\<close> those that may be mapped.\<close>

definition keeps :: "u32 \<Rightarrow> u32 set \<Rightarrow> u32 set \<Rightarrow> driver \<Rightarrow> driver \<Rightarrow> bool" where
  "keeps p gone mapped d d' \<longleftrightarrow> (context_at p d' = None \<longleftrightarrow> context_at p d = None)
     \<and> (\<forall>i. resource_at p i d \<noteq> None \<longrightarrow> (i \<notin> gone \<longrightarrow> resource_at p i d' \<noteq> None)
         \<and> (i \<notin> gone \<longrightarrow> i \<notin> mapped \<longrightarrow> outline_at p i d' = outline_at p i d))"

lemma keeps_shape:
  assumes "shape_of p d' = shape_of p d"
  shows "keeps p gone mapped d d'"
proof (cases "context_at p d")
  case None
  with assms show ?thesis by (simp add: keeps_def shape_of_def context_at_def resource_at_def)
next
  case (Some c)
  with assms obtain c' where c': "context_at p d' = Some c'" "shape c' = shape c"
    by (auto simp: shape_of_def context_at_def)
  have "resource_at p i d = Some res \<Longrightarrow> \<exists>res'. resource_at p i d' = Some res' \<and> outline res' = outline res" for i res
    using resource_outline [of i "vc_ResourceList c" res "vc_ResourceList c'"] c'
    by (simp add: resource_at_def Some shape_def)
  then have "resource_at p i d \<noteq> None \<Longrightarrow> resource_at p i d' \<noteq> None \<and> outline_at p i d' = outline_at p i d" for i
    by (fastforce simp: outline_at_def)
  with Some c' show ?thesis by (simp add: keeps_def)
qed

lemma keeps_shapes: "shapes d' = shapes d \<Longrightarrow> keeps p gone mapped d d'"
  by (intro keeps_shape shape_of_cong)

lemma keeps_update:
  assumes "g_VirglContextList d' = upd_first (\<lambda>c. vc_Id c = q) f (g_VirglContextList d)" and "\<And>c. vc_Id (f c) = vc_Id c"
    and "\<And>c i. context_loop q (g_VirglContextList d) = Some c \<Longrightarrow> resource_loop i (vc_ResourceList c) \<noteq> None \<Longrightarrow> i \<notin> gone \<Longrightarrow>
      resource_loop i (vc_ResourceList (f c)) \<noteq> None"
    and "\<And>c i. context_loop q (g_VirglContextList d) = Some c \<Longrightarrow> resource_loop i (vc_ResourceList c) \<noteq> None \<Longrightarrow> i \<notin> gone \<Longrightarrow> i \<notin> mapped \<Longrightarrow>
      map_option outline (resource_loop i (vc_ResourceList (f c))) = map_option outline (resource_loop i (vc_ResourceList c))"
  shows "keeps p gone mapped d d'"
proof -
  have c: "context_at p d' = (if p = q then map_option f (context_at p d) else context_at p d)"
    using contexts.search_update [OF assms(2), of p q "g_VirglContextList d"] by (simp add: context_at_def assms(1))
  show ?thesis
  proof (cases "p = q")
    case True
    with c assms(3,4) show ?thesis
      by (cases "context_at p d") (auto simp: keeps_def resource_at_def outline_at_def context_at_def)
  next
    case False
    with c show ?thesis by (simp add: keeps_def resource_at_def outline_at_def)
  qed
qed

lemma remove_others: "i \<noteq> h \<Longrightarrow> resource_loop i (del_first (\<lambda>x. vr_Id x = h) rs) = resource_loop i rs"
  by (induction rs) auto

lemma keeps_remove:
  "keeps p {h} mapped d (with_context q (remove_resource h) d)"
  by (rule keeps_update [where q = q and f = "remove_resource h"])
    (auto simp: with_context_def remove_resource_def remove_others)

lemma keeps_share:
  "g_VirglContextList d' = g_VirglContextList d \<Longrightarrow>
   keeps p gone {h} d (with_context q (with_resource h (set_share sh)) d')"
  by (rule keeps_update [where q = q and f = "with_resource h (set_share sh)"])
    (auto simp: with_context_def with_resource_def resources.search_update)

lemma keeps_adds:
  assumes "adds_one q ok d d'" and "driver_inv L X [] d'"
  shows "keeps p gone mapped d d'"
proof (cases "g_VirglContextList d' = g_VirglContextList d")
  case True
  then show ?thesis by (intro keeps_shape) (simp add: shape_of_def)
next
  case False
  then obtain c res where c: "context_loop q (g_VirglContextList d) = Some c"
    "g_VirglContextList d' = upd_first (\<lambda>c. vc_Id c = q) (insert_resource res) (g_VirglContextList d)"
    using assms(1) by (auto simp: adds_one_def)
  show ?thesis
  proof (rule keeps_update [OF c(2)])
    fix c' i
    assume "context_loop q (g_VirglContextList d) = Some c'" "resource_loop i (vc_ResourceList c') \<noteq> None"
    with insert_fresh [OF c assms(2) this(1)] have "i \<noteq> vr_Id res" by auto
    then show "map_option outline (resource_loop i (vc_ResourceList (insert_resource res c')))
        = map_option outline (resource_loop i (vc_ResourceList c'))"
      by (simp add: insert_resource_def)
  qed (simp_all add: insert_resource_def)
qed

text \<open>The handlers, each on its own part of a context.\<close>

lemma handles_shapes:
  "submit_handles r cmd i f d = Inl (s, d') \<Longrightarrow> shapes d' = shapes d"
  "submit_handles r cmd i f d = Inr (hs, d') \<Longrightarrow> shapes d' = shapes d"
  by (auto simp: submit_handles_def Let_def shapes_context split: if_splits prod.splits option.splits
      simp del: UpdateResourceState.simps)

lemma shapes_list: "g_VirglContextList d' = g_VirglContextList d \<Longrightarrow> shapes d' = shapes d"
  by (simp add: shapes_def)

lemma found_shapes:
  "reply_all (\<lambda>d'. shapes d' = shapes d) (CtlWait_found r status n res d)"
  "reply_all (\<lambda>d'. shapes d' = shapes d) (CtlTransferHost_found e h r status n ctx res d)"
  "reply_all (\<lambda>d'. shapes d' = shapes d) (CtlSubmitCommand_found e r n ctx d)"
  "reply_all (\<lambda>d'. shapes d' = shapes d) (CtlGetCaps e r d)" "reply_all (\<lambda>d'. shapes d' = shapes d) (CtlGetParams e r d)"
proof -
  show "reply_all (\<lambda>d'. shapes d' = shapes d) (CtlWait_found r status n res d)"
    unfolding CtlWait_found_def by (simp add: Let_def split: option.split)
  show "reply_all (\<lambda>d'. shapes d' = shapes d) (CtlTransferHost_found e h r status n ctx res d)"
    unfolding CtlTransferHost_found_def
    by (simp add: Let_def shapes_context split: option.split del: UpdateResourceState.simps)
  show "reply_all (\<lambda>d'. shapes d' = shapes d) (CtlSubmitCommand_found e r n ctx d)"
    unfolding CtlSubmitCommand_found_def Let_def
    by (simp split: sum.split option.split prod.split)
      (auto dest!: fences_contexts handles_shapes intro: shapes_list simp: shapes_def)
  show "reply_all (\<lambda>d'. shapes d' = shapes d) (CtlGetCaps e r d)"
    unfolding CtlGetCaps_def Let_def
    by (intro reply_input) (simp, simp split: option.split, intro allI impI reply_output,
        simp_all add: shapes_def split: option.split)
  show "reply_all (\<lambda>d'. shapes d' = shapes d) (CtlGetParams e r d)"
    unfolding CtlGetParams_def
    by (rule reply_option, intro reply_frame) (auto simp: Let_def shapes_def split: if_splits)
qed
text \<open>What a second part may take away, by its point.\<close>

fun closes :: "point \<Rightarrow> u32 set" where
  "closes (At_close status n ctx i) = {i}"
| "closes pt = {}"

fun maps :: "point \<Rightarrow> u32 set" where
  "maps (At_map status n ctx i) = {i}"
| "maps pt = {}"

lemma close_keeps: "reply_all (keeps p {vr_Id res} {} d) (CtlCloseResource_found e r status n ctx res d)"
proof -
  have "keeps p {vr_Id res} {} d (with_context ctx (remove_resource (vr_Id res)) d)" by (rule keeps_remove)
  then show ?thesis
    by (simp add: CtlCloseResource_found_def Let_def keeps_def context_at_def resource_at_def outline_at_def
        remove_resource_def [abs_def])
qed

lemma map_keeps: "reply_all (keeps p {} {vr_Id res} d) (CtlMap_found r status n ctx res d)"
  unfolding CtlMap_found_def Let_def
  by (auto simp: KeWait_def intro!: keeps_share dest: contexts_share split: option.split prod.split)

lemma creates_add_one:
  assumes "context_at ctx d \<noteq> None"
  shows "reply_all (adds_one ctx (\<lambda>k. True) d) (CtlCreateResource_found e r status n ctx d)"
    and "reply_all (adds_one ctx (\<lambda>k. True) d) (CtlCreateBlobResource_found e r n ctx d)"
proof -
  obtain c where "context_loop ctx (g_VirglContextList d) = Some c" using assms by (auto simp: context_at_def)
  then show "reply_all (adds_one ctx (\<lambda>k. True) d) (CtlCreateResource_found e r status n ctx d)"
    "reply_all (adds_one ctx (\<lambda>k. True) d) (CtlCreateBlobResource_found e r n ctx d)"
    by (simp_all add: CtlCreateResource_found_def CtlCreateBlobResource_found_def Let_def adds_same adds_insert adds_on_dev
        split: option.split prod.split)
qed

lemma second_part_keeps:
  assumes "second_part e r pt d = Some (s, m, out, d')" and "driver_inv L X [] d'"
    and "\<And>status n ci. pt \<noteq> At_insert status n ci" and "\<And>ctx. pt \<noteq> At_destroy ctx" and "target_in_use pt d"
    and "\<And>code. pt = At_start code \<Longrightarrow> code = IOCTL_VIRTIO_VGPU_GETPARAM \<or> code = IOCTL_VIRTIO_VGPU_GET_CAPS"
  shows "keeps p (closes pt) (maps pt) d d'"
proof (cases pt)
  case (At_start code)
  with assms(1) have "dispatch e code r d = Some (s, m, out, d')" by simp
  with assms(6) [OF At_start] found_shapes(4) [of d e r] found_shapes(5) [of d e r] have "shapes d' = shapes d"
    by (auto simp: dispatch_def ioctl_code_defs ctl_code_defs)
  then show ?thesis by (rule keeps_shapes)
next
  case (At_create status n ctx)
  with assms(5) have "context_at ctx d \<noteq> None" by (simp add: target_in_use_def)
  from creates_add_one(1) [OF this, of e r status n] At_create assms(1) keeps_adds [OF _ assms(2)] show ?thesis by simp
next
  case (At_create_blob n ctx)
  with assms(5) have "context_at ctx d \<noteq> None" by (simp add: target_in_use_def)
  from creates_add_one(2) [OF this, of e r n] At_create_blob assms(1) keeps_adds [OF _ assms(2)] show ?thesis by simp
next
  case (At_submit n ctx)
  with assms(1) found_shapes(3) [of d e r n ctx] have "shapes d' = shapes d" by simp
  then show ?thesis by (rule keeps_shapes)
next
  case (At_close status n ctx i)
  then obtain res where "resource_at ctx i d = Some res" using assms(1) by (auto split: option.splits)
  with At_close assms(1) at_ids [OF this] close_keeps [of p res d e r status n ctx] show ?thesis by simp
next
  case (At_wait status n ctx i)
  then obtain res where "resource_at ctx i d = Some res" using assms(1) by (auto split: option.splits)
  with At_wait assms(1) found_shapes(1) [of d r status n res] have "shapes d' = shapes d" by simp
  then show ?thesis by (rule keeps_shapes)
next
  case (At_map status n ctx i)
  then obtain res where "resource_at ctx i d = Some res" using assms(1) by (auto split: option.splits)
  with At_map assms(1) at_ids [OF this] map_keeps [of p res d r status n ctx] show ?thesis by simp
next
  case (At_transfer h status n ctx i)
  then obtain res where "resource_at ctx i d = Some res" using assms(1) by (auto split: option.splits)
  with At_transfer assms(1) found_shapes(2) [of d e h r status n ctx res] have "shapes d' = shapes d" by simp
  then show ?thesis by (rule keeps_shapes)
qed (use assms(3,4) in simp_all)
subsection \<open>Conflicts\<close>

fun inserts :: "point \<Rightarrow> bool" where
  "inserts (At_insert status n contextInit) = True"
| "inserts pt = False"

text \<open>Whether a thread of the same process that goes on at the first point disturbs one at the second.\<close>

fun conflict :: "point \<Rightarrow> point \<Rightarrow> bool" where
  "conflict (At_insert status n contextInit) pt \<longleftrightarrow> inserts pt"
| "conflict (At_destroy ctx) pt \<longleftrightarrow> point_target pt \<noteq> None"
| "conflict (At_close status n ctx i) pt \<longleftrightarrow> point_target pt = Some (ctx, Some i)"
| "conflict (At_map status n ctx i) pt \<longleftrightarrow> i \<in> maps pt"
| "conflict _ pt \<longleftrightarrow> False"

definition disturbs :: "thread \<Rightarrow> thread \<Rightarrow> bool" where
  "disturbs t u \<longleftrightarrow> rq_pid (th_request t) = rq_pid (th_request u) \<and> conflict (th_point t) (th_point u)"

definition careful :: "machine \<Rightarrow> action \<Rightarrow> bool" where
  "careful m act = (case act of
       Proceed i \<Rightarrow> i < length (mc_threads m) \<longrightarrow>
         (\<forall>u \<in> set (without i (mc_threads m)). \<not> disturbs (mc_threads m ! i) u)
     | Callback (Notify pid create) \<Rightarrow> create \<or> (\<forall>t \<in> set (mc_threads m). rq_pid (th_request t) \<noteq> pid)
     | _ \<Rightarrow> True)"

text \<open>What a point says of the process and the driver.\<close>

definition point_ok :: "u32 \<Rightarrow> driver \<Rightarrow> point \<Rightarrow> bool" where
  "point_ok p d pt \<longleftrightarrow> (\<forall>ctx x. point_target pt = Some (ctx, x) \<longrightarrow> ctx = p) \<and> (inserts pt \<longrightarrow> context_at p d = None)"

lemma caller_id: "find_context r checked d = Inr (s, n, c) \<Longrightarrow> vc_Id c = rq_pid r"
  using contexts.search_SomeD [of "rq_pid r" "g_VirglContextList d" c]
  by (auto simp: find_context_def GetVirglContextFromListUnsafe_def split: sum.splits option.splits)

lemma owner_id: "find_resource r checked h d = Inr (s, n, c, res) \<Longrightarrow> vc_Id c = rq_pid r"
  using caller_id by (auto simp: find_resource_def split: sum.splits option.splits)

lemma first_part_point:
  assumes "first_part e code r d = Inr pt"
  shows "point_ok (rq_pid r) d pt"
proof -
  have "\<forall>pt. first_part e code r d = Inr pt \<longrightarrow> point_ok (rq_pid r) d pt"
  proof (rule first_part_all)
    show "\<forall>pt. CtlInitVirglContext_first e r d = Inr pt \<longrightarrow> point_ok (rq_pid r) d pt"
      by (auto simp: CtlInitVirglContext_first_def init_context_check_def GetVirglContextFromList_def
          GetVirglContextFromListUnsafe_def point_ok_def context_at_def split: sum.splits option.splits)
    show "\<forall>pt. DestroyContext_first r d = Inr pt \<longrightarrow> point_ok (rq_pid r) d pt"
      using contexts.search_SomeD [of "rq_pid r" "g_VirglContextList d"]
      by (auto simp: DestroyContext_first_def GetVirglContextFromList_def GetVirglContextFromListUnsafe_def
          point_ok_def split: option.splits)
    show "\<forall>pt. CtlMap_first r d = Inr pt \<longrightarrow> point_ok (rq_pid r) d pt"
      by (auto simp: CtlMap_first_def Let_def point_ok_def dest: owner_id split: sum.splits if_splits)
  qed (auto simp: first_part_defs map_sum_Inr point_ok_def dest: caller_id owner_id)
  with assms show ?thesis by blast
qed

lemma not_start:
  "CtlInitVirglContext_first e r d \<noteq> Inr (At_start c)" "DestroyContext_first r d \<noteq> Inr (At_start c)"
  "CtlCreateResource_first r d \<noteq> Inr (At_start c)" "CtlCreateBlobResource_first r d \<noteq> Inr (At_start c)"
  "CtlSubmitCommand_first r d \<noteq> Inr (At_start c)" "CtlCloseResource_first r d \<noteq> Inr (At_start c)"
  "CtlWait_first r d \<noteq> Inr (At_start c)" "CtlMap_first r d \<noteq> Inr (At_start c)"
  "CtlTransferHost_first h r d \<noteq> Inr (At_start c)"
  by (auto simp: first_part_defs map_sum_Inr Let_def split: sum.splits option.splits if_splits)

lemma first_part_start:
  assumes "first_part e code r d = Inr (At_start c)"
  shows "c = IOCTL_VIRTIO_VGPU_GETPARAM \<or> c = IOCTL_VIRTIO_VGPU_GET_CAPS"
proof (cases "code = IOCTL_VIRTIO_VGPU_GETPARAM \<or> code = IOCTL_VIRTIO_VGPU_GET_CAPS")
  case True
  then show ?thesis using assms by (auto simp: first_part_def ioctl_code_defs ctl_code_defs)
next
  case False
  then have "first_part e code r d \<noteq> Inr (At_start c)"
    unfolding first_part_def by (simp add: not_start)
  with assms show ?thesis by simp
qed

lemma keeps_relies:
  assumes "first_part e code r d = Inr pt" and "keeps (rq_pid r) (closes pt') (maps pt') d d'" and "\<not> conflict pt' pt"
    and "\<And>ctx i. point_target pt' = Some (ctx, Some i) \<Longrightarrow> ctx = rq_pid r"
  shows "relies (rq_pid r) pt d d'"
proof -
  have target: "ctx = rq_pid r" if "point_target pt = Some (ctx, x)" for ctx x
    using first_part_point [OF assms(1)] that by (simp add: point_ok_def)
  have unclosed: "i \<notin> closes pt'" if "point_target pt = Some (ctx, Some i)" for ctx i
    using assms(3,4) target that by (cases pt') auto
  have unmapped: "i \<notin> maps pt'" if "i \<in> maps pt" for i
    using assms(3) that by (cases pt') auto
  have use: "target_in_use pt d" by (rule first_part_target [OF assms(1)])
  have "target_in_use pt d'"
  proof (cases "point_target pt")
    case (Some a)
    then obtain x where pt: "point_target pt = Some (rq_pid r, x)" using target by (cases a) auto
    with use assms(2) unclosed show ?thesis by (cases x) (auto simp: target_in_use_def keeps_def)
  qed (simp add: target_in_use_def)
  moreover have "outline_at ctx i d' = outline_at ctx i d" if "pt = At_map status n ctx i" for status n ctx i
  proof -
    have "ctx = rq_pid r" "i \<notin> closes pt'" "i \<notin> maps pt'" "resource_at ctx i d \<noteq> None"
      using that target [of ctx] unclosed [of ctx i] unmapped [of i] use by (simp_all add: target_in_use_def)
    with assms(2) show ?thesis by (simp add: keeps_def)
  qed
  moreover have "context_at (rq_pid r) d' = None" if "inserts pt"
    using that first_part_point [OF assms(1)] assms(2) by (simp add: keeps_def point_ok_def)
  ultimately show ?thesis by (cases pt) simp_all
qed
subsection \<open>Careful runs\<close>

lemma undisturbed_relies:
  assumes "undisturbed e d u" and "relies (rq_pid (th_request u)) (th_point u) d d'" and "caps_grow d d'"
  shows "undisturbed e d' (refresh d' u)"
proof -
  have "first_part e (th_code u) (th_request u) d' = Inr (th_point u)"
    using relies_first_part [OF _ assms(2,3)] assms(1) by (simp add: undisturbed_def)
  with first_part_target [OF this] assms(1) show ?thesis by (simp add: undisturbed_def refresh_def)
qed

text \<open>A thread that goes on leaves the others undisturbed that it does not conflict with.\<close>

lemma proceeding_leaves:
  assumes t: "undisturbed e d t" and u: "undisturbed e d u" and "\<not> disturbs t u"
    and "second_part e (th_request t) (th_point t) d = Some (s, n, out, d')" and "driver_inv L X [] d'"
  shows "undisturbed e d' (refresh d' u)"
proof -
  let ?p = "rq_pid (th_request u)" and ?q = "rq_pid (th_request t)"
  note t1 = t [unfolded undisturbed_def, THEN conjunct2] and u1 = u [unfolded undisturbed_def, THEN conjunct2]
  have dispatched: "dispatch e (th_code t) (th_request t) d = Some (s, n, out, d')"
    by (simp add: dispatch_parts t1 assms(4))
  then have caps: "caps_grow d d'" using dispatch_caps [of d e "th_code t" "th_request t"] by simp
  show ?thesis
  proof (cases "?p = ?q")
    case False
    from request_leaves [OF dispatched False] show ?thesis by (intro undisturbed_stays [OF u]) simp_all
  next
    case True
    with assms(3) have free: "\<not> conflict (th_point t) (th_point u)" by (simp add: disturbs_def)
    note points = first_part_point [OF t1] first_part_point [OF u1] first_part_target [OF t1] first_part_target [OF u1]
    have none: "point_target (th_point u) = None" if "context_at ?q d = None"
      using points(2,4) that True
      by (auto simp: point_ok_def target_in_use_def resource_at_def split: option.splits)
    have "relies ?p (th_point u) d d'"
    proof (cases "inserts (th_point t) \<or> (\<exists>ctx. th_point t = At_destroy ctx)")
      case nokeep: True
      have "\<not> inserts (th_point u)" "point_target (th_point u) = None"
      proof -
        show "point_target (th_point u) = None"
          using nokeep free none points(1)
          by (cases "th_point t"; cases "point_target (th_point u)") (auto simp: point_ok_def)
        show "\<not> inserts (th_point u)"
          using nokeep free points(1-3) True by (cases "th_point t") (auto simp: point_ok_def target_in_use_def)
      qed
      then show ?thesis by (cases "th_point u") simp_all
    next
      case False
      have "keeps ?p (closes (th_point t)) (maps (th_point t)) d d'"
        by (rule second_part_keeps [OF assms(4,5)])
          (use False points(3) first_part_start [of e "th_code t" "th_request t" d] t1 in auto)
      then show ?thesis
        by (rule keeps_relies [OF u1 _ free]) (use points(1) True in \<open>simp add: point_ok_def\<close>)
    qed
    then show ?thesis by (rule undisturbed_relies [OF u _ caps])
  qed
qed

lemma careful_step:
  assumes "mstep e m act m'" and "careful m act" and "\<forall>t \<in> set (mc_threads m). undisturbed e (mc_driver m) t"
    and "kept (en_kernel e) L X [] (mc_driver m)" and "env_ok e" and "next_id (mc_driver m) < 2 ^ 32"
  shows "calm e m act \<and> (\<forall>t \<in> set (mc_threads m'). undisturbed e (mc_driver m') t)"
  using assms(1)
proof cases
  case (returns code r ret)
  with assms(3) show ?thesis by (simp add: calm_def)
next
  case (begins code r pt)
  with assms(3) show ?thesis by (auto simp: calm_def undisturbed_def)
next
  case (proceeds i t status n out d)
  from without_split [OF proceeds(3)] proceeds(4) obtain us vs where
    ts: "mc_threads m = us @ t # vs" "without i (mc_threads m) = us @ vs" by auto
  have t: "undisturbed e (mc_driver m) t" using assms(3) by (simp add: ts(1))
  then have "dispatch e (th_code t) (th_request t) (mc_driver m) = Some (status, n, out, d)"
    by (simp add: dispatch_parts undisturbed_def proceeds(6))
  with dispatch_kept [OF assms(4-6), of "th_code t" "th_request t"] obtain L' where "driver_inv L' X [] d"
    by (auto simp: kept_def)
  note leaves = proceeding_leaves [OF t _ _ proceeds(6) this]
  have "\<forall>u \<in> set (us @ vs). \<not> disturbs t u"
    using assms(2) proceeds(3) by (simp add: careful_def proceeds(1) flip: ts(2) proceeds(4))
  then have "undisturbed e d (refresh d u)" if "u \<in> set (us @ vs)" for u
    using that assms(3) by (intro leaves) (auto simp: ts(1))
  moreover have "mc_threads m' = map (refresh d) (us @ vs)" "mc_driver m' = d"
    by (simp_all only: proceeds(2) machine_simps ts(2))
  ultimately have "\<forall>t \<in> set (mc_threads m'). undisturbed e (mc_driver m') t" by auto
  with t show ?thesis using proceeds(1,4) by (simp add: calm_def)
next
  case (dangles i t)
  then have "t \<in> set (mc_threads m)" by simp
  with dangles assms(3) show ?thesis by (simp add: undisturbed_def)
next
  case (calls ev d)
  have "undisturbed e d (refresh d t)" if "t \<in> set (mc_threads m)" for t
  proof (rule undisturbed_stays [of e "mc_driver m"])
    have "ev \<noteq> Notify (rq_pid (th_request t)) False"
      using assms(2) that calls(1) by (auto simp: careful_def)
    from callback_leaves [OF calls(4,3) this]
    show "shape_of (rq_pid (th_request t)) d = shape_of (rq_pid (th_request t)) (mc_driver m)" "caps_grow (mc_driver m) d"
      by simp_all
  qed (use that assms(3) in simp)
  with calls(1,2) show ?thesis by (auto simp: calm_def)
qed

lemma careful_runs_calm:
  assumes "mruns e careful m acts m'" and "m = idle_machine d0" and "started d0" and "env_ok e" and "length acts < 2 ^ 32 - 1"
  shows "mruns e (calm e) m acts m' \<and> (\<forall>t \<in> set (mc_threads m'). undisturbed e (mc_driver m') t)"
  using assms
proof (induction rule: mruns.induct)
  case (rests m)
  then show ?case by (simp add: mruns.rests)
next
  case (moves m acts m1 act m2)
  then have calm: "mruns e (calm e) m acts m1" "\<forall>t \<in> set (mc_threads m1). undisturbed e (mc_driver m1) t" by simp_all
  from calm_runs_serve [OF this(1) moves.prems(1)] obtain evs where
    "serves e d0 evs (mc_replies m1) (mc_driver m1)" "length evs \<le> length acts" by blast
  then have "steps e d0 evs (mc_driver m1)" "length evs < 2 ^ 32 - 1" "length evs < length (acts @ [act])"
    using serves_steps moves.prems(4) by auto
  from steps_kept [OF this(1) moves.prems(2,3) this(2)] this(3) moves.prems(4)
  have "kept (en_kernel e) {#} {#} [] (mc_driver m1)" "next_id (mc_driver m1) < 2 ^ 32" by simp_all
  from careful_step [OF moves.hyps(3,2) calm(2) this(1) moves.prems(3) this(2)] calm(1) moves.hyps(3)
  show ?case using mruns.moves by blast
qed

text \<open>C3: threads of all processes, several of one process among them, may run at the same time and
  overtake each other: as long as none goes on while one it conflicts with is under way, and no
  process exits with requests under way, each request returns what it would return if the requests
  ran as a whole, one after the other in the order in which they return, with the same callbacks in
  between; the driver ends in the state that gives, and no thread uses a context or resource that
  was freed.\<close>

theorem careful_runs_serialize:
  assumes "mruns e careful (idle_machine d0) acts m" and "started d0" and "env_ok e" and "length acts < 2 ^ 32 - 1"
  shows "\<exists>evs. serves e d0 evs (mc_replies m) (mc_driver m) \<and> filter (\<lambda>ev. \<not> is_request ev) evs = callbacks acts
    \<and> length evs \<le> length acts \<and> mc_stale m = []"
  using calm_runs_serve [OF conjunct1 [OF careful_runs_calm [OF assms(1) refl assms(2-4)]] refl] .

text \<open>C12: so the invariants of the driver hold in careful runs: every page of vgpu memory has at most
  one owner and owned pages are marked as used, ids are unique, no process has two contexts,
  and nothing was freed twice.\<close>

theorem careful_runs_safe:
  assumes "mruns e careful (idle_machine d0) acts m" and "started d0" and "env_ok e" and "length acts < 2 ^ 32 - 1"
  shows "mem_owned (driver_regions (mc_driver m)) (g_Memory (mc_driver m))
    \<and> distinct (concat (map (\<lambda>c. map vr_Id (vc_ResourceList c)) (g_VirglContextList (mc_driver m))))
    \<and> distinct (map vc_Id (g_VirglContextList (mc_driver m)))
    \<and> (\<forall>a. Fault_pool_free a \<notin> set (dv_faults (dr_dev (mc_driver m))))"
  by (rule served_safe [OF _ assms(2-4)])
    (use calm_runs_serve [OF conjunct1 [OF careful_runs_calm [OF assms(1) refl assms(2-4)]] refl] in blast)
subsection \<open>Two careful runs\<close>

text \<open>Two processes ask for their contexts at the same time.\<close>

definition two_contexts :: "action list" where
  "two_contexts = [Begin IOCTL_VIRTIO_VGPU_CONTEXT_INIT init_request, Begin IOCTL_VIRTIO_VGPU_CONTEXT_INIT other_request,
     Proceed 1, Proceed 0]"

lemma two_contexts_run:
  "\<exists>m. mruns sample_env careful (idle_machine sample_start) two_contexts m
    \<and> map vc_Id (g_VirglContextList (mc_driver m)) = [7, 8]"
proof -
  let ?m0 = "idle_machine sample_start"
  let ?m1 = "?m0\<lparr>mc_threads := [init_thread init_request]\<rparr>"
  let ?m2 = "?m0\<lparr>mc_threads := [init_thread init_request, init_thread other_request]\<rparr>"
  have start: "g_VirglContextList sample_start = []" by (simp add: sample_start_def)
  have s: "mstep sample_env ?m0 (Begin IOCTL_VIRTIO_VGPU_CONTEXT_INIT init_request) ?m1"
    "mstep sample_env ?m1 (Begin IOCTL_VIRTIO_VGPU_CONTEXT_INIT other_request) ?m2"
    using init_begins [OF asks_context(1), of ?m0 sample_env] init_begins [OF asks_context(2), of ?m1 sample_env]
    by (simp_all add: start)
  from init_proceeds [OF asks_context(2), of ?m2 "[init_thread init_request]" "[]" sample_env] obtain d1 where
    s3: "mstep sample_env ?m2 (Proceed 1) (log_reply IOCTL_VIRTIO_VGPU_CONTEXT_INIT other_request (STATUS_SUCCESS, 16, [])
      (after d1 [init_thread init_request] ?m2))" and d1: "map vc_Id (g_VirglContextList d1) = [8]"
    by (auto simp: start sample_pids)
  define m3 where "m3 = log_reply IOCTL_VIRTIO_VGPU_CONTEXT_INIT other_request (STATUS_SUCCESS, 16, [])
    (after d1 [init_thread init_request] ?m2)"
  then have m3: "mc_threads m3 = [] @ init_thread init_request # []" "mc_driver m3 = d1" by simp_all
  from init_proceeds [OF asks_context(1) m3(1), of sample_env] obtain m4 where
    s4: "mstep sample_env m3 (Proceed 0) m4" and m4: "map vc_Id (g_VirglContextList (mc_driver m4)) = [7, 8]"
    by (auto simp: m3(2) d1 sample_pids)
  have "mruns sample_env careful ?m0 [] ?m0" by (rule mruns.rests)
  from mruns.moves [OF mruns.moves [OF this _ s(1)] _ s(2)] have "mruns sample_env careful ?m0
      [Begin IOCTL_VIRTIO_VGPU_CONTEXT_INIT init_request, Begin IOCTL_VIRTIO_VGPU_CONTEXT_INIT other_request] ?m2"
    by (simp add: careful_def)
  from mruns.moves [OF mruns.moves [OF this _ s3 [folded m3_def]] _ s4]
  have "mruns sample_env careful ?m0 two_contexts m4"
    by (simp add: careful_def without_def disturbs_def init_thread_def sample_pids m3(1) two_contexts_def)
  with m4 show ?thesis by (intro exI [of _ m4] conjI)
qed

theorem careful_runs_safe_witness:
  "\<exists>m. mruns sample_env careful (idle_machine sample_start) two_contexts m
    \<and> map vc_Id (g_VirglContextList (mc_driver m)) = [7, 8]
    \<and> mem_owned (driver_regions (mc_driver m)) (g_Memory (mc_driver m))"
proof -
  obtain m where m: "mruns sample_env careful (idle_machine sample_start) two_contexts m"
    "map vc_Id (g_VirglContextList (mc_driver m)) = [7, 8]"
    using two_contexts_run by (elim exE conjE)
  have "length two_contexts < 2 ^ 32 - 1" by (simp add: two_contexts_def)
  from careful_runs_safe [OF m(1) sample_started sample_env_ok(1) this] m show ?thesis
    by (intro exI [of _ m] conjI) simp_all
qed

text \<open>Two threads of a process create a resource each; the second to begin is the first to return.\<close>

definition create_thread :: "u32 \<Rightarrow> thread" where
  "create_thread sz = \<lparr>th_code = IOCTL_VIRTIO_VGPU_RESOURCE_CREATE, th_request = create_request sz,
     th_point = At_create STATUS_SUCCESS 8 7, th_live = True\<rparr>"

definition two_creates :: "action list" where
  "two_creates = [Begin IOCTL_VIRTIO_VGPU_CONTEXT_INIT init_request, Proceed 0,
     Begin IOCTL_VIRTIO_VGPU_RESOURCE_CREATE (create_request 0x2000),
     Begin IOCTL_VIRTIO_VGPU_RESOURCE_CREATE (create_request 0x1000), Proceed 1, Proceed 0]"

lemma refresh_create [simp]: "context_at 7 d \<noteq> None \<Longrightarrow> refresh d (create_thread sz) = create_thread sz"
  by (simp add: refresh_def create_thread_def target_in_use_def)

lemma create_first:
  assumes "caller (create_request sz) d c" and "vc_Id c = 7"
  shows "first_part e IOCTL_VIRTIO_VGPU_RESOURCE_CREATE (create_request sz) d = Inr (At_create STATUS_SUCCESS 8 7)"
  using assms
  by (simp add: first_part_def ioctl_code_defs ctl_code_defs CtlCreateResource_first_def find_context_def
      check_buffers_def check_input_def check_buffer_def retrieved_def create_request_def caller_def)

lemma create_begins:
  assumes "caller (create_request sz) (mc_driver m) c" and "vc_Id c = 7"
  shows "mstep e m (Begin IOCTL_VIRTIO_VGPU_RESOURCE_CREATE (create_request sz))
    (m\<lparr>mc_threads := mc_threads m @ [create_thread sz]\<rparr>)"
  using mstep.begins [of e, OF create_first [OF assms]] by (simp add: create_thread_def)

lemma create_proceeds:
  assumes "mc_threads m = us @ create_thread sz # vs" and "caller (create_request sz) (mc_driver m) c" and "vc_Id c = 7"
    and "sz = 0x1000 \<or> sz = 0x2000"
    and "GetIdFromIdrWithoutCache (g_Idrs (mc_driver m)) VIRGL_RESOURCE_ID_TYPE 4 = (i, idrs)"
    and "AllocateVgpuMemory rtl_first_fit (ucast sz) (g_Memory (mc_driver m)) = (Some md, mem)"
  shows "\<exists>d. mstep sample_env m (Proceed (length us)) (log_reply IOCTL_VIRTIO_VGPU_RESOURCE_CREATE (create_request sz)
      (STATUS_SUCCESS, 8, create_resp (ucast i)) (after d (us @ vs) m))
    \<and> g_VirglContextList d = upd_first (\<lambda>x. vc_Id x = 7)
        (insert_resource (new_buffer sample_blob i (ucast sz) md)) (g_VirglContextList (mc_driver m))
    \<and> g_Idrs d = idrs \<and> g_Memory d = mem"
proof -
  have in_out: "takes_input (create_request sz) (encode_drm_resource_create (sample_create sz))"
    "has_output (create_request sz) 8" "rq_resource (create_request sz) = Some sample_blob"
    by (simp_all add: create_request_def sample_input)
  have "drc_size (sample_create sz) \<noteq> 1"
    "ucast sz = (if drc_size (sample_create sz) = 0 then PAGE_SIZE
      else ucast (ROUND_UP (drc_size (sample_create sz)) PAGE_SIZE) :: u64)"
    using assms(4) by (auto simp: sample_create_sizes ROUND_UP_def)
  from CreateResource_eq [OF in_out(1,2) assms(2) in_out(3) this(1) assms(5) this(2), of sample_env] assms(6)
  obtain d where d: "CtlCreateResource sample_env (create_request sz) (mc_driver m)
      = Some (STATUS_SUCCESS, 8, create_resp (ucast i), d)"
    "g_VirglContextList d = upd_first (\<lambda>x. vc_Id x = 7)
        (insert_resource (new_buffer sample_blob i (ucast sz) md)) (g_VirglContextList (mc_driver m))"
    "g_Idrs d = idrs" "g_Memory d = mem"
    by (fastforce simp: sample_env_def with_context_def assms(3) create_request_def)
  from second_part_dispatch [OF create_first [OF assms(2,3)], of sample_env] d(1)
  have "second_part sample_env (create_request sz) (At_create STATUS_SUCCESS 8 7) (mc_driver m)
      = Some (STATUS_SUCCESS, 8, create_resp (ucast i), d)"
    by (simp only: create_dispatch)
  with proceeds_at [OF assms(1), of sample_env STATUS_SUCCESS 8 "create_resp (ucast i)" d] d(2-4) show ?thesis
    by (intro exI [of _ d]) (simp add: create_thread_def del: second_part.simps)
qed
lemma two_creates_begun:
  "\<exists>m. mruns sample_env careful (idle_machine sample_start) (take 4 two_creates) m
    \<and> mc_threads m = [create_thread 0x2000, create_thread 0x1000]
    \<and> mc_replies m = [(IOCTL_VIRTIO_VGPU_CONTEXT_INIT, init_request, (STATUS_SUCCESS, 16, []))]
    \<and> g_VirglContextList (mc_driver m) = [\<lparr>vc_Id = 7, vc_ResourceList = []\<rparr>]
    \<and> g_Idrs (mc_driver m) = InitializeIdr Idrs_static \<and> g_Memory (mc_driver m) = sample_memory"
proof -
  let ?m0 = "idle_machine sample_start" and ?c = "\<lparr>vc_Id = 7, vc_ResourceList = []\<rparr> :: virgl_context"
  let ?m1 = "?m0\<lparr>mc_threads := [init_thread init_request]\<rparr>"
  have s1: "mstep sample_env ?m0 (Begin IOCTL_VIRTIO_VGPU_CONTEXT_INIT init_request) ?m1"
    using init_begins [OF asks_context(1), of ?m0 sample_env] by (simp add: sample_start_def)
  from init_proceeds [OF asks_context(1), of ?m1 "[]" "[]" sample_env] obtain d where
    s2: "mstep sample_env ?m1 (Proceed 0) (log_reply IOCTL_VIRTIO_VGPU_CONTEXT_INIT init_request
      (STATUS_SUCCESS, 16, []) (after d [] ?m1))" and
    d: "g_VirglContextList d = [?c]" "g_Idrs d = InitializeIdr Idrs_static" "g_Memory d = sample_memory"
    by (auto simp: sample_pids sample_start_def)
  define m2 where "m2 = log_reply IOCTL_VIRTIO_VGPU_CONTEXT_INIT init_request (STATUS_SUCCESS, 16, []) (after d [] ?m1)"
  then have m2: "mc_threads m2 = []" "mc_driver m2 = d"
    "mc_replies m2 = [(IOCTL_VIRTIO_VGPU_CONTEXT_INIT, init_request, (STATUS_SUCCESS, 16, []))]" by simp_all
  have c: "caller (create_request sz) d ?c" for sz
    by (simp add: caller_def create_request_def GetVirglContextFromListUnsafe_def d(1))
  let ?m3 = "m2\<lparr>mc_threads := [create_thread 0x2000]\<rparr>"
  let ?m4 = "m2\<lparr>mc_threads := [create_thread 0x2000, create_thread 0x1000]\<rparr>"
  have s: "mstep sample_env m2 (Begin IOCTL_VIRTIO_VGPU_RESOURCE_CREATE (create_request 0x2000)) ?m3"
    "mstep sample_env ?m3 (Begin IOCTL_VIRTIO_VGPU_RESOURCE_CREATE (create_request 0x1000)) ?m4"
    using create_begins [of _ m2 ?c sample_env] create_begins [of _ ?m3 ?c sample_env] c by (simp_all add: m2(1,2))
  have "mruns sample_env careful ?m0 [] ?m0" by (rule mruns.rests)
  from mruns.moves [OF mruns.moves [OF this _ s1] _ s2 [folded m2_def]]
  have "mruns sample_env careful ?m0 [Begin IOCTL_VIRTIO_VGPU_CONTEXT_INIT init_request, Proceed 0] m2"
    by (simp add: careful_def without_def)
  from mruns.moves [OF mruns.moves [OF this _ s(1)] _ s(2)]
  have "mruns sample_env careful ?m0 (take 4 two_creates) ?m4"
    by (simp add: careful_def two_creates_def)
  with m2 d show ?thesis by (intro exI [of _ ?m4]) simp
qed

lemma two_creates_run:
  "\<exists>m. mruns sample_env careful (idle_machine sample_start) two_creates m
    \<and> mc_replies m = [(IOCTL_VIRTIO_VGPU_CONTEXT_INIT, init_request, (STATUS_SUCCESS, 16, [])),
        (IOCTL_VIRTIO_VGPU_RESOURCE_CREATE, create_request 0x1000, (STATUS_SUCCESS, 8, create_resp 1)),
        (IOCTL_VIRTIO_VGPU_RESOURCE_CREATE, create_request 0x2000, (STATUS_SUCCESS, 8, create_resp 2))]"
proof -
  obtain m4 where m4: "mruns sample_env careful (idle_machine sample_start) (take 4 two_creates) m4"
    "mc_threads m4 = [create_thread 0x2000] @ create_thread 0x1000 # []"
    "mc_replies m4 = [(IOCTL_VIRTIO_VGPU_CONTEXT_INIT, init_request, (STATUS_SUCCESS, 16, []))]"
    "g_VirglContextList (mc_driver m4) = [\<lparr>vc_Id = 7, vc_ResourceList = []\<rparr>]"
    "g_Idrs (mc_driver m4) = InitializeIdr Idrs_static" "g_Memory (mc_driver m4) = sample_memory"
    using two_creates_begun by auto
  let ?ids = "\<lambda>n. [\<lparr>idr_Id = n, idr_FreeIdList = [], idr_Initilaized = True\<rparr>, \<lparr>idr_Id = 1, idr_FreeIdList = [], idr_Initilaized = True\<rparr>]"
  have c: "g_VirglContextList d = c # cs \<Longrightarrow> vc_Id c = 7 \<Longrightarrow> caller (create_request sz) d c" for d :: driver and c cs sz
    by (simp add: caller_def create_request_def GetVirglContextFromListUnsafe_def)
  have "GetIdFromIdrWithoutCache (InitializeIdr Idrs_static) VIRGL_RESOURCE_ID_TYPE 4 = (1, ?ids 2)"
    "GetIdFromIdrWithoutCache (?ids 2) VIRGL_RESOURCE_ID_TYPE 4 = (2, ?ids 3)"
    by (simp_all add: InitializeIdr_def Idrs_static_def GetIdFromIdrWithoutCache_def idr_consts copy_low_def numeral_2_eq_2)
  note ids = this
  from create_proceeds [OF m4(2) c [OF m4(4)] _ _ ids(1) [folded m4(5)]] sample_steps(1) obtain d where
    s5: "mstep sample_env m4 (Proceed 1) (log_reply IOCTL_VIRTIO_VGPU_RESOURCE_CREATE (create_request 0x1000)
      (STATUS_SUCCESS, 8, create_resp 1) (after d [create_thread 0x2000] m4))" and
    d: "\<exists>rs. g_VirglContextList d = [\<lparr>vc_Id = 7, vc_ResourceList = rs\<rparr>]" "g_Idrs d = ?ids 2"
    "g_Memory d = sample_state [True, False, False, False, False, False, False, False] 0x7000 1"
    by (fastforce simp: m4(4,6) insert_resource_def)
  define m5 where "m5 = log_reply IOCTL_VIRTIO_VGPU_RESOURCE_CREATE (create_request 0x1000)
    (STATUS_SUCCESS, 8, create_resp 1) (after d [create_thread 0x2000] m4)"
  obtain rs where rs: "g_VirglContextList d = [\<lparr>vc_Id = 7, vc_ResourceList = rs\<rparr>]" using d(1) by blast
  then have m5: "mc_threads m5 = [] @ create_thread 0x2000 # []" "mc_driver m5 = d"
    "mc_replies m5 = mc_replies m4 @ [(IOCTL_VIRTIO_VGPU_RESOURCE_CREATE, create_request 0x1000, (STATUS_SUCCESS, 8, create_resp 1))]"
    by (simp_all add: m5_def context_at_def)
  from create_proceeds [OF m5(1) c [OF rs [folded m5(2)]] _ _ ids(2) [folded d(2), folded m5(2)]] sample_steps(2) obtain d' where
    s6: "mstep sample_env m5 (Proceed 0) (log_reply IOCTL_VIRTIO_VGPU_RESOURCE_CREATE (create_request 0x2000)
      (STATUS_SUCCESS, 8, create_resp 2) (after d' [] m5))"
    by (fastforce simp: m5(2) d(3))
  have "careful m4 (Proceed 1)" "careful m5 (Proceed 0)"
    by (simp_all add: careful_def without_def disturbs_def create_thread_def m4(2) m5(1))
  from mruns.moves [OF mruns.moves [OF m4(1) this(1) s5 [folded m5_def]] this(2) s6]
  have "mruns sample_env careful (idle_machine sample_start) two_creates
      (log_reply IOCTL_VIRTIO_VGPU_RESOURCE_CREATE (create_request 0x2000) (STATUS_SUCCESS, 8, create_resp 2) (after d' [] m5))"
    (is "mruns _ _ _ _ ?m6")
    by (simp add: two_creates_def)
  moreover have "mc_replies ?m6 = mc_replies m5
      @ [(IOCTL_VIRTIO_VGPU_RESOURCE_CREATE, create_request 0x2000, (STATUS_SUCCESS, 8, create_resp 2))]" by simp
  ultimately show ?thesis using m5(3) m4(3) by (intro exI [of _ ?m6] conjI) simp_all
qed

theorem careful_runs_serialize_witness:
  "\<exists>m evs. mruns sample_env careful (idle_machine sample_start) two_creates m
    \<and> serves sample_env sample_start evs
        [(IOCTL_VIRTIO_VGPU_CONTEXT_INIT, init_request, (STATUS_SUCCESS, 16, [])),
         (IOCTL_VIRTIO_VGPU_RESOURCE_CREATE, create_request 0x1000, (STATUS_SUCCESS, 8, create_resp 1)),
         (IOCTL_VIRTIO_VGPU_RESOURCE_CREATE, create_request 0x2000, (STATUS_SUCCESS, 8, create_resp 2))] (mc_driver m)
    \<and> mc_stale m = []"
proof -
  obtain m where m: "mruns sample_env careful (idle_machine sample_start) two_creates m"
    "mc_replies m = [(IOCTL_VIRTIO_VGPU_CONTEXT_INIT, init_request, (STATUS_SUCCESS, 16, [])),
        (IOCTL_VIRTIO_VGPU_RESOURCE_CREATE, create_request 0x1000, (STATUS_SUCCESS, 8, create_resp 1)),
        (IOCTL_VIRTIO_VGPU_RESOURCE_CREATE, create_request 0x2000, (STATUS_SUCCESS, 8, create_resp 2))]"
    using two_creates_run by (elim exE conjE)
  have "length two_creates < 2 ^ 32 - 1" by (simp add: two_creates_def)
  from careful_runs_serialize [OF m(1) sample_started sample_env_ok(1) this] m show ?thesis
    unfolding m(2) by (elim exE conjE) (intro exI conjI, assumption+)
qed

end
