(* ===== verification/Vgpu_Races.thy ===== *)
theory Vgpu_Races
  imports Vgpu_Careful Vgpu_Lifetimes
begin

text \<open>
  What the conflicts of \<open>Vgpu_Careful\<close> do; two threads of one process reach each of them.  A context
  or resource is freed while another request uses it; a resource that is mapped twice loses the MDL
  of the first mapping.  (\<open>init_race_duplicates\<close> of \<open>Vgpu_Replies\<close> is the third: two contexts of
  one process.)
\<close>

unbundle bit_operations_syntax

subsection \<open>Freed while in use\<close>

fun frees :: "point \<Rightarrow> u32 \<times> u32 option \<Rightarrow> bool" where
  "frees (At_destroy ctx) target \<longleftrightarrow> fst target = ctx"
| "frees (At_close status n ctx i) target \<longleftrightarrow> target = (ctx, Some i)"
| "frees _ target \<longleftrightarrow> False"

lemma destroy_frees:
  assumes "second_part e r (At_destroy ctx) d = Some (s, n, out, d')" and "distinct (map vc_Id (g_VirglContextList d))"
  shows "context_at ctx d' = None"
proof -
  obtain c where c: "context_at ctx d = Some c" "d' = snd (CtlDestroyVirglContext e c d)"
    using assms(1) by (auto split: option.splits prod.splits)
  moreover have "vc_Id c = ctx"
    using c(1) contexts.search_SomeD [of ctx "g_VirglContextList d" c] by (simp add: context_at_def)
  ultimately show ?thesis
    by (simp add: CtlDestroyVirglContext_def Let_def context_at_def contexts.search_delete [OF assms(2)])
qed

lemma close_frees:
  assumes "second_part e r (At_close status n ctx i) d = Some (s, m, out, d')"
    and "\<forall>c \<in> set (g_VirglContextList d). distinct (map vr_Id (vc_ResourceList c))"
  shows "resource_at ctx i d' = None"
proof -
  obtain res c where res: "resource_at ctx i d = Some res" "context_at ctx d = Some c"
    "g_VirglContextList d' = upd_first (\<lambda>x. vc_Id x = ctx) (remove_resource (vr_Id res)) (g_VirglContextList d)"
    using assms(1)
    by (auto simp: CtlCloseResource_found_def Let_def with_context_def remove_resource_def [abs_def] resource_at_def
        split: option.splits)
  have "c \<in> set (g_VirglContextList d)"
    using res(2) contexts.search_SomeD [of ctx "g_VirglContextList d" c] by (simp add: context_at_def)
  then have "distinct (map vr_Id (vc_ResourceList c))" using assms(2) by blast
  from resources.search_delete [OF this, of i i] at_ids [OF res(1)]
  have "resource_loop i (vc_ResourceList (remove_resource (vr_Id res) c)) = None" by (simp add: remove_resource_def)
  moreover have "context_at ctx d' = Some (remove_resource (vr_Id res) c)"
    using res(2) contexts.search_update [of "remove_resource (vr_Id res)" ctx ctx "g_VirglContextList d"]
    by (simp add: context_at_def res(3) remove_resource_def)
  ultimately show ?thesis by (simp add: resource_at_def)
qed

text \<open>The objects the two requests give back: the resource, or the context with all its resources.\<close>

lemma context_atD: "context_at ctx d = Some c \<Longrightarrow> vc_Id c = ctx"
  using contexts.search_SomeD [of ctx "g_VirglContextList d" c] by (simp add: context_at_def)

lemma destroy_gives:
  assumes "second_part e r (At_destroy ctx) d = Some (s, n, out, d')" and "context_at ctx d = Some c"
  shows "k_freed d' = k_freed d @ map (\<lambda>x. (ctx, Some (vr_Id x))) (rev (vc_ResourceList c)) @ [(ctx, None)]"
proof -
  obtain s' where "CtlDestroyVirglContext e c d = (s', d')" using assms by (auto split: prod.splits)
  from destroy_gives_back [OF this] context_atD [OF assms(2)] show ?thesis by simp
qed

lemma close_gives:
  assumes "second_part e r (At_close status n ctx i) d = Some (s, m, out, d')"
  shows "k_freed d' = k_freed d @ [(ctx, Some i)]"
proof -
  obtain res where "resource_at ctx i d = Some res" "CtlCloseResource_found e r status n ctx res d = Some (s, m, out, d')"
    using assms by (auto split: option.splits)
  with at_ids show ?thesis
    by (auto simp: CtlCloseResource_found_def DeleteResource_fields free_resource_def with_context_def Let_def)
qed

lemma frees_gives_back:
  assumes "second_part e r pt d = Some (s, n, out, d')" and "frees pt x" and "point_target pu = Some x" and "target_in_use pu d"
  shows "\<exists>fs. k_freed d' = k_freed d @ fs \<and> x \<in> set fs"
proof (cases pt)
  case (At_destroy ctx)
  obtain c where c: "context_at ctx d = Some c" using assms(1) At_destroy by (auto split: option.splits)
  have "snd x = None \<or> (\<exists>res \<in> set (vc_ResourceList c). snd x = Some (vr_Id res))"
  proof (cases "snd x")
    case (Some i)
    with assms(2-4) At_destroy have "resource_at ctx i d \<noteq> None" by (cases x) (simp add: target_in_use_def)
    with c obtain res where "resource_loop i (vc_ResourceList c) = Some res" by (auto simp: resource_at_def)
    from resources.search_SomeD [OF this] Some show ?thesis by auto
  qed simp
  moreover have "fst x = ctx" using assms(2) At_destroy by simp
  ultimately have "x \<in> set (map (\<lambda>y. (ctx, Some (vr_Id y))) (rev (vc_ResourceList c)) @ [(ctx, None)])"
    by (cases x) auto
  with destroy_gives [OF _ c] assms(1) At_destroy show ?thesis by blast
next
  case (At_close status m ctx i)
  with close_gives [of e r status m ctx i d] assms(1,2) show ?thesis by auto
qed (use assms(2) in simp_all)

text \<open>C13: a request that closes a resource or destroys a context gives it back to the lookaside list
  (a context to the pool) whatever other requests have already found it: if another thread holds
  a pointer to a context or resource that is still in its list, and the request takes it away, the
  object is among what the request gave back, while that thread is still where it was, now with a
  pointer to an object that was given back.\<close>

theorem free_strands_users:
  assumes ts: "mc_threads m = us @ t # vs" and "th_live t" and u: "u \<in> set (us @ vs)"
    and x: "point_target (th_point u) = Some x" "frees (th_point t) x" and used: "target_in_use (th_point u) (mc_driver m)"
    and step: "mstep e m (Proceed (length us)) m'"
    and ids: "distinct (map vc_Id (g_VirglContextList (mc_driver m)))"
      "\<forall>c \<in> set (g_VirglContextList (mc_driver m)). distinct (map vr_Id (vc_ResourceList c))"
  shows "\<exists>fs k. k_freed (mc_driver m') = k_freed (mc_driver m) @ fs \<and> x \<in> set fs
    \<and> k < length (mc_threads m') \<and> mc_threads m' ! k = u\<lparr>th_live := False\<rparr>"
proof -
  have t: "mc_threads m ! length us = t" "without (length us) (mc_threads m) = us @ vs"
    by (simp_all add: ts without_def)
  from step obtain s n out d where d: "second_part e (th_request t) (th_point t) (mc_driver m) = Some (s, n, out, d)"
    and m': "mc_threads m' = map (refresh d) (us @ vs)" "mc_driver m' = d"
    by cases (use assms(2) t in \<open>auto simp: log_reply_def after_def\<close>)
  have "\<not> target_in_use (th_point u) d"
  proof (cases "th_point t")
    case (At_destroy ctx)
    with d have "context_at ctx d = None" by (intro destroy_frees [OF _ ids(1)]) simp
    with x At_destroy show ?thesis
      by (cases x) (auto simp: target_in_use_def resource_at_def split: option.split)
  next
    case (At_close status k ctx i)
    with d have "resource_at ctx i d = None" by (intro close_frees [OF _ ids(2)]) simp
    with x At_close show ?thesis by (simp add: target_in_use_def)
  qed (use x(2) in simp_all)
  then have stale: "refresh d u = u\<lparr>th_live := False\<rparr>" by (simp add: refresh_def)
  from u obtain k where k: "k < length (us @ vs)" "(us @ vs) ! k = u" by (auto simp only: in_set_conv_nth)
  then have "k < length (mc_threads m')" "mc_threads m' ! k = u\<lparr>th_live := False\<rparr>"
    unfolding m' by (simp_all only: length_map nth_map stale)
  with frees_gives_back [OF d x(2,1) used] show ?thesis unfolding m'(2) by blast
qed

text \<open>Process 7 waits for a busy resource, and another of its threads closes it.\<close>

definition close_request :: request where
  "close_request = sample_request (encode_drm_gem_close \<lparr>dcl_handle = 2, dcl_pad = 0\<rparr>) 0"

definition close_thread :: thread where
  "close_thread = \<lparr>th_code = IOCTL_VIRTIO_VGPU_RESOURCE_CLOSE, th_request = close_request,
     th_point = At_close STATUS_SUCCESS 8 7 2, th_live = True\<rparr>"

lemma close_begins:
  "first_part e IOCTL_VIRTIO_VGPU_RESOURCE_CLOSE close_request sample_submitted = Inr (At_close STATUS_SUCCESS 8 7 2)"
  by (simp add: first_part_def ioctl_code_defs ctl_code_defs CtlCloseResource_first_def find_resource_def find_context_def
      check_input_def check_buffer_def retrieved_def close_request_def GetVirglContextFromListUnsafe_def
      GetResourceFromListUnsafe_def sample_submitted_def sample_context_def sample_blob_def sample_busy_def)

lemma wait_close_begun:
  "mruns sample_env (\<lambda>m act. True) (idle_machine sample_submitted)
     [Begin IOCTL_VIRTIO_VGPU_WAIT wait_request, Begin IOCTL_VIRTIO_VGPU_RESOURCE_CLOSE close_request]
     (idle_machine sample_submitted\<lparr>mc_threads := [wait_thread, close_thread]\<rparr>)"
proof -
  let ?m0 = "idle_machine sample_submitted" and ?m1 = "idle_machine sample_submitted\<lparr>mc_threads := [wait_thread]\<rparr>"
  have "mstep sample_env ?m0 (Begin IOCTL_VIRTIO_VGPU_WAIT wait_request) ?m1"
    using mstep.begins [of sample_env IOCTL_VIRTIO_VGPU_WAIT wait_request ?m0] begin_wait by (simp add: wait_thread_def)
  moreover have "mstep sample_env ?m1 (Begin IOCTL_VIRTIO_VGPU_RESOURCE_CLOSE close_request)
      (?m0\<lparr>mc_threads := [wait_thread, close_thread]\<rparr>)"
    using mstep.begins [of sample_env IOCTL_VIRTIO_VGPU_RESOURCE_CLOSE close_request ?m1] close_begins
    by (simp add: close_thread_def)
  ultimately show ?thesis
    using mruns.moves [OF mruns.moves [OF mruns.rests TrueI] TrueI] by fastforce
qed

theorem free_strands_users_witness:
  "\<exists>m. mruns sample_env (\<lambda>m act. True) (idle_machine sample_submitted)
     [Begin IOCTL_VIRTIO_VGPU_WAIT wait_request, Begin IOCTL_VIRTIO_VGPU_RESOURCE_CLOSE close_request, Proceed 1] m
    \<and> (7, Some 2) \<in> set (k_freed (mc_driver m)) \<and> mc_threads m = [wait_thread\<lparr>th_live := False\<rparr>]"
proof -
  let ?m2 = "idle_machine sample_submitted\<lparr>mc_threads := [wait_thread, close_thread]\<rparr>"
  have lists: "g_VirglContextList (mc_driver ?m2) = [sample_context]" by (simp add: sample_submitted_def)
  then have in_use: "\<exists>res. resource_at 7 2 (mc_driver ?m2) = Some res"
    by (simp add: resource_at_def context_at_def sample_context_def sample_blob_def sample_busy_def)
  then obtain d where "second_part sample_env close_request (At_close STATUS_SUCCESS 8 7 2) (mc_driver ?m2)
      = Some (STATUS_SUCCESS, 8, rq_out close_request, d)"
    by (auto simp: CtlCloseResource_found_def Let_def)
  then obtain m3 where m3: "mstep sample_env ?m2 (Proceed 1) m3" "length (mc_threads m3) = 1"
    using proceeds_at [of ?m2 "[wait_thread]" close_thread "[]" sample_env STATUS_SUCCESS 8 "rq_out close_request" d]
    by (simp add: close_thread_def del: second_part.simps)
  have "\<exists>fs k. k_freed (mc_driver m3) = k_freed (mc_driver ?m2) @ fs \<and> (7, Some 2) \<in> set fs
      \<and> k < length (mc_threads m3) \<and> mc_threads m3 ! k = wait_thread\<lparr>th_live := False\<rparr>"
    by (rule free_strands_users [of ?m2 "[wait_thread]" close_thread "[]" wait_thread "(7, Some 2)"])
      (use m3(1) lists sample_distinct in_use in \<open>simp_all add: wait_thread_def close_thread_def target_in_use_def\<close>)
  then have "(7, Some 2) \<in> set (k_freed (mc_driver m3))" "mc_threads m3 ! 0 = wait_thread\<lparr>th_live := False\<rparr>"
    using m3(2) by auto
  moreover from this(2) m3(2) have "mc_threads m3 = [wait_thread\<lparr>th_live := False\<rparr>]" by (cases "mc_threads m3") auto
  ultimately show ?thesis using mruns.moves [OF wait_close_begun TrueI m3(1)] by (intro exI [of _ m3]) simp
qed

subsection \<open>Mapped twice\<close>

definition share_of :: "request \<Rightarrow> u64 \<Rightarrow> virgl_resource \<Rightarrow> share_descriptor" where
  "share_of r a res = (mb_Share (vr_Buffer res))\<lparr>sh_KernelAddress := md_VirtualAddress (mb_Memory (vr_Buffer res)),
     sh_Size := mb_Size (vr_Buffer res), sh_pMdl := rq_mdl r, sh_UserAdderss := a\<rparr>"

definition mappable :: "virgl_resource \<Rightarrow> bool" where
  "mappable res \<longleftrightarrow> vr_StateEvent res \<and> vr_bForBuffer res \<and> mb_Size (vr_Buffer res) \<noteq> 0
     \<and> md_VirtualAddress (mb_Memory (vr_Buffer res)) \<noteq> 0"

lemma mappable_share [simp]: "mappable (set_share sh res) = mappable res"
  by (simp add: mappable_def set_share_def)

lemma map_goes_on:
  assumes "resource_at p i d = Some res" and "mappable res" and "rq_mdl r \<noteq> 0" and "rq_map r = Some a" and "a \<noteq> 0"
  shows "second_part e r (At_map s n p i) d = Some (s, n, le64 a,
    with_context p (with_resource i (set_share (share_of r a res)))
      (d\<lparr>k_mdls := rq_mdl r # k_mdls d, k_umaps := (a, rq_mdl r) # k_umaps d\<rparr>))"
  using assms at_ids [OF assms(1)]
  by (simp add: CtlMap_found_def CreateUserShareMemory_def mappable_def share_of_def Let_def)

lemma share_at:
  assumes "resource_at p i d = Some res"
  shows "resource_at p i (with_context p (with_resource i (set_share sh)) (d\<lparr>k_mdls := ms, k_umaps := us\<rparr>)) = Some (set_share sh res)"
  using assms contexts.search_update [of "with_resource i (set_share sh)" p p "g_VirglContextList d"]
    resources.search_update [of "set_share sh" i i]
  by (auto simp: resource_at_def context_at_def with_resource_def split: option.splits)

lemma share_held:
  assumes "resource_at p i d = Some res"
  shows "held res_mdls [] (with_context p (with_resource i (set_share sh)) (d\<lparr>k_mdls := ms, k_umaps := us\<rparr>)) + res_mdls res
    = held res_mdls [] d + res_mdls (set_share sh res)"
proof -
  obtain c where "context_loop p (g_VirglContextList d) = Some c" "resource_loop i (vc_ResourceList c) = Some res"
    using assms by (auto simp: resource_at_def context_at_def split: option.splits)
  from owned_change [OF this, of res_mdls "set_share sh"] show ?thesis by (simp add: held_def with_context_def ac_simps)
qed

text \<open>Deleting resources frees no MDLs but theirs.\<close>

lemma delete_mdls: "mset (k_mdls d) \<subseteq># mset (k_mdls (DeleteResource e ctx r d)) + res_mdls r"
  by (auto simp: DeleteResource_def DeleteUserShareMemory_def IoFreeMdl_def MmUnmapLockedPages_def MmUnmapIoSpace_def fault_at_def res_mdls_def
      Let_def)

lemma destroy_mdls: "mset (k_mdls d) \<subseteq># mset (k_mdls (destroy_loop e ctx rs d)) + total res_mdls rs"
proof (induction rs arbitrary: d)
  case (Cons r rs)
  let ?d = "free_resource ctx (vr_Id r) (DeleteResource e ctx r d)"
  have "mset (k_mdls d) \<subseteq># mset (k_mdls ?d) + res_mdls r" using delete_mdls by (simp add: free_resource_def)
  also have "\<dots> \<subseteq># mset (k_mdls (destroy_loop e ctx rs ?d)) + total res_mdls rs + res_mdls r"
    using Cons.IH [of ?d] by simp
  finally show ?case by (simp add: ac_simps)
qed simp

lemma exit_mdls:
  assumes "GetVirglContextFromList p d = Some c"
  shows "mset (k_mdls d) + held res_mdls [] (ProcessNotify e p False d)
    \<subseteq># mset (k_mdls (ProcessNotify e p False d)) + held res_mdls [] d"
proof -
  have c: "context_loop p (g_VirglContextList d) = Some c" "vc_Id c = p"
    using assms contexts.search_SomeD [of p "g_VirglContextList d" c]
    by (simp_all add: GetVirglContextFromList_def GetVirglContextFromListUnsafe_def)
  let ?d = "d\<lparr>g_VirglContextList := del_first (\<lambda>x. vc_Id x = p) (g_VirglContextList d)\<rparr>"
  have "mset (k_mdls ?d) \<subseteq># mset (k_mdls (ProcessNotify e p False d)) + total res_mdls (vc_ResourceList c)"
    using destroy_mdls [of ?d e p "rev (vc_ResourceList c)"] c(2)
    by (simp add: ProcessNotify_def assms CtlDestroyVirglContext_def free_context_def Let_def)
  then have "mset (k_mdls d) \<subseteq># mset (k_mdls (ProcessNotify e p False d)) + total res_mdls (vc_ResourceList c)" by simp
  then have "mset (k_mdls d) + held res_mdls [] (ProcessNotify e p False d) \<subseteq>#
      mset (k_mdls (ProcessNotify e p False d)) + (held res_mdls [] (ProcessNotify e p False d) + total res_mdls (vc_ResourceList c))"
    by (simp add: ac_simps)
  also have "held res_mdls [] (ProcessNotify e p False d) + total res_mdls (vc_ResourceList c) = held res_mdls [] d"
    using owned_delete [OF c(1), of res_mdls] c(2)
    by (simp add: ProcessNotify_def assms CtlDestroyVirglContext_def free_context_def Let_def held_def)
  finally show ?thesis .
qed

lemma exit_gone:
  assumes "distinct (map vc_Id (g_VirglContextList d))"
  shows "GetVirglContextFromList p (ProcessNotify e p False d) = None"
  using contexts.search_SomeD [of p "g_VirglContextList d"]
  by (auto simp: ProcessNotify_def CtlDestroyVirglContext_def Let_def GetVirglContextFromList_def
      GetVirglContextFromListUnsafe_def contexts.search_delete [OF assms] split: option.split)

text \<open>C14: two threads of a process that map the same idle buffer at the same time both pass the test
  that it is not mapped and both get an address; the driver keeps only the second MDL, so the first
  and its mapping stay after the resource is closed, the context destroyed and the process gone.\<close>

theorem second_map_leaks:
  assumes "driver_inv L X [] d" and "resource_at p i d = Some res" and "mappable res"
    and "rq_mdl r \<noteq> 0" and "rq_map r = Some a" and "a \<noteq> 0"
    and "rq_mdl r' \<noteq> 0" and "rq_map r' = Some a'" and "a' \<noteq> 0" and "sh_pMdl (mb_Share (vr_Buffer res)) = 0"
  shows "\<exists>d1 d2. second_part e r (At_map s n p i) d = Some (s, n, le64 a, d1)
    \<and> second_part e r' (At_map s' n' p i) d1 = Some (s', n', le64 a', d2)
    \<and> GetVirglContextFromList p (ProcessNotify e p False d2) = None
    \<and> add_mset (rq_mdl r) (held res_mdls [] (ProcessNotify e p False d2)) \<subseteq># mset (k_mdls (ProcessNotify e p False d2))"
proof -
  define d1 where "d1 = with_context p (with_resource i (set_share (share_of r a res)))
    (d\<lparr>k_mdls := rq_mdl r # k_mdls d, k_umaps := (a, rq_mdl r) # k_umaps d\<rparr>)"
  let ?res = "set_share (share_of r a res) res"
  define d2 where "d2 = with_context p (with_resource i (set_share (share_of r' a' ?res))) 
    (d1\<lparr>k_mdls := rq_mdl r' # k_mdls d1, k_umaps := (a', rq_mdl r') # k_umaps d1\<rparr>)"
  have at1: "resource_at p i d1 = Some ?res" using share_at [OF assms(2)] by (simp add: d1_def)
  have at2: "resource_at p i d2 \<noteq> None" using share_at [OF at1] by (simp add: d2_def)
  have mdls: "res_mdls res = {#}" "res_mdls ?res = {#rq_mdl r#}" "res_mdls (set_share (share_of r' a' ?res) ?res) = {#rq_mdl r'#}"
    using assms(3,4,7,10) by (simp_all add: res_mdls_def set_share_def share_of_def mappable_def)
  have "held res_mdls [] d1 = add_mset (rq_mdl r) (held res_mdls [] d)"
    using share_held [OF assms(2), of "share_of r a res"] by (simp add: d1_def mdls)
  then have held: "held res_mdls [] d2 = add_mset (rq_mdl r') (held res_mdls [] d)"
    using share_held [OF at1, of "share_of r' a' ?res"] by (simp add: d2_def mdls)
  have mdl_list: "k_mdls d2 = rq_mdl r' # rq_mdl r # k_mdls d" by (simp add: d2_def d1_def)
  have "held res_mdls [] d \<subseteq># mset (k_mdls d)" using assms(1) by (simp add: driver_inv_def)
  then have more: "add_mset (rq_mdl r) (held res_mdls [] d2) \<subseteq># mset (k_mdls d2)"
    by (simp add: held mdl_list add_mset_commute)
  obtain c where c: "GetVirglContextFromList p d2 = Some c"
    using at2 by (auto simp: resource_at_def context_at_def GetVirglContextFromList_def GetVirglContextFromListUnsafe_def
        split: option.splits)
  let ?d3 = "ProcessNotify e p False d2"
  have "add_mset (rq_mdl r) (held res_mdls [] ?d3) + held res_mdls [] d2 \<subseteq># mset (k_mdls d2) + held res_mdls [] ?d3"
    using more by (simp add: ac_simps)
  also note exit_mdls [OF c, of e]
  finally have "add_mset (rq_mdl r) (held res_mdls [] ?d3) \<subseteq># mset (k_mdls ?d3)" by simp
  moreover have "distinct (map vc_Id (g_VirglContextList d))" using assms(1) by (simp add: driver_inv_def)
  then have "distinct (map vc_Id (g_VirglContextList d2))" by (simp add: d2_def d1_def distinct_ids_update with_resource_def)
  then have "GetVirglContextFromList p ?d3 = None" by (rule exit_gone)
  moreover have "second_part e r (At_map s n p i) d = Some (s, n, le64 a, d1)"
    unfolding d1_def by (rule map_goes_on [OF assms(2-6)])
  moreover have "second_part e r' (At_map s' n' p i) d1 = Some (s', n', le64 a', d2)"
    unfolding d2_def by (rule map_goes_on [OF at1 _ assms(7-9)]) (use assms(3) in simp)
  ultimately show ?thesis by blast
qed
text \<open>Two threads of process 7 map its first buffer.\<close>

definition map_request :: request where
  "map_request = sample_request (encode_drm_map \<lparr>dmp_offset = 0, dmp_handle = 1, dmp_pad = 0\<rparr>) 8"

definition map_again :: request where
  "map_again = map_request\<lparr>rq_mdl := 0x6000, rq_map := Some 0x8000\<rparr>"

lemma both_pass:
  "r \<in> {map_request, map_again} \<Longrightarrow>
   first_part e IOCTL_VIRTIO_VGPU_MAP r sample_driver = Inr (At_map STATUS_SUCCESS 8 7 1)"
  by (auto simp: first_part_def ioctl_code_defs ctl_code_defs CtlMap_first_def find_resource_def find_context_def
      check_buffers_def check_input_def check_buffer_def retrieved_def map_request_def map_again_def
      GetVirglContextFromListUnsafe_def GetResourceFromListUnsafe_def sample_context_def sample_blob_def
      sample_busy_def sample_resource_def sample_buffer_def Let_def)

theorem second_map_leaks_witness:
  "first_part sample_env IOCTL_VIRTIO_VGPU_MAP map_request sample_driver = Inr (At_map STATUS_SUCCESS 8 7 1)
   \<and> first_part sample_env IOCTL_VIRTIO_VGPU_MAP map_again sample_driver = Inr (At_map STATUS_SUCCESS 8 7 1)
   \<and> (\<exists>d1 d2. second_part sample_env map_request (At_map STATUS_SUCCESS 8 7 1) sample_driver = Some (STATUS_SUCCESS, 8, le64 0x7000, d1)
     \<and> second_part sample_env map_again (At_map STATUS_SUCCESS 8 7 1) d1 = Some (STATUS_SUCCESS, 8, le64 0x8000, d2)
     \<and> 0x5000 \<in> set (k_mdls (ProcessNotify sample_env 7 False d2)))"
proof -
  have "resource_at 7 1 sample_driver = Some sample_resource"
    by (simp add: resource_at_def context_at_def sample_context_def sample_blob_def sample_busy_def sample_resource_def)
  moreover have "mappable sample_resource" "sh_pMdl (mb_Share (vr_Buffer sample_resource)) = 0"
    by (simp_all add: mappable_def sample_resource_def sample_buffer_def)
  moreover have "rq_mdl map_request = 0x5000" "rq_map map_request = Some 0x7000" "rq_mdl map_again = 0x6000"
    "rq_map map_again = Some 0x8000" by (simp_all add: map_request_def map_again_def)
  ultimately have "\<exists>d1 d2. second_part sample_env map_request (At_map STATUS_SUCCESS 8 7 1) sample_driver = Some (STATUS_SUCCESS, 8, le64 0x7000, d1)
    \<and> second_part sample_env map_again (At_map STATUS_SUCCESS 8 7 1) d1 = Some (STATUS_SUCCESS, 8, le64 0x8000, d2)
    \<and> GetVirglContextFromList 7 (ProcessNotify sample_env 7 False d2) = None
    \<and> add_mset 0x5000 (held res_mdls [] (ProcessNotify sample_env 7 False d2)) \<subseteq># mset (k_mdls (ProcessNotify sample_env 7 False d2))"
    using second_map_leaks [OF sample_driver_inv, where p = 7 and i = 1 and r = map_request and r' = map_again
        and s = STATUS_SUCCESS and n = 8 and s' = STATUS_SUCCESS and n' = 8]
    by (simp del: second_part.simps)
  then have "\<exists>d1 d2. second_part sample_env map_request (At_map STATUS_SUCCESS 8 7 1) sample_driver = Some (STATUS_SUCCESS, 8, le64 0x7000, d1)
     \<and> second_part sample_env map_again (At_map STATUS_SUCCESS 8 7 1) d1 = Some (STATUS_SUCCESS, 8, le64 0x8000, d2)
     \<and> 0x5000 \<in> set (k_mdls (ProcessNotify sample_env 7 False d2))"
    by (elim exE conjE) (intro exI conjI, assumption+, drule mset_subset_eq_insertD, simp)
  then show ?thesis by (intro conjI both_pass) simp_all
qed

end
