(* ===== verification/Vgpu_Balance.thy ===== *)
theory Vgpu_Balance
  imports Vgpu_Threads Vgpu_Submissions
begin

text \<open>
  The other side of ownership: what is taken comes back.  The balance of the vgpu memory is that the
  available bytes and the bytes of the owned regions are the whole region, that of the MDLs that
  exactly those are allocated that map a resource.  Every request and callback keeps the balance, but
  for a submission that fails after its memory was allocated, which loses that memory.
\<close>

unbundle bit_operations_syntax

subsection \<open>The balance\<close>

definition bytes_of :: "region multiset \<Rightarrow> nat" where
  "bytes_of R = (\<Sum>r \<in># R. unat (snd r))"

text \<open>What there is to account for: the bytes of the vgpu memory, the buffer of its bitmap, and MDLs
  that were left over when the driver started.\<close>

record account =
  ac_bytes :: nat
  ac_bitmap :: u64
  ac_mdls :: "u64 multiset"

definition mem_balanced :: "account \<Rightarrow> region multiset \<Rightarrow> vgpu_memory \<Rightarrow> bool" where
  "mem_balanced T R m \<longleftrightarrow> unat (vm_AvailableMemorySize m) + bytes_of R = ac_bytes T
     \<and> vm_RegionBitmapBuffer m = ac_bitmap T"

text \<open>\<open>X\<close> and \<open>Ps\<close> are regions and resources outside the lists and queues, as in \<open>driver_inv\<close>.\<close>

definition balanced :: "account \<Rightarrow> region multiset \<Rightarrow> virgl_resource list \<Rightarrow> driver \<Rightarrow> bool" where
  "balanced T X Ps d \<longleftrightarrow> mem_balanced T (held res_regions Ps d + queue_regions (dr_dev d) + X) (g_Memory d)
     \<and> mset (k_mdls d) = held res_mdls Ps d + ac_mdls T"

lemma bytes_of_simps [simp]:
  "bytes_of {#} = 0" "bytes_of (add_mset r R) = unat (snd r) + bytes_of R" "bytes_of (R + S) = bytes_of R + bytes_of S"
  by (simp_all add: bytes_of_def)

lemma alloc_bytes:
  assumes "mem_inv m" and "rtl_ok rtl" and "unat sz mod 4096 = 0" and "AllocateVgpuMemory rtl sz m = (Some md, m')"
    and "mem_balanced T R m"
  shows "mem_balanced T (add_mset (md_VirtualAddress md, sz) R) m'"
proof -
  have "find_spec (FindClearBits rtl) False" using assms(2) by (simp add: rtl_ok_def)
  from alloc_SomeE [OF assms(1) this assms(4)] obtain i x where
    m': "m' = m\<lparr>vm_RegionBitmap := set_range (vm_RegionBitmap m) i (unat sz div 4096) True,
      vm_AvailableMemorySize := vm_AvailableMemorySize m - sz, vm_LastFreeIndex := x\<rparr>"
    and le: "sz \<le> vm_AvailableMemorySize m"
    and run: "0 < unat sz div 4096 \<longrightarrow> all_bits (vm_RegionBitmap m) False i (unat sz div 4096)"
    by metis
  show ?thesis
    using assms(5) le by (simp add: mem_balanced_def m' unat_sub word_le_nat_alt)
qed

lemma free_bytes:
  assumes "mem_owned R m" and "rtl_ok rtl" and "r \<in># R" and "mem_balanced T (add_mset r S) m"
  shows "mem_balanced T S (FreeVgpuMemory rtl (fst r) (snd r) m)"
proof (cases "0 < unat (snd r) div 4096")
  case True
  let ?n = "unat (snd r) div 4096" and ?i = "region_index (vm_VirtualAddress m) r" and ?bm = "vm_RegionBitmap m"
  obtain x where eq: "FreeVgpuMemory rtl (fst r) (snd r) m = m\<lparr>vm_RegionBitmap := set_range ?bm ?i ?n False,
      vm_LastFreeIndex := x, vm_AvailableMemorySize := vm_AvailableMemorySize m + snd r\<rparr>"
    using free_owned_eq [OF assms(1-3) True] by blast
  have run: "all_bits ?bm True ?i ?n" by (rule mem_owned_run [OF assms(1,3) True])
  have "unat (snd r) mod 4096 = 0" using assms(1,3) by (auto simp: mem_owned_def page_aligned_def)
  then have n: "4096 * ?n = unat (snd r)" by (rule page_multiple)
  have "mem_inv (FreeVgpuMemory rtl (fst r) (snd r) m)" "mem_inv m"
    using free_owned [OF assms(1-3)] assms(1) by (simp_all add: mem_owned_inv)
  then have "unat (vm_AvailableMemorySize m + snd r) = unat (vm_AvailableMemorySize m) + unat (snd r)"
    using count_set_range(2) [OF run] n by (simp add: mem_inv_def eq)
  then show ?thesis using assms(4) by (simp add: mem_balanced_def eq)
next
  case False
  have "unat (snd r) mod 4096 = 0" using assms(1,3) by (auto simp: mem_owned_def page_aligned_def)
  with False have "unat (snd r) = 0" by (metis add.right_neutral div_mult_mod_eq gr0I mult_is_0)
  moreover from this have z: "snd r = 0" by (simp add: unat_eq_0)
  have "\<exists>x. FreeVgpuMemory rtl (fst r) (snd r) m = m\<lparr>vm_LastFreeIndex := x\<rparr>"
    by (auto simp: FreeVgpuMemory_def RtlFindSetBitsAndClear_def z Let_def intro: exI [of _ "vm_LastFreeIndex m"])
  ultimately show ?thesis using assms(4) by (auto simp: mem_balanced_def)
qed

subsection \<open>What does not touch it\<close>

lemma balanced_cong:
  assumes "g_VirglContextList d' = g_VirglContextList d" and "queue_regions (dr_dev d') = queue_regions (dr_dev d)"
    and "g_Memory d' = g_Memory d" and "k_mdls d' = k_mdls d"
  shows "balanced T X Ps d' = balanced T X Ps d"
  using assms by (simp add: balanced_def held_def)

lemma balanced_simps [simp]:
  "balanced T X Ps (d\<lparr>k_mem := km\<rparr>) = balanced T X Ps d" "balanced T X Ps (d\<lparr>k_objects := os\<rparr>) = balanced T X Ps d"
  "balanced T X Ps (d\<lparr>k_signals := ss\<rparr>) = balanced T X Ps d" "balanced T X Ps (d\<lparr>k_iomaps := is\<rparr>) = balanced T X Ps d"
  "balanced T X Ps (d\<lparr>g_Idrs := idrs\<rparr>) = balanced T X Ps d" "balanced T X Ps (d\<lparr>k_resources_out := n\<rparr>) = balanced T X Ps d"
  "balanced T X Ps (d\<lparr>k_umaps := us\<rparr>) = balanced T X Ps d" "balanced T X Ps (d\<lparr>k_freed := fs\<rparr>) = balanced T X Ps d"
  by (rule balanced_cong, simp, simp, simp, simp)+

lemma balanced_dev:
  "queue_regions dv = queue_regions (dr_dev d) \<Longrightarrow> balanced T X Ps (d\<lparr>dr_dev := dv\<rparr>) = balanced T X Ps d"
  by (rule balanced_cong) simp_all

lemma balanced_on_dev:
  "queue_regions (f (dr_dev d)) = queue_regions (dr_dev d) \<Longrightarrow> balanced T X Ps (on_dev f d) = balanced T X Ps d"
  by (simp add: on_dev_def balanced_dev)

lemma balanced_steps [simp]:
  "balanced T X Ps (fault_at f d) = balanced T X Ps d" "balanced T X Ps (free_resource ctx i d) = balanced T X Ps d"
  "balanced T X Ps (KeSetEvent x d) = balanced T X Ps d" "balanced T X Ps (on_dev (FreeCommandBuffer b) d) = balanced T X Ps d"
  "balanced T X Ps (fresh d idrs) = balanced T X Ps d"
  by (simp_all add: fault_at_def free_resource_def KeSetEvent_def fresh_def balanced_on_dev)

lemma balanced_more [simp]:
  "balanced T X Ps (MmUnmapIoSpace a s d) = balanced T X Ps d" "balanced T X Ps (copy_command va al sz bs d) = balanced T X Ps d"
  "balanced T X Ps (MmUnmapLockedPages a m d) = balanced T X Ps d" "balanced T X Ps (free_context ctx d) = balanced T X Ps d"
  by (simp_all add: MmUnmapIoSpace_def MmUnmapLockedPages_def free_context_def copy_command_def Let_def)

lemma balanced_call [simp]: "balanced T X Ps (on_dev (run_call k c) d) = balanced T X Ps d"
  by (rule balanced_cong) (simp_all add: gpu.run_regions)

lemmas balanced_calls [simp] =
  balanced_call [of _ _ _ _ "Call_CreateVirglContext x y" for x y, simplified]
  balanced_call [of _ _ _ _ "Call_DestroyVirglContext x" for x, simplified]
  balanced_call [of _ _ _ _ "Call_TransferHost3D x y z w" for x y z w, simplified]
  balanced_call [of _ _ _ _ "Call_Create3DResource x y z w" for x y z w, simplified]
  balanced_call [of _ _ _ _ "Call_CreateBlobResource x y z w" for x y z w, simplified]
  balanced_call [of _ _ _ _ "Call_MapBlobResource x y z" for x y z, simplified]
  balanced_call [of _ _ _ _ "Call_UnMapBlobResource x y z" for x y z, simplified]
  balanced_call [of _ _ _ _ "Call_AttachResourceBacking x y" for x y, simplified]
  balanced_call [of _ _ _ _ "Call_DetachResourceBacking x" for x, simplified]
  balanced_call [of _ _ _ _ "Call_UnrefResource x y" for x y, simplified]

lemma held_update:
  assumes "\<And>c. map (\<lambda>r. (res_regions r, res_mdls r)) (vc_ResourceList (f c)) = map (\<lambda>r. (res_regions r, res_mdls r)) (vc_ResourceList c)"
  shows "held res_regions Ps (with_context i f d) = held res_regions Ps d"
    and "held res_mdls Ps (with_context i f d) = held res_mdls Ps d"
proof -
  have "total res_regions (vc_ResourceList (f c)) = total res_regions (vc_ResourceList c)"
    "total res_mdls (vc_ResourceList (f c)) = total res_mdls (vc_ResourceList c)" for c
    using arg_cong [OF assms [of c], of "map fst"] arg_cong [OF assms [of c], of "map snd"]
    by (simp_all add: total_def comp_def)
  then show "held res_regions Ps (with_context i f d) = held res_regions Ps d"
    "held res_mdls Ps (with_context i f d) = held res_mdls Ps d"
    by (simp_all add: held_def owned_same)
qed

lemma balanced_busy [simp]:
  "balanced T X Ps (with_context i (UpdateResourceState is b f) d) = balanced T X Ps d"
  by (simp add: balanced_def held_update map_UpdateResourceState)

subsection \<open>Ownership moves\<close>

text \<open>\<open>settled\<close>: the invariant and the balance.\<close>

definition settled :: "account \<Rightarrow> region multiset \<Rightarrow> virgl_resource list \<Rightarrow> driver \<Rightarrow> bool" where
  "settled T X Ps d \<longleftrightarrow> (\<exists>L. driver_inv L X Ps d) \<and> balanced T X Ps d"

lemma settledI: "kept k L X Ps d \<Longrightarrow> balanced T X Ps d \<Longrightarrow> settled T X Ps d"
  by (auto simp: settled_def kept_def)

lemma settled_step:
  assumes "settled T X Ps d" and "\<And>L. driver_inv L X Ps d \<Longrightarrow> driver_inv L X' Ps' d'"
    and "\<And>L. driver_inv L X Ps d \<Longrightarrow> balanced T X Ps d \<Longrightarrow> balanced T X' Ps' d'"
  shows "settled T X' Ps' d'"
  using assms by (auto simp: settled_def)

lemma settled_kept:
  assumes "settled T X Ps d" and "\<And>L. kept k L X Ps d \<Longrightarrow> kept k L X' Ps' d'" and "balanced T X' Ps' d'"
  shows "settled T X' Ps' d'"
  using assms keptI settledI unfolding settled_def by blast

lemma settled_call:
  assumes "settled T X Ps d" and "pool_ok k" and "call_allowed d Ps c"
  shows "settled T X Ps (on_dev (run_call k c) d)"
  by (rule settled_kept [OF assms(1)], rule kept_call [OF _ assms(2,3)], assumption)
    (use assms(1) in \<open>simp add: settled_def\<close>)

lemmas settled_calls =
  settled_call [of _ _ _ _ _ "Call_CreateVirglContext x y" for x y, simplified call_allowed_def run_call.simps gpu_call.distinct simp_thms True_implies_equals]
  settled_call [of _ _ _ _ _ "Call_DestroyVirglContext x" for x, simplified call_allowed_def run_call.simps gpu_call.distinct simp_thms True_implies_equals]
  settled_call [of _ _ _ _ _ "Call_UnMapBlobResource x y z" for x y z, simplified call_allowed_def run_call.simps gpu_call.distinct simp_thms True_implies_equals]
  settled_call [of _ _ _ _ _ "Call_DetachResourceBacking x" for x, simplified call_allowed_def run_call.simps gpu_call.distinct simp_thms True_implies_equals]
  settled_call [of _ _ _ _ _ "Call_UnrefResource x y" for x y, simplified call_allowed_def run_call.simps gpu_call.distinct simp_thms True_implies_equals]

lemma balanced_pending:
  assumes "balanced T X (r # Ps) d" and "res_mdls r' = res_mdls r" and "res_regions r' + X' = res_regions r + X"
  shows "balanced T X' (r' # Ps) d"
proof -
  have "held res_regions (r # Ps) d + queue_regions (dr_dev d) + X
      = held res_regions Ps d + queue_regions (dr_dev d) + (res_regions r + X)"
    by (simp add: ac_simps)
  also have "\<dots> = held res_regions (r' # Ps) d + queue_regions (dr_dev d) + X'"
    by (simp only: assms(3) [symmetric]) (simp add: ac_simps)
  finally have "mem_balanced T (held res_regions (r' # Ps) d + queue_regions (dr_dev d) + X') (g_Memory d)"
    using assms(1) by (simp only: balanced_def)
  with assms(1,2) show ?thesis by (simp add: balanced_def)
qed

lemma settled_pending:
  assumes "settled T X (r # Ps) d" and "res_ids r' = res_ids r" and "res_mdls r' = res_mdls r"
    and "res_regions r' + X' = res_regions r + X" and "share_ok r'" and "plain_ids r' = plain_ids r"
  shows "settled T X' (r' # Ps) d"
  by (rule settled_step [OF assms(1)]) (simp_all add: inv_pending [OF _ assms(2-6)] balanced_pending [OF _ assms(3,4)])

lemma balanced_drop:
  "res_regions r = {#} \<Longrightarrow> res_mdls r = {#} \<Longrightarrow> balanced T X (r # Ps) d = balanced T X Ps d"
  by (simp add: balanced_def)

lemma balanced_free_mdl:
  assumes "driver_inv L X (r # Ps) d" and "balanced T X (r # Ps) d" and "res_mdls r = {#m#}"
    and "res_mdls r' = {#}" and "res_regions r' = res_regions r"
  shows "balanced T X (r' # Ps) (IoFreeMdl m d)"
proof -
  have eq: "mset (k_mdls d) = add_mset m (held res_mdls Ps d + ac_mdls T)"
    using assms(2,3) by (simp add: balanced_def)
  then have "m \<in> set (k_mdls d)" by (metis set_mset_mset union_single_eq_member)
  then have "IoFreeMdl m d = d\<lparr>k_mdls := remove1 m (k_mdls d)\<rparr>" by (simp add: IoFreeMdl_def)
  with assms eq show ?thesis by (simp add: balanced_def)
qed

lemma balanced_unshare:
  assumes inv: "driver_inv L X (r # Ps) d" and bal: "balanced T X (r # Ps) d" and "vr_bForBuffer r"
  shows "balanced T X (unshared r # Ps)
    (if sh_pMdl (mb_Share (vr_Buffer r)) \<noteq> 0 then DeleteUserShareMemory (mb_Share (vr_Buffer r)) d else d)"
proof (cases "sh_pMdl (mb_Share (vr_Buffer r)) = 0")
  case True
  then have "res_mdls r = {#}" by (simp add: res_mdls_def)
  with True balanced_pending [OF bal, of "unshared r" X] show ?thesis by simp
next
  case False
  have "share_ok r" using inv by (simp add: driver_inv_def)
  with False assms(3) have "sh_UserAdderss (mb_Share (vr_Buffer r)) \<noteq> 0" by (simp add: share_ok_def)
  moreover have "res_mdls r = {#sh_pMdl (mb_Share (vr_Buffer r))#}"
    using False assms(3) by (simp add: res_mdls_def)
  from balanced_free_mdl [where T = T and r' = "unshared r", OF inv_unmap_user [OF inv,
      of "sh_UserAdderss (mb_Share (vr_Buffer r))" "sh_pMdl (mb_Share (vr_Buffer r))"] _ this] bal
  have "balanced T X (unshared r # Ps) (IoFreeMdl (sh_pMdl (mb_Share (vr_Buffer r)))
      (MmUnmapLockedPages (sh_UserAdderss (mb_Share (vr_Buffer r))) (sh_pMdl (mb_Share (vr_Buffer r))) d))" by simp
  ultimately show ?thesis using False by (simp add: DeleteUserShareMemory_def)
qed

lemma settled_unshare:
  assumes "settled T X (r # Ps) d" and "vr_bForBuffer r"
  shows "settled T X (unshared r # Ps)
    (if sh_pMdl (mb_Share (vr_Buffer r)) \<noteq> 0 then DeleteUserShareMemory (mb_Share (vr_Buffer r)) d else d)"
  by (rule settled_step [OF assms(1)]) (rule inv_unshare [OF _ assms(2)], assumption, rule balanced_unshare [OF _ _ assms(2)], assumption+)

lemma balanced_free_region:
  assumes "driver_inv L (add_mset (va, sz) X) Ps d" and "rtl_ok rtl" and "balanced T (add_mset (va, sz) X) Ps d"
  shows "balanced T X Ps (d\<lparr>g_Memory := FreeVgpuMemory rtl va sz (g_Memory d)\<rparr>)"
proof -
  have "mem_owned (add_mset (va, sz) (held res_regions Ps d + queue_regions (dr_dev d) + X)) (g_Memory d)"
    using assms(1) by (simp add: driver_inv_def)
  from free_bytes [OF this assms(2), of "(va, sz)"] assms(3) show ?thesis by (simp add: balanced_def)
qed

lemma settled_free_region:
  "settled T (add_mset (va, sz) X) Ps d \<Longrightarrow> rtl_ok rtl \<Longrightarrow> settled T X Ps (d\<lparr>g_Memory := FreeVgpuMemory rtl va sz (g_Memory d)\<rparr>)"
  by (rule settled_step, assumption) (rule inv_free_region, assumption+, rule balanced_free_region, assumption+)

lemma balanced_alloc_region:
  assumes "mem_inv (g_Memory d)" and "balanced T X Ps d" and "rtl_ok rtl" and "unat sz mod 4096 = 0"
    and "AllocateVgpuMemory rtl sz (g_Memory d) = (Some md, m)"
  shows "balanced T (add_mset (md_VirtualAddress md, sz) X) Ps (d\<lparr>g_Memory := m\<rparr>)"
  using alloc_bytes [OF assms(1,3-5)] assms(2) by (simp add: balanced_def)

lemma balanced_alloc_failed:
  "balanced T X Ps d \<Longrightarrow> AllocateVgpuMemory rtl sz (g_Memory d) = (None, m) \<Longrightarrow> balanced T X Ps (d\<lparr>g_Memory := m\<rparr>)"
  using alloc_None_same [of rtl sz "g_Memory d"] by simp

lemma balanced_insert:
  assumes "context_loop i (g_VirglContextList d) = Some c"
  shows "balanced T X Ps (with_context i (insert_resource r) d) = balanced T X (r # Ps) d"
proof -
  have h: "held g Ps (with_context i (insert_resource r) d) = held g (r # Ps) d"
    for g :: "virgl_resource \<Rightarrow> 'x multiset"
    by (simp add: held_def owned_insert [OF assms] ac_simps)
  show ?thesis by (simp add: balanced_def h del: held_list)
qed

lemma balanced_remove:
  assumes "balanced T X Ps d" and "context_loop i (g_VirglContextList d) = Some c"
    and "resource_loop h (vc_ResourceList c) = Some r"
  shows "balanced T X (r # Ps) (with_context i (remove_resource h) d)"
proof -
  have h: "held g (r # Ps) (with_context i (remove_resource h) d) = held g Ps d"
    for g :: "virgl_resource \<Rightarrow> 'x multiset"
    using owned_remove [OF assms(2,3), of g] by (simp add: held_def remove_resource_def [abs_def] ac_simps)
  show ?thesis using assms(1) by (simp add: balanced_def h del: held_list)
qed

lemma balanced_change:
  assumes "balanced T X Ps d" and c: "context_loop i (g_VirglContextList d) = Some c"
    and r: "resource_loop h (vc_ResourceList c) = Some r"
    and f: "res_regions (f r) = res_regions r" "res_mdls (f r) = res_mdls r + mset ms"
  shows "balanced T X Ps (with_context i (with_resource h f) (d\<lparr>k_mdls := ms @ k_mdls d\<rparr>))"
proof -
  let ?d = "with_context i (with_resource h f) (d\<lparr>k_mdls := ms @ k_mdls d\<rparr>)"
  have t: "held g Ps ?d + g r = held g Ps d + g (f r)" for g :: "virgl_resource \<Rightarrow> 'x multiset"
    using owned_change [OF c r, of g f] by (simp add: held_def with_context_def ac_simps)
  have "held res_regions Ps ?d = held res_regions Ps d" using t [of res_regions] f(1) by simp
  moreover have "held res_mdls Ps ?d + res_mdls r = (held res_mdls Ps d + mset ms) + res_mdls r"
    using t [of res_mdls] f(2) by (simp add: ac_simps)
  then have "held res_mdls Ps ?d = held res_mdls Ps d + mset ms" by simp
  ultimately show ?thesis using assms(1) by (simp add: balanced_def)
qed

subsection \<open>Deleting gives back\<close>

lemma settled_delete:
  assumes "settled T X (r # Ps) d" and "env_ok e"
  shows "settled T X Ps (free_resource ctx (vr_Id r) (DeleteResource e ctx r d))"
proof -
  let ?k = "en_kernel e" and ?buf = "vr_Buffer r"
  let ?da = "if sh_pMdl (mb_Share ?buf) \<noteq> 0 then DeleteUserShareMemory (mb_Share ?buf) d else d"
  have po: "pool_ok ?k" and ro: "rtl_ok (en_rtl e)" using assms(2) by (simp_all add: env_ok_def)
  have finish: "settled T X Ps (free_resource ctx (vr_Id r) (on_dev (UnrefResource ?k ctx (vr_Id r)) d1))"
    if "settled T X (r' # Ps) d1" "res_regions r' = {#}" "res_mdls r' = {#}" for r' d1
    by (rule settled_step [OF settled_calls(5) [OF that(1) po, of ctx "vr_Id r"]], rule inv_free_resource)
      (use that(2,3) in \<open>simp_all add: balanced_drop\<close>)
  consider "\<not> vr_bForBuffer r" | "vr_bForBuffer r" "vr_bForBlob r" | "vr_bForBuffer r" "\<not> vr_bForBlob r" by blast
  then show ?thesis
  proof cases
    case 1
    from finish [OF assms(1)] 1 show ?thesis
      by (simp add: DeleteResource_def Let_def res_regions_def res_mdls_def)
  next
    case 2
    have "settled T X (unshared r # Ps) (on_dev (UnMapBlobResource ?k ctx (vr_Id r) 0) ?da)"
      by (rule settled_calls(3) [OF settled_unshare [OF assms(1) 2(1)] po])
    then have "settled T X (unshared r # Ps) (MmUnmapIoSpace (md_VirtualAddress (mb_Memory ?buf)) (mb_Size ?buf)
        (on_dev (UnMapBlobResource ?k ctx (vr_Id r) 0) ?da))"
      by (rule settled_step) (rule inv_unmap_io, assumption, simp)
    moreover have "res_regions r = {#}" using 2 by (simp add: res_regions_def)
    ultimately show ?thesis using finish [of "unshared r"] 2 by (simp add: DeleteResource_def Let_def del: if_split)
  next
    case 3
    let ?db = "on_dev (DetachResourceBacking ?k r) ?da"
    let ?x = "(md_VirtualAddress (mb_Memory ?buf), mb_Size ?buf)"
    have regions: "res_regions r = {#?x#}" using 3 by (simp add: res_regions_def)
    have "settled T X (unshared r # Ps) ?db"
      by (rule settled_calls(4) [OF settled_unshare [OF assms(1) 3(1)] po])
    then have "settled T (add_mset ?x X) (released r # Ps) ?db"
      by (rule settled_pending) (simp_all add: regions)
    from finish [OF settled_free_region [OF this ro]] 3 show ?thesis
      by (simp add: DeleteResource_def Let_def del: if_split)
  qed
qed

lemma settled_destroy_loop:
  "settled T X (rs @ Ps) d \<Longrightarrow> env_ok e \<Longrightarrow> settled T X Ps (destroy_loop e ctx rs d)"
  by (induction rs arbitrary: d) (simp_all add: settled_delete)

lemma settled_free_context: "settled T X Ps d \<Longrightarrow> settled T X Ps (free_context ctx d)"
  by (erule settled_step) simp_all

lemma settled_destroy_context:
  assumes "settled T X Ps d" and "env_ok e" and "context_loop i (g_VirglContextList d) = Some c"
  shows "settled T X Ps (snd (CtlDestroyVirglContext e c d))"
proof -
  have i: "vc_Id c = i" using contexts.search_SomeD [OF assms(3)] by simp
  have "settled T X (rev (vc_ResourceList c) @ Ps)
      (d\<lparr>g_VirglContextList := del_first (\<lambda>x. vc_Id x = i) (g_VirglContextList d)\<rparr>)"
    by (rule settled_step [OF assms(1)], rule inv_remove_context [OF _ assms(3)], assumption)
      (simp add: balanced_def held_remove_context [OF assms(3)] del: held_list)
  from settled_calls(2) [OF settled_destroy_loop [OF this assms(2)]] assms(2) show ?thesis
    by (simp add: CtlDestroyVirglContext_def settled_free_context i env_ok_def Let_def)
qed

subsection \<open>Handlers keep the balance\<close>

lemma reply_settled:
  assumes "settled T X Ps d" and "\<And>L. kept k L X Ps d \<Longrightarrow> reply_all (kept k L X Ps) R"
    and "\<And>L. driver_inv L X Ps d \<Longrightarrow> balanced T X Ps d \<Longrightarrow> reply_all (balanced T X Ps) R"
  shows "reply_all (settled T X Ps) R"
proof -
  obtain L where inv: "driver_inv L X Ps d" and "balanced T X Ps d" using assms(1) by (auto simp: settled_def)
  then have "reply_all (kept k L X Ps) R" "reply_all (balanced T X Ps) R"
    using assms(2) [OF keptI [OF inv]] assms(3) by blast+
  then show ?thesis by (auto simp: reply_all_def settledI split: option.splits)
qed

lemma InitVirglContext_settled:
  assumes "settled T X Ps d" and "env_ok e"
  shows "reply_all (settled T X Ps) (CtlInitVirglContext e r n d)"
proof (rule reply_settled [OF assms(1)], rule InitVirglContext_kept [OF _ assms(2)], assumption)
  assume "balanced T X Ps d"
  moreover have "balanced T X Ps (d\<lparr>g_VirglContextList := \<lparr>vc_Id = i, vc_ResourceList = []\<rparr> # g_VirglContextList d\<rparr>)
      = balanced T X Ps d" for i
    by (simp add: balanced_def held_def owned_total_def)
  ultimately show "reply_all (balanced T X Ps) (CtlInitVirglContext e r n d)"
    by (simp add: CtlInitVirglContext_def init_context_insert_def Let_def split: sum.split prod.split)
qed

lemma Destroy_settled:
  assumes "settled T X Ps d" and "env_ok e"
  shows "reply_all (settled T X Ps) (case GetVirglContextFromList i d of
      None \<Rightarrow> Some (s, n, out, d)
    | Some c \<Rightarrow> let (status, d') = CtlDestroyVirglContext e c d in Some (status, n, out, d'))"
  using assms settled_destroy_context [OF assms]
  by (simp add: GetVirglContextFromList_def GetVirglContextFromListUnsafe_def case_prod_beta split: option.split)

lemma Wait_settled: "settled T X Ps d \<Longrightarrow> reply_all (settled T X Ps) (CtlWait e r d)"
  unfolding CtlWait_unfold
  by (intro reply_frame) (simp_all add: Let_def split: option.splits)

lemma TransferHost_settled:
  assumes "settled T X Ps d" and "env_ok e"
  shows "reply_all (settled T X Ps) (CtlTransferHost e ToHost r d)"
proof (rule reply_settled [OF assms(1)], rule TransferHost_kept [OF _ assms(2)], assumption)
  assume "balanced T X Ps d"
  then show "reply_all (balanced T X Ps) (CtlTransferHost e ToHost r d)"
    unfolding CtlTransferHost_unfold
    by (intro reply_frame) (simp_all add: Let_def del: UpdateResourceState.simps split: option.split)
qed

lemma CloseResource_settled:
  assumes "settled T X Ps d" and "env_ok e"
  shows "reply_all (settled T X Ps) (CtlCloseResource e r d)"
  unfolding CtlCloseResource_unfold
proof (intro reply_frame, rule assms(1), rule assms(1), goal_cases)
  case (1 status n c)
  let ?h = "dcl_handle (decode_drm_gem_close (rq_in r))"
  show ?case
  proof (cases "resource_loop ?h (vc_ResourceList c)")
    case None
    then show ?thesis using assms(1) by (simp add: GetResourceFromList_def GetResourceFromListUnsafe_def)
  next
    case (Some res)
    have ctx: "context_loop (vc_Id c) (g_VirglContextList d) = Some c" using 1 by simp
    have "settled T X (res # Ps) (with_context (vc_Id c) (remove_resource ?h) d)"
      by (rule settled_step [OF assms(1)]) (rule inv_remove [OF _ ctx Some] balanced_remove [OF _ ctx Some], assumption)+
    from settled_delete [OF this assms(2), of "vc_Id c"] Some resources.search_SomeD [OF Some]
    show ?thesis
      by (simp add: GetResourceFromList_def GetResourceFromListUnsafe_def remove_resource_def [abs_def] Let_def)
  qed
qed

lemma Map_balanced:
  assumes "balanced T X Ps d"
  shows "reply_all (balanced T X Ps) (CtlMap e r d)"
  unfolding CtlMap_unfold
proof (intro reply_frame, rule assms(1), rule assms(1), rule assms(1), goal_cases)
  case (1 _ _ status n c)
  let ?h = "dmp_handle (decode_drm_map (rq_in r))"
  note lookup = GetResourceFromList_def GetResourceFromListUnsafe_def
  have ctx: "context_loop (vc_Id c) (g_VirglContextList d) = Some c" using 1 by simp
  show ?case
  proof (cases "resource_loop ?h (vc_ResourceList c)")
    case None
    then show ?thesis using assms(1) by (simp add: lookup)
  next
    case (Some res)
    let ?sh = "(mb_Share (vr_Buffer res))\<lparr>sh_KernelAddress := md_VirtualAddress (mb_Memory (vr_Buffer res)),
                                sh_Size := mb_Size (vr_Buffer res)\<rparr>"
    obtain ok sh' d' where s: "CreateUserShareMemory r ?sh d = (ok, sh', d')"
      by (cases "CreateUserShareMemory r ?sh d")
    have h: "vr_Id res = ?h" using resources.search_SomeD [OF Some] by simp
    have k: "balanced T X Ps (with_context (vc_Id c) (with_resource ?h (set_share (if ok then sh' else sh'\<lparr>sh_pMdl := 0\<rparr>))) d')"
      if b: "vr_bForBuffer res" "sh_pMdl (mb_Share (vr_Buffer res)) = 0"
      using balanced_change [OF assms ctx Some, of "set_share sh'" "[rq_mdl r]"]
        balanced_change [OF assms ctx Some, of "set_share (sh'\<lparr>sh_pMdl := 0\<rparr>)" "[]"]
        b CreateUserShareMemory_result [OF s] res_mdls_none [OF b(2)]
      by (cases ok) (simp_all add: share_simps)
    show ?thesis
      using assms k Some s h by (auto simp: lookup Let_def KeWait_def split: if_splits)
  qed
qed

lemma GetCapsInfo_regions:
  assumes "driver_inv L X Ps d" and "env_ok e" and "GetCapsInfo (en_kernel e) (dr_dev d) = Some dv"
  shows "queue_regions dv = queue_regions (dr_dev d)"
proof -
  have "device_acct L (dr_dev d)" "pool_ok (en_kernel e)" using assms(1,2) by (simp_all add: driver_inv_def env_ok_def)
  from caps_info_loop_result [OF this caps_indices [OF assms(1)] assms(3) [unfolded GetCapsInfo_def]]
  show ?thesis by (intro queue_regions_mset) simp
qed

lemma GetParams_balanced:
  assumes "driver_inv L X Ps d" and "balanced T X Ps d" and "env_ok e"
  shows "reply_all (balanced T X Ps) (CtlGetParams e r d)"
proof -
  have "balanced T X Ps (d\<lparr>dr_dev := dv\<lparr>g_Capsets := c\<rparr>\<rparr>)" if "GetCapsInfo (en_kernel e) (dr_dev d) = Some dv" for dv c
  proof -
    have "queue_regions (dv\<lparr>g_Capsets := c\<rparr>) = queue_regions dv" by (rule queue_regions_mset) simp
    with GetCapsInfo_regions [OF assms(1,3) that] assms(2) show ?thesis by (simp add: balanced_dev)
  qed
  with assms(2) show ?thesis
    unfolding CtlGetParams_def by (intro reply_option reply_frame) (auto simp: Let_def split: if_splits)
qed

lemma GetCaps_balanced:
  assumes "driver_inv L X Ps d" and "balanced T X Ps d" and "env_ok e"
  shows "reply_all (balanced T X Ps) (CtlGetCaps e r d)"
proof -
  have "reply_all (balanced T X Ps) (case GetCaps (en_kernel e) index v (dr_dev d) of
      None \<Rightarrow> None | Some (bytes, dv) \<Rightarrow> Some (STATUS_SUCCESS, n, bytes, d\<lparr>dr_dev := dv\<rparr>))"
    if "find_caps (take m (cps_Data (g_Capsets (dr_dev d)))) i v 0 = Some index" for index v n i m
  proof -
    have a: "device_acct L (dr_dev d)" "cs_max_size (cps_Data (g_Capsets (dr_dev d)) ! index) \<le> 12264"
      using assms(1) find_caps_bound [OF that] by (auto simp: driver_inv_def caps_inv_def)
    have "pool_ok (en_kernel e)" using assms(3) by (simp add: env_ok_def)
    note r = GetCaps_result [OF a(1) this _ a(2)]
    show ?thesis
    proof (cases "GetCaps (en_kernel e) index v (dr_dev d)")
      case (Some x)
      with r [of v] assms(2) show ?thesis by (cases x) (simp add: balanced_dev)
    qed simp
  qed
  then show ?thesis
    using assms(2) unfolding CtlGetCaps_def Let_def
    by (intro reply_frame) (auto split: option.splits intro: reply_frame)
qed

lemma balanced_take:
  "res_regions r = {#x#} \<Longrightarrow> res_mdls r = {#} \<Longrightarrow> balanced T X (r # Ps) d = balanced T (add_mset x X) Ps d"
  by (simp add: balanced_def)

lemma CreateBlobResource_balanced:
  assumes "balanced T X Ps d"
  shows "reply_all (balanced T X Ps) (CtlCreateBlobResource e r d)"
  unfolding CtlCreateBlobResource_unfold
proof (intro reply_frame, rule assms(1), rule assms(1), rule assms(1), goal_cases)
  case (1 _ _ status n c)
  then have ctx: "context_loop (vc_Id c) (g_VirglContextList d) = Some c" by simp
  show ?case
    using assms by (simp add: Let_def balanced_insert [of _ _ c] ctx balanced_drop res_regions_def res_mdls_def
        split: option.split prod.split)
qed

lemma CreateResource_balanced:
  assumes "mem_inv (g_Memory d)" and "balanced T X Ps d" and "env_ok e"
  shows "reply_all (balanced T X Ps) (CtlCreateResource e r d)"
  unfolding CtlCreateResource_unfold
proof (intro reply_frame, rule assms(2), rule assms(2), rule assms(2), goal_cases)
  case (1 _ _ status n c)
  then have ctx: "context_loop (vc_Id c) (g_VirglContextList d) = Some c" by simp
  have ro: "rtl_ok (en_rtl e)" using assms(3) by (simp add: env_ok_def)
  have none: "balanced T X Ps (d'\<lparr>g_Memory := m\<rparr>)"
    if "AllocateVgpuMemory (en_rtl e) sz (g_Memory d) = (None, m)" "g_Memory d' = g_Memory d" "balanced T X Ps d'" for d' sz m
    using balanced_alloc_failed [OF that(3)] that(1,2) by metis
  have some: "balanced T (add_mset (md_VirtualAddress md, sz) X) Ps (d'\<lparr>g_Memory := m\<rparr>)"
    if "AllocateVgpuMemory (en_rtl e) sz (g_Memory d) = (Some md, m)" "g_Memory d' = g_Memory d" "balanced T X Ps d'"
      "unat sz mod 4096 = 0" for d' sz m md
    using balanced_alloc_region [OF _ that(3) ro that(4)] assms(1) that(1,2) by metis
  show ?case
    using assms(2)
    by (auto simp: Let_def balanced_insert [of _ _ c] ctx balanced_drop balanced_take res_regions_def res_mdls_def
        round_up_page split: option.split prod.split intro: none some)
qed

subsection \<open>A submission\<close>

lemma settled_scratch [simp]:
  "settled T X Ps (d\<lparr>k_objects := os\<rparr>) = settled T X Ps d" "settled T X Ps (d\<lparr>k_mem := m\<rparr>) = settled T X Ps d"
  by (simp_all add: settled_def)

lemma settled_copy: "settled T X Ps d \<Longrightarrow> settled T X Ps (copy_command va n sz bs d)"
  by (rule settled_kept, assumption) (rule copy_kept, assumption, simp add: settled_def)

lemma settled_fence_id:
  assumes "settled T X Ps d" and "(f, idrs) = (if b then GetIdFromIdrWithoutCache (g_Idrs d) FENCE_ID_TYPE 8 else (0, g_Idrs d))"
  shows "settled T X Ps (d\<lparr>g_Idrs := idrs\<rparr>)"
  by (rule settled_kept [OF assms(1)], rule fence_id_kept [OF _ assms(2)], assumption)
    (use assms(1) in \<open>simp add: settled_def\<close>)

lemma settled_alloc:
  assumes "settled T X Ps d" and "rtl_ok rtl" and "unat sz mod 4096 = 0"
    and "AllocateVgpuMemory rtl sz (g_Memory d) = (Some md, m)"
  shows "settled T (add_mset (md_VirtualAddress md, sz) X) Ps (d\<lparr>g_Memory := m\<rparr>)"
  by (rule settled_step [OF assms(1)], rule inv_alloc_region [OF _ assms(2-4)], assumption)
    (rule balanced_alloc_region [OF _ _ assms(2-4)], auto simp: driver_inv_def dest: mem_owned_inv)

lemma settled_fences:
  assumes "settled T X Ps d"
  shows "case submit_in_fence r cmd d of Inl None \<Rightarrow> True | Inl (Some (status, d')) \<Rightarrow> settled T X Ps d' | Inr d' \<Rightarrow> settled T X Ps d'"
    and "case submit_out_fence r cmd d of Inl (status, d') \<Rightarrow> settled T X Ps d' | Inr (f, d') \<Rightarrow> settled T X Ps d'"
  using assms by (auto simp: submit_in_fence_def submit_out_fence_def KeWait_def split: prod.splits)

lemma settled_handles:
  assumes "settled T X Ps d"
  shows "case submit_handles r cmd i f d of Inl (status, d') \<Rightarrow> \<not> NT_SUCCESS status \<and> settled T X Ps d'
    | Inr (hs, d') \<Rightarrow> settled T X Ps d'"
proof -
  have "settled T X Ps (with_context i (UpdateResourceState hs True f) d)" for hs
    by (rule settled_step [OF assms]) (rule inv_busy, assumption, simp)
  with assms show ?thesis
    by (auto simp: submit_handles_def Let_def NT_SUCCESS_codes split: prod.splits option.splits)
qed

lemma settled_submit:
  assumes "settled T (add_mset (md_VirtualAddress m, bufsz) X) Ps d" and "pool_ok k"
    and "SubmitCommand k ctx m bufsz sz hs n f obj (dr_dev d) = (status, dv)"
  shows "settled T (if NT_SUCCESS status then X else add_mset (md_VirtualAddress m, bufsz) X) Ps (d\<lparr>dr_dev := dv\<rparr>)"
proof (rule settled_kept [OF assms(1)], rule submit_region_kept [OF _ assms(2,3)], assumption)
  obtain L where "device_acct L (dr_dev d)" using assms(1) by (auto simp: settled_def driver_inv_def)
  from SubmitCommand_result(2) [OF this assms(2,3)] assms(1)
  show "balanced T (if NT_SUCCESS status then X else add_mset (md_VirtualAddress m, bufsz) X) Ps (d\<lparr>dr_dev := dv\<rparr>)"
    by (simp add: settled_def balanced_def)
qed

text \<open>The balance after a submission: a failed one may have left the region of its stream behind.\<close>

definition stream_size :: "request \<Rightarrow> u64" where
  "stream_size r = ucast (ROUND_UP (deb_size (decode_drm_execbuffer (rq_in r))) PAGE_SIZE)"

definition submit_outcome :: "account \<Rightarrow> region multiset \<Rightarrow> virgl_resource list \<Rightarrow> u64 \<Rightarrow> reply option \<Rightarrow> bool" where
  "submit_outcome T X Ps sz R \<longleftrightarrow> (case R of None \<Rightarrow> True
     | Some (status, n, out, d) \<Rightarrow> settled T X Ps d
         \<or> \<not> NT_SUCCESS status \<and> (\<exists>va. settled T (add_mset (va, sz) X) Ps d))"

lemma outcome_simps [simp]:
  "submit_outcome T X Ps sz None"
  "submit_outcome T X Ps sz (Some (status, n, out, d)) \<longleftrightarrow> settled T X Ps d
     \<or> \<not> NT_SUCCESS status \<and> (\<exists>va. settled T (add_mset (va, sz) X) Ps d)"
  by (simp_all add: submit_outcome_def)

lemma outcome_settled: "reply_all (settled T X Ps) R \<Longrightarrow> submit_outcome T X Ps sz R"
  by (auto simp: reply_all_def submit_outcome_def split: option.splits)

lemma SubmitCommand_tail_outcome:
  assumes "settled T X Ps d" and "env_ok e" and "unat sz mod 4096 = 0"
  shows "submit_outcome T X Ps sz
     (case AllocateVgpuMemory (en_rtl e) sz (g_Memory d) of
        (None, m) \<Rightarrow> Some (STATUS_UNSUCCESSFUL, bytes, rq_out r, d\<lparr>g_Memory := m\<rparr>)
      | (Some md, m) \<Rightarrow>
          (let d = d\<lparr>g_Memory := m\<rparr>;
               d = copy_command (md_VirtualAddress md) sz (deb_size cmd) bs d;
               (f, idrs) = (if obj \<noteq> 0 then GetIdFromIdrWithoutCache (g_Idrs d) FENCE_ID_TYPE 8 else (0, g_Idrs d));
               d = d\<lparr>g_Idrs := idrs\<rparr>
           in case submit_handles r cmd ctx f d of
                Inl (status, d) \<Rightarrow> Some (status, bytes, rq_out r, d)
              | Inr (hs, d) \<Rightarrow>
                  let (status, dv) = SubmitCommand (en_kernel e) ctx md sz (ucast (deb_size cmd)) hs
                     (ucast (deb_num_bo_handles cmd)) f obj (dr_dev d)
                  in Some (status, bytes, rq_out r, d\<lparr>dr_dev := dv\<rparr>)))"
proof (cases "AllocateVgpuMemory (en_rtl e) sz (g_Memory d)")
  case (Pair a m)
  have po: "pool_ok (en_kernel e)" and ro: "rtl_ok (en_rtl e)" using assms(2) by (simp_all add: env_ok_def)
  show ?thesis
  proof (cases a)
    case None
    with Pair have p: "AllocateVgpuMemory (en_rtl e) sz (g_Memory d) = (None, m)" by simp
    have "settled T X Ps (d\<lparr>g_Memory := m\<rparr>)"
      by (rule settled_step [OF assms(1)]) (rule inv_alloc_failed [OF _ p] balanced_alloc_failed [OF _ p], assumption)+
    with Pair None show ?thesis by simp
  next
    case (Some md)
    let ?X = "add_mset (md_VirtualAddress md, sz) X"
    let ?d2 = "copy_command (md_VirtualAddress md) sz (deb_size cmd) bs (d\<lparr>g_Memory := m\<rparr>)"
    obtain f idrs where f: "(f, idrs) = (if obj \<noteq> 0 then GetIdFromIdrWithoutCache (g_Idrs ?d2) FENCE_ID_TYPE 8
        else (0, g_Idrs ?d2))" by (metis surj_pair)
    have "settled T ?X Ps (d\<lparr>g_Memory := m\<rparr>)" by (rule settled_alloc [OF assms(1) ro assms(3) Pair [unfolded Some]])
    then have "settled T ?X Ps (?d2\<lparr>g_Idrs := idrs\<rparr>)" by (intro settled_fence_id [OF _ f] settled_copy)
    note h = settled_handles [OF this, of r cmd ctx f]
    show ?thesis
    proof (cases "submit_handles r cmd ctx f (?d2\<lparr>g_Idrs := idrs\<rparr>)")
      case (Inl x)
      with h show ?thesis by (cases x) (auto simp: Pair Some f [symmetric] Let_def)
    next
      case (Inr x)
      obtain hs d3 where x: "x = (hs, d3)" by (cases x)
      obtain status dv where s: "SubmitCommand (en_kernel e) ctx md sz (ucast (deb_size cmd)) hs
          (ucast (deb_num_bo_handles cmd)) f obj (dr_dev d3) = (status, dv)" by (metis surj_pair)
      have "settled T ?X Ps d3" using h Inr x by simp
      from settled_submit [OF this po s] show ?thesis
        by (auto simp: Pair Some f [symmetric] Let_def Inr x s split: if_splits)
    qed
  qed
qed

lemma SubmitCommand_outcome:
  assumes "settled T X Ps d" and "env_ok e"
  shows "submit_outcome T X Ps (stream_size r) (CtlSubmitCommand e r d)"
proof -
  let ?cmd = "decode_drm_execbuffer (rq_in r)"
  have tail: "submit_outcome T X Ps (stream_size r) (CtlSubmitCommand_found e r bytes ctx d)" for bytes ctx
  proof (cases "submit_in_fence r ?cmd d")
    case (Inl x)
    with settled_fences(1) [OF assms(1), of r ?cmd] show ?thesis
      by (cases x) (auto simp: CtlSubmitCommand_found_def Let_def)
  next
    case (Inr d1)
    with settled_fences(1) [OF assms(1), of r ?cmd] have s1: "settled T X Ps d1" by simp
    show ?thesis
    proof (cases "submit_out_fence r ?cmd d1")
      case (Inl x)
      with settled_fences(2) [OF s1, of r ?cmd] show ?thesis
        by (cases x) (auto simp: CtlSubmitCommand_found_def Inr Let_def)
    next
      case i: (Inr x)
      obtain obj d2 where x: "x = (obj, d2)" by (cases x)
      with settled_fences(2) [OF s1, of r ?cmd] i have s2: "settled T X Ps d2" by simp
      obtain status mem where p: "rq_probe r (deb_command ?cmd) (ucast (deb_size ?cmd)) = (status, mem)"
        by (cases "rq_probe r (deb_command ?cmd) (ucast (deb_size ?cmd))")
      show ?thesis
        using s2 SubmitCommand_tail_outcome [OF s2 assms(2) round_up_page, of "deb_size ?cmd"]
        by (cases mem) (simp_all add: CtlSubmitCommand_found_def Inr i x p Let_def stream_size_def)
    qed
  qed
  with assms(1) show ?thesis
    by (simp add: CtlSubmitCommand_def with_input_def with_caller_def Let_def split: option.split)
qed

subsection \<open>Completions give back\<close>

lemma settled_get_buf:
  assumes "settled T X Ps d" and "q < NumVirtQueues d" and "b \<in> set (dv_VirtQueues (dr_dev d) ! q)"
  shows "settled T (buf_regions b + X) Ps (on_dev (completed q b) d)"
proof -
  have "q < length (dv_VirtQueues (dr_dev d))" using assms(2) by (simp add: NumVirtQueues_def)
  from completed_regions [OF this assms(3)] assms(1)
  have "balanced T (buf_regions b + X) Ps (on_dev (completed q b) d)" by (simp add: settled_def balanced_def ac_simps)
  with inv_get_buf(1) [OF _ assms(2,3)] assms(1) show ?thesis by (auto simp: settled_def)
qed

lemma balanced_map_callback:
  assumes "balanced T X Ps d" and c: "context_loop ctx (g_VirglContextList d) = Some c"
    and i: "i \<notin># held plain_ids Ps d"
  shows "balanced T X Ps (MapBlobResourceCallback e c i gpa sz d)"
proof (cases "resource_loop i (vc_ResourceList c)")
  case None
  then show ?thesis using assms(1) by (simp add: MapBlobResourceCallback_def GetResourceFromListUnsafe_def)
next
  case (Some r)
  have id: "vc_Id c = ctx" using contexts.search_SomeD [OF c] by auto
  have blob: "vr_bForBlob r" by (rule not_plain_blob [OF c Some i])
  define f :: "u64 \<Rightarrow> virgl_resource \<Rightarrow> virgl_resource" where "f = (\<lambda>m r. r\<lparr>vr_Buffer := (vr_Buffer r)\<lparr>mb_Size := sz,
      mb_Memory := (mb_Memory (vr_Buffer r))\<lparr>md_VirtualAddress := m\<rparr>\<rparr>, vr_StateEvent := True\<rparr>)"
  have "balanced T X Ps (with_context ctx (with_resource i (f m)) (d\<lparr>k_mdls := [] @ k_mdls d\<rparr>))" for m
    by (rule balanced_change [OF assms(1) c Some]) (simp_all add: f_def blob res_regions_def res_mdls_def)
  then have "balanced T X Ps (with_context ctx (with_resource i (f m)) d)" for m by simp
  moreover have "with_context ctx g (d\<lparr>k_iomaps := x\<rparr>) = (with_context ctx g d)\<lparr>k_iomaps := x\<rparr>" for g x
    by (simp add: with_context_def)
  ultimately show ?thesis using assms(1)
    by (simp add: MapBlobResourceCallback_def GetResourceFromListUnsafe_def Some id Let_def f_def)
qed

lemma settled_event: "settled T X Ps (KeSetEvent x d) = settled T X Ps d"
  by (simp add: settled_def inv_event)

lemma balanced_complete:
  assumes "settled T X Ps d" and "q < NumVirtQueues d" and "b \<in> set (dv_VirtQueues (dr_dev d) ! q)" and "rtl_ok (en_rtl e)"
  shows "balanced T X Ps (complete_buffer e b resp (on_dev (completed q b) d))"
proof -
  let ?d = "on_dev (completed q b) d" and ?h = "cmd_hdr (bf_cmd b)"
  obtain L where inv: "driver_inv L X Ps d" using assms(1) by (auto simp: settled_def)
  note g = inv_get_buf [OF inv assms(2,3)] and s = settled_get_buf [OF assms(1-3)]
  obtain t where t: "hdr_type ?h = ctrl_type_code t" using g(3) by (auto simp: cmd_wf_def)
  consider "t = VIRTIO_GPU_CMD_SUBMIT_3D" | "t = VIRTIO_GPU_CMD_RESOURCE_MAP_BLOB"
    | "t \<noteq> VIRTIO_GPU_CMD_SUBMIT_3D" "t \<noteq> VIRTIO_GPU_CMD_RESOURCE_MAP_BLOB" by blast
  then show ?thesis
  proof cases
    case 1
    have r: "settled T (add_mset (bf_pDataBuf b, bf_DataBufSize b) X) Ps ?d"
      using s t 1 by (simp add: buf_regions_def is_submit_def del: ctrl_type_code.simps)
    have busy: "settled T (add_mset (bf_pDataBuf b, bf_DataBufSize b) X) Ps (with_context c (UpdateResourceState is False f) ?d)" for c "is" f
      by (rule settled_step [OF r]) (rule inv_busy, assumption, simp)
    have "balanced T X Ps (on_dev (FreeCommandBuffer b)
        (d'\<lparr>g_Memory := FreeVgpuMemory (en_rtl e) (bf_pDataBuf b) (bf_DataBufSize b) (g_Memory d')\<rparr>))"
      if "settled T (add_mset (bf_pDataBuf b, bf_DataBufSize b) X) Ps d'" for d'
      using settled_free_region [OF that assms(4)] by (simp add: settled_def)
    with r busy settled_event show ?thesis
      unfolding complete_buffer_def Let_def t 1 ctrl_type_of_code
      by (simp split: option.split del: UpdateResourceState.simps balanced_steps)
  next
    case 2
    with t have n: "\<not> is_submit (bf_cmd b)" by (simp add: is_submit_def del: ctrl_type_code.simps)
    with s have idle: "balanced T X Ps ?d" by (simp add: buf_regions_def settled_def)
    have "balanced T X Ps (MapBlobResourceCallback e c i gpa sz ?d)"
      if "cmd_resource (bf_cmd b) = Some i" "context_loop ctx (g_VirglContextList ?d) = Some c" for c i ctx gpa sz
      using balanced_map_callback [OF idle that(2)] g(4) that(1) t 2 by (auto simp: cmd_ok_def map_ids_def)
    with idle show ?thesis
      unfolding complete_buffer_def Let_def t 2 ctrl_type_of_code
      by (simp add: GetVirglContextFromListUnsafe_def split: option.split del: ctrl_type_code.simps)
  next
    case 3
    with t have n: "\<not> is_submit (bf_cmd b)" by (simp add: is_submit_def del: ctrl_type_code.simps)
    with s have idle: "balanced T X Ps ?d" by (simp add: buf_regions_def settled_def)
    then show ?thesis
      unfolding complete_buffer_def Let_def t ctrl_type_of_code
      using 3 by (simp split: virtio_gpu_ctrl_type.split option.split del: ctrl_type_code.simps UpdateResourceState.simps)
  qed
qed

lemma settled_read:
  "settled T X Ps d \<Longrightarrow> used_ok q used d \<Longrightarrow> rtl_ok (en_rtl e) \<Longrightarrow> settled T X Ps (VirtioVgpuReadFromQueue e q used d)"
proof (induction e q used d rule: VirtioVgpuReadFromQueue.induct)
  case (2 e q b resp used d)
  let ?d = "complete_buffer e b resp (on_dev (completed q b) d)"
  have q: "q < NumVirtQueues d" and b: "b \<in> set (dv_VirtQueues (dr_dev d) ! q)"
    using "2.prems"(2) by (auto simp: used_ok_def insert_subset_eq_iff)
  have "used_ok q used ?d"
    using "2.prems"(2) q by (simp add: used_ok_def NumVirtQueues_def completed_def insert_subset_eq_iff)
  moreover have "settled T X Ps ?d"
    by (rule settled_step [OF "2.prems"(1)])
      (rule inv_complete [OF _ q b "2.prems"(3)], assumption, rule balanced_complete [OF "2.prems"(1) q b "2.prems"(3)])
  ultimately show ?case using "2.IH" "2.prems"(3) by simp
qed simp

lemma settled_dpc:
  assumes "settled T X Ps d" and "dpc_ok info used d" and "rtl_ok (en_rtl e)"
  shows "settled T X Ps (VirtioVgpuInterruptDpc e info used d)"
  by (rule dpc_rule [where P = "settled T X Ps", OF assms(1,2)]) (rule settled_read [OF _ _ assms(3)])

lemma settled_log: "settled T X Ps d \<Longrightarrow> settled T X Ps (queue_log es d)"
proof (rule settled_step, assumption, rule inv_log, assumption)
  show "balanced T X Ps d \<Longrightarrow> balanced T X Ps (queue_log es d)"
    by (simp add: queue_log_def balanced_on_dev queue_regions_def)
qed

lemma settled_log_fold: "settled T X Ps d \<Longrightarrow> settled T X Ps (fold (\<lambda>i. queue_log (es i)) is d)"
  by (induction "is" arbitrary: d) (simp_all add: settled_log)

lemma settled_callbacks:
  assumes "settled T X Ps d" and "env_ok e"
  shows "settled T X Ps (snd (VirtioVgpuInterruptEnable info d))" "settled T X Ps (snd (VirtioVgpuInterruptDisable info d))"
    "settled T X Ps (ProcessNotify e pid create d)"
  using assms settled_destroy_context [OF assms]
  by (simp_all add: VirtioVgpuInterruptEnable_def VirtioVgpuInterruptDisable_def settled_log settled_log_fold
      ProcessNotify_def GetVirglContextFromList_def GetVirglContextFromListUnsafe_def split: option.split)

lemma dispatch_settled:
  assumes "settled T X Ps d" and "env_ok e" and "next_id d < 2 ^ 32" and "code \<noteq> IOCTL_VIRTIO_VGPU_EXECBUFFER"
  shows "reply_all (settled T X Ps) (dispatch e code r d)"
proof -
  have mem: "mem_inv (g_Memory d)" using assms(1) by (auto simp: settled_def driver_inv_def dest: mem_owned_inv)
  note by_balance = reply_settled [OF assms(1)]
  have "reply_all (settled T X Ps) (CtlGetParams e r d)" "reply_all (settled T X Ps) (CtlGetCaps e r d)"
    "reply_all (settled T X Ps) (CtlCreateResource e r d)" "reply_all (settled T X Ps) (CtlCreateBlobResource e r d)"
    "reply_all (settled T X Ps) (CtlMap e r d)"
    by (rule by_balance, erule GetParams_kept [OF _ assms(2)], erule (1) GetParams_balanced [OF _ _ assms(2)])
      (rule by_balance, erule GetCaps_kept [OF _ assms(2)], erule (1) GetCaps_balanced [OF _ _ assms(2)],
        rule by_balance, erule CreateResource_kept [OF _ assms(2,3)], erule CreateResource_balanced [OF mem _ assms(2)],
        rule by_balance, erule CreateBlobResource_kept [OF _ assms(2,3)], erule CreateBlobResource_balanced,
        rule by_balance, erule Map_kept, erule Map_balanced)
  with assms show ?thesis
    using InitVirglContext_settled [OF assms(1,2)] Destroy_settled [OF assms(1,2)] CloseResource_settled [OF assms(1,2)]
      Wait_settled [OF assms(1)] TransferHost_settled [OF assms(1,2)]
    by (simp add: dispatch_def)
qed

end
