(* ===== verification/Vgpu_Leaks.thy ===== *)
theory Vgpu_Leaks
  imports Vgpu_Balance Vgpu_Careful
begin

text \<open>
  The balance of \<open>Vgpu_Balance\<close> along the runs of the driver: what the vgpu memory and the MDLs add
  up to after any sequence of requests and callbacks, and the one way in which memory is lost, a
  submission that fails after it was given memory for its stream.
\<close>

unbundle bit_operations_syntax

subsection \<open>The submission that strands its memory\<close>

lemma execbuffer_dispatch: "dispatch e IOCTL_VIRTIO_VGPU_EXECBUFFER r d = CtlSubmitCommand e r d"
  by (simp add: dispatch_def ioctl_code_defs ctl_code_defs)

text \<open>The array of handles cannot be read: \<open>CtlSubmitCommand\<close> returns the error and keeps the memory.\<close>

lemma handles_rejected:
  assumes "takes_input r (encode_drm_execbuffer cmd)" and "caller r d c" and "deb_flags cmd = 0"
    and "rq_probe r (deb_command cmd) (ucast (deb_size cmd)) = (s1, Some bs)" and "NT_SUCCESS s1"
    and "AllocateVgpuMemory (en_rtl e) (ucast (ROUND_UP (deb_size cmd) PAGE_SIZE)) (g_Memory d) = (Some md, m)"
    and "deb_num_bo_handles cmd \<noteq> 0"
    and "rq_probe r (deb_bo_handles cmd) (4 * ucast (deb_num_bo_handles cmd)) = (s2, hb)" and "\<not> NT_SUCCESS s2"
  shows "dispatch e IOCTL_VIRTIO_VGPU_EXECBUFFER r d = Some (s2, 48, rq_out r,
      copy_command (md_VirtualAddress md) (ucast (ROUND_UP (deb_size cmd) PAGE_SIZE)) (deb_size cmd) bs (d\<lparr>g_Memory := m\<rparr>))"
proof -
  have "d'\<lparr>g_Idrs := g_Idrs d'\<rparr> = d'" for d' :: driver by simp
  then show ?thesis
    using assms by (simp add: execbuffer_dispatch CtlSubmitCommand_unfold frame_passed takes_input_def
        submit_in_fence_def submit_out_fence_def submit_handles_def Let_def)
qed

text \<open>The sample: a stream of 16 bytes whose array of two handles cannot be read.\<close>

definition bad_handles :: request where
  "bad_handles = (sample_request (encode_drm_execbuffer (sample_execbuffer\<lparr>deb_flags := 0\<rparr>)) 0)
     \<lparr>rq_probe := \<lambda>a sz. if a = 0x6100 then (STATUS_UNSUCCESSFUL, None) else (STATUS_SUCCESS, Some (replicate (unat sz) 0xAB))\<rparr>"

lemma bad_handles_rejected:
  assumes "AllocateVgpuMemory rtl_first_fit 0x1000 (g_Memory d) = (Some md, m)" and "context_loop 7 (g_VirglContextList d) = Some c"
  shows "dispatch sample_env IOCTL_VIRTIO_VGPU_EXECBUFFER bad_handles d = Some (STATUS_UNSUCCESSFUL, 48, [],
      copy_command (md_VirtualAddress md) 0x1000 16 (replicate 16 0xAB) (d\<lparr>g_Memory := m\<rparr>))"
proof -
  let ?cmd = "sample_execbuffer\<lparr>deb_flags := 0\<rparr>"
  have "takes_input bad_handles (encode_drm_execbuffer ?cmd)" "rq_out bad_handles = []"
    using sample_input(1) [of "encode_drm_execbuffer ?cmd" 0] by (simp_all add: takes_input_def bad_handles_def)
  moreover have "caller bad_handles d c"
    using assms(2) by (simp add: caller_def GetVirglContextFromListUnsafe_def bad_handles_def)
  moreover have "ucast (ROUND_UP (deb_size ?cmd) PAGE_SIZE) = (0x1000 :: u64)" by (simp add: sample_execbuffer_def ROUND_UP_def)
  ultimately show ?thesis
    using assms(1) handles_rejected [of bad_handles ?cmd d c STATUS_SUCCESS "replicate 16 0xAB" sample_env md m STATUS_UNSUCCESSFUL None]
    by (simp add: bad_handles_def sample_execbuffer_def sample_env_def)
qed

subsection \<open>Runs\<close>

text \<open>What a request can leave behind: the size of its stream if it is a submission that failed.\<close>

definition stranded :: "u32 \<times> request \<times> returned \<Rightarrow> nat" where
  "stranded x = (case x of (code, r, status, n, out) \<Rightarrow>
     if code = IOCTL_VIRTIO_VGPU_EXECBUFFER \<and> \<not> NT_SUCCESS status then unat (stream_size r) else 0)"

lemma dispatch_balance:
  assumes "settled T X [] d" and "env_ok e" and "next_id d < 2 ^ 32" and "dispatch e code r d = Some (status, n, out, d')"
  shows "\<exists>Y. settled T Y [] d' \<and> bytes_of Y \<le> bytes_of X + stranded (code, r, status, n, out)"
proof (cases "code = IOCTL_VIRTIO_VGPU_EXECBUFFER")
  case True
  then have "CtlSubmitCommand e r d = Some (status, n, out, d')" using assms(4) by (simp add: execbuffer_dispatch)
  with SubmitCommand_outcome [OF assms(1,2), of r] True show ?thesis
    by (fastforce simp: stranded_def)
next
  case False
  from dispatch_settled [OF assms(1-3) this, of r] assms(4) show ?thesis by (auto simp: stranded_def)
qed

lemma call_settled:
  assumes "step e d ev d'" and "\<not> is_request ev" and "settled T X [] d" and "env_ok e"
  shows "settled T X [] d'"
  using assms(1)
proof cases
  case (interrupt info used)
  then show ?thesis using settled_dpc [OF assms(3)] assms(4) by (simp add: env_ok_def)
qed (use assms(2-4) settled_callbacks [OF assms(3,4)] in simp_all)

definition account_of :: "driver \<Rightarrow> account" where
  "account_of d = \<lparr>ac_bytes = unat (vm_AvailableMemorySize (g_Memory d)),
     ac_bitmap = vm_RegionBitmapBuffer (g_Memory d), ac_mdls = mset (k_mdls d)\<rparr>"

lemma started_settled:
  assumes "started d"
  shows "settled (account_of d) {#} [] d"
proof -
  have "driver_inv {#} {#} [] d" using started_inv assms by blast
  moreover have "held res_regions [] d = {#}" "held res_mdls [] d = {#}" "queue_regions (dr_dev d) = {#}"
    using assms by (simp_all add: started_def held_def owned_total_def queue_regions_def del: concat_eq_Nil_conv)
  ultimately show ?thesis by (auto simp: settled_def balanced_def mem_balanced_def account_of_def)
qed

lemma serves_settled:
  assumes "serves e d0 evs rets d" and "started d0" and "env_ok e" and "length evs < 2 ^ 32 - 1"
  shows "\<exists>X. settled (account_of d0) X [] d \<and> bytes_of X \<le> sum_list (map stranded rets)"
  using assms
proof (induction rule: serves.induct)
  case (starts d)
  then show ?case using started_settled [of d] by (intro exI [of _ "{#}"]) simp
next
  case (answers d evs rets d1 code r status n out d2)
  then obtain X where X: "settled (account_of d) X [] d1"
    "bytes_of X \<le> sum_list (map stranded rets)" by auto
  have "length evs < 2 ^ 32 - 1" using answers.prems(3) by simp
  from steps_kept [OF serves_steps [OF answers.hyps(1)] answers.prems(1,2) this] answers.prems(3)
  have "next_id d1 < 2 ^ 32" by simp
  from dispatch_balance [OF X(1) answers.prems(2) this answers.hyps(2)] X(2) show ?case by fastforce
next
  case (called d evs rets d1 ev d2)
  then obtain X where "settled (account_of d) X [] d1"
    "bytes_of X \<le> sum_list (map stranded rets)" by auto
  with call_settled [OF called.hyps(3,2)] called.prems(2) show ?case by blast
qed

lemma sample_init_dispatch:
  "dispatch sample_env IOCTL_VIRTIO_VGPU_CONTEXT_INIT init_request sample_start = Some (STATUS_SUCCESS, 16, [], started_context)"
  using sample_init by (auto simp: VirtioVgpuIoControl_def split: option.splits if_splits)

lemma settled_accounts:
  assumes "settled T X [] d" and "bytes_of X \<le> n"
  shows "(\<exists>lost \<le> n. unat (vm_AvailableMemorySize (g_Memory d)) + bytes_of (driver_regions d) + lost = ac_bytes T)
    \<and> mset (k_mdls d) = held res_mdls [] d + ac_mdls T"
  using assms by (auto simp: settled_def balanced_def mem_balanced_def driver_regions_def intro!: exI [of _ "bytes_of X"])

text \<open>C7: after any run the available vgpu memory, the regions of the resources and of the submissions
  in flight, and what failed submissions stranded, at most the size of their streams, add up to what
  was available at the start; and the MDLs allocated since are exactly those of the mapped resources.\<close>

theorem memory_accounted:
  assumes "serves e d0 evs rets d" and "started d0" and "env_ok e" and "length evs < 2 ^ 32 - 1"
  shows "(\<exists>lost \<le> sum_list (map stranded rets). unat (vm_AvailableMemorySize (g_Memory d)) + bytes_of (driver_regions d) + lost
      = unat (vm_AvailableMemorySize (g_Memory d0)))
    \<and> mset (k_mdls d) = held res_mdls [] d + mset (k_mdls d0)"
  using serves_settled [OF assms] settled_accounts by (fastforce simp: account_of_def)

theorem memory_accounted_witness:
  "\<exists>d. serves sample_env sample_start
      [Request IOCTL_VIRTIO_VGPU_CONTEXT_INIT init_request, Request IOCTL_VIRTIO_VGPU_EXECBUFFER bad_handles]
      [(IOCTL_VIRTIO_VGPU_CONTEXT_INIT, init_request, (STATUS_SUCCESS, 16, [])),
       (IOCTL_VIRTIO_VGPU_EXECBUFFER, bad_handles, (STATUS_UNSUCCESSFUL, 48, []))] d
    \<and> vm_AvailableMemorySize (g_Memory d) = 0x7000
    \<and> (\<exists>lost \<le> 0x1000. 0x7000 + bytes_of (driver_regions d) + lost = 0x8000) \<and> k_mdls d = []"
proof -
  obtain d where d: "dispatch sample_env IOCTL_VIRTIO_VGPU_EXECBUFFER bad_handles started_context
      = Some (STATUS_UNSUCCESSFUL, 48, [], d)"
    "vm_AvailableMemorySize (g_Memory d) = 0x7000" "g_VirglContextList d = [\<lparr>vc_Id = 7, vc_ResourceList = []\<rparr>]"
    using bad_handles_rejected [of started_context _ _ "\<lparr>vc_Id = 7, vc_ResourceList = []\<rparr>"] sample_steps(1)
    by (auto simp: started_context_def sample_start_def copy_command_def sample_state_def Let_def)
  from serves.answers [OF serves.answers [OF serves.starts sample_init_dispatch] d(1)]
  have run: "serves sample_env sample_start
      [Request IOCTL_VIRTIO_VGPU_CONTEXT_INIT init_request, Request IOCTL_VIRTIO_VGPU_EXECBUFFER bad_handles]
      [(IOCTL_VIRTIO_VGPU_CONTEXT_INIT, init_request, (STATUS_SUCCESS, 16, [])),
       (IOCTL_VIRTIO_VGPU_EXECBUFFER, bad_handles, (STATUS_UNSUCCESSFUL, 48, []))] d" by simp
  have "stranded (IOCTL_VIRTIO_VGPU_EXECBUFFER, bad_handles, (STATUS_UNSUCCESSFUL, 48, [])) = 0x1000"
    "stranded (IOCTL_VIRTIO_VGPU_CONTEXT_INIT, init_request, (STATUS_SUCCESS, 16, [])) = 0"
    by (simp_all add: stranded_def stream_size_def bad_handles_def sample_execbuffer_def ROUND_UP_def)
  moreover have "held res_mdls [] d = {#}" by (simp add: held_def owned_total_def d(3))
  moreover have "k_mdls sample_start = []" "vm_AvailableMemorySize (g_Memory sample_start) = 0x8000"
    by (simp_all add: sample_start_def sample_memory_state sample_state_def)
  ultimately show ?thesis
    using memory_accounted [OF run sample_started sample_env_ok(1)] run d(2) by (intro exI [of _ d]) simp
qed

text \<open>The same for threads that run at the same time, in careful runs.\<close>

lemma careful_memory_accounted:
  assumes "mruns e careful (idle_machine d0) acts m" and "started d0" and "env_ok e"
    and "length acts < 2 ^ 32 - 1"
  shows "(\<exists>lost \<le> sum_list (map stranded (mc_replies m)). unat (vm_AvailableMemorySize (g_Memory (mc_driver m)))
      + bytes_of (driver_regions (mc_driver m)) + lost = unat (vm_AvailableMemorySize (g_Memory d0)))
    \<and> mset (k_mdls (mc_driver m)) = held res_mdls [] (mc_driver m) + mset (k_mdls d0)"
proof -
  from calm_runs_serve [OF conjunct1 [OF careful_runs_calm [OF assms(1) refl assms(2-4)]] refl] obtain evs where
    "serves e d0 evs (mc_replies m) (mc_driver m)" "length evs \<le> length acts" by blast
  with serves_settled [OF this(1) assms(2,3)] settled_accounts assms(4) show ?thesis by (fastforce simp: account_of_def)
qed

text \<open>So a driver without processes and with empty queues has all its memory back if no submission
  failed.\<close>

lemma idle_memory_back:
  assumes "serves e d0 evs rets d" and "started d0" and "env_ok e" and "length evs < 2 ^ 32 - 1"
    and "\<forall>(code, r, status, n, out) \<in> set rets. code = IOCTL_VIRTIO_VGPU_EXECBUFFER \<longrightarrow> NT_SUCCESS status"
    and "g_VirglContextList d = []" and "concat (dv_VirtQueues (dr_dev d)) = []"
  shows "vm_AvailableMemorySize (g_Memory d) = vm_AvailableMemorySize (g_Memory d0) \<and> mset (k_mdls d) = mset (k_mdls d0)"
proof -
  obtain X where "settled (account_of d0) X [] d" "bytes_of X \<le> sum_list (map stranded rets)"
    using serves_settled [OF assms(1-4)] by blast
  moreover have "\<forall>x \<in> set rets. stranded x = 0" using assms(5) by (auto simp: stranded_def)
  then have "sum_list (map stranded rets) = 0" by simp
  moreover have "held res_regions [] d = {#}" "held res_mdls [] d = {#}" "queue_regions (dr_dev d) = {#}"
    using assms(6,7) by (simp_all add: held_def owned_total_def queue_regions_def del: concat_eq_Nil_conv)
  ultimately show ?thesis by (simp add: settled_def balanced_def mem_balanced_def account_of_def word_unat_eq_iff)
qed

subsection \<open>Memory that no one owns\<close>

text \<open>C15: a submission whose handles cannot be read fails and strands the memory it got: after any
  further requests and callbacks, the end of the process among them, its pages are still marked as
  used, and no resource and no submission in flight owns them.\<close>

theorem failed_submission_strands:
  assumes "takes_input r (encode_drm_execbuffer cmd)" and "caller r d c" and "deb_flags cmd = 0"
    and "rq_probe r (deb_command cmd) (ucast (deb_size cmd)) = (s1, Some bs)" and "NT_SUCCESS s1"
    and "AllocateVgpuMemory (en_rtl e) (ucast (ROUND_UP (deb_size cmd) PAGE_SIZE)) (g_Memory d) = (Some md, m)"
    and "deb_num_bo_handles cmd \<noteq> 0"
    and "rq_probe r (deb_bo_handles cmd) (4 * ucast (deb_num_bo_handles cmd)) = (s2, hb)" and "\<not> NT_SUCCESS s2"
    and "driver_inv L {#} [] d" and "env_ok e" and "next_id d + length evs \<le> 2 ^ 32"
    and "region = (md_VirtualAddress md, ucast (ROUND_UP (deb_size cmd) PAGE_SIZE))"
  shows "\<exists>d'. VirtioVgpuIoControl e IOCTL_VIRTIO_VGPU_EXECBUFFER r d = Some ([(s2, 48)], rq_out r, d')
    \<and> (\<forall>d2. steps e d' evs d2 \<longrightarrow> mem_owned (add_mset region (driver_regions d2)) (g_Memory d2))"
proof -
  let ?d = "copy_command (md_VirtualAddress md) (snd region) (deb_size cmd) bs (d\<lparr>g_Memory := m\<rparr>)"
  have d: "dispatch e IOCTL_VIRTIO_VGPU_EXECBUFFER r d = Some (s2, 48, rq_out r, ?d)"
    using handles_rejected [OF assms(1-9)] by (simp add: assms(13))
  have ro: "rtl_ok (en_rtl e)" using assms(11) by (simp add: env_ok_def)
  have "driver_inv L {#region#} [] (d\<lparr>g_Memory := m\<rparr>)"
    using inv_alloc_region [OF assms(10) ro round_up_page assms(6)] by (simp add: assms(13))
  then have k: "kept (en_kernel e) L {#region#} [] ?d" by (intro copy_kept keptI)
  have owned: "mem_owned (add_mset region (driver_regions d2)) (g_Memory d2)" if "steps e ?d evs d2" for d2
    using steps_kept_from [OF that k assms(11)] assms(12) by (auto simp: kept_def driver_inv_def driver_regions_def)
  have "s2 \<noteq> STATUS_PENDING" using assms(9) by auto
  with d have "VirtioVgpuIoControl e IOCTL_VIRTIO_VGPU_EXECBUFFER r d = Some ([(s2, 48)], rq_out r, ?d)"
    by (simp add: VirtioVgpuIoControl_def)
  with owned show ?thesis by blast
qed

theorem failed_submission_strands_witness:
  "\<exists>d' d2. VirtioVgpuIoControl sample_env IOCTL_VIRTIO_VGPU_EXECBUFFER bad_handles sample_driver
      = Some ([(STATUS_UNSUCCESSFUL, 48)], [], d')
    \<and> steps sample_env d' [Notify 7 False] d2 \<and> g_VirglContextList d2 = []
    \<and> mem_owned (add_mset (0x103000, 0x1000) (driver_regions d2)) (g_Memory d2)"
proof -
  let ?cmd = "sample_execbuffer\<lparr>deb_flags := 0\<rparr>"
  have in_out: "takes_input bad_handles (encode_drm_execbuffer ?cmd)" "rq_out bad_handles = []"
    using sample_input(1) [of "encode_drm_execbuffer ?cmd" 0] by (simp_all add: takes_input_def bad_handles_def)
  have caller: "caller bad_handles sample_driver sample_context"
    by (simp add: caller_def GetVirglContextFromListUnsafe_def bad_handles_def sample_context_def)
  have sz: "ucast (ROUND_UP (deb_size ?cmd) PAGE_SIZE) = (0x1000 :: u64)" by (simp add: sample_execbuffer_def ROUND_UP_def)
  have probes: "rq_probe bad_handles (deb_command ?cmd) (ucast (deb_size ?cmd)) = (STATUS_SUCCESS, Some (replicate 16 0xAB))"
    "rq_probe bad_handles (deb_bo_handles ?cmd) (4 * ucast (deb_num_bo_handles ?cmd)) = (STATUS_UNSUCCESSFUL, None)"
    and "deb_flags ?cmd = 0" "deb_num_bo_handles ?cmd \<noteq> 0"
    by (simp_all add: bad_handles_def sample_execbuffer_def)
  note fields = this(3,4)
  have alloc: "AllocateVgpuMemory (en_rtl sample_env) (ucast (ROUND_UP (deb_size ?cmd) PAGE_SIZE)) (g_Memory sample_driver)
      = (Some \<lparr>md_VirtualAddress = 0x103000, md_PhysicalAddress = 0x203000\<rparr>,
         sample_state [True, True, True, True, False, False, False, False] 0x4000 4)"
    unfolding sz using sample_alloc_page by (simp add: sample_env_def)
  have "next_id sample_driver + length [Notify 7 False] \<le> 2 ^ 32" by (simp add: next_id_def sample_driver_def idr_consts)
  note strands = failed_submission_strands [OF in_out(1) caller fields(1) probes(1) NT_SUCCESS_codes(1) alloc fields(2)
      probes(2) NT_SUCCESS_codes(3) sample_driver_inv sample_env_ok(1) this refl]
  obtain d' where d': "VirtioVgpuIoControl sample_env IOCTL_VIRTIO_VGPU_EXECBUFFER bad_handles sample_driver
      = Some ([(STATUS_UNSUCCESSFUL, 48)], [], d')"
    "\<forall>d2. steps sample_env d' [Notify 7 False] d2 \<longrightarrow> mem_owned (add_mset (0x103000, 0x1000) (driver_regions d2)) (g_Memory d2)"
    using strands unfolding sz in_out(2) by auto
  have "g_VirglContextList d' = [sample_context]"
    using d'(1) handles_rejected [OF in_out(1) caller fields(1) probes(1) NT_SUCCESS_codes(1) alloc fields(2) probes(2) NT_SUCCESS_codes(3)]
    by (auto simp: VirtioVgpuIoControl_def copy_command_def Let_def split: if_splits)
  then have "g_VirglContextList (ProcessNotify sample_env 7 False d') = []"
    by (simp add: ProcessNotify_def GetVirglContextFromList_def GetVirglContextFromListUnsafe_def CtlDestroyVirglContext_def
        sample_context_def Let_def)
  moreover have "steps sample_env d' [Notify 7 False] (ProcessNotify sample_env 7 False d')"
    using steps.more [OF steps.none, of sample_env d' "Notify 7 False"] by simp
  ultimately show ?thesis using d' by blast
qed

end
