(* ===== verification/Vgpu_Power.thy ===== *)
theory Vgpu_Power
  imports Vgpu_Lifecycle Vgpu_Leaks
begin

text \<open>
  The whole life of the device: it is prepared, enters and leaves the working state any number of
  times, is released and may be prepared again, and the callbacks that do so may fail.  While it
  works, the driver takes the steps of \<open>Vgpu_System\<close>.  The theorems about runs are carried over
  to such lives, and what the callbacks take from the kernel is accounted for across them.
\<close>

unbundle bit_operations_syntax

subsection \<open>Lives\<close>

text \<open>The phases between which the framework moves the device: stopped (added or released), prepared
  but without power, working, and failed, from where only \<open>ReleaseHardware\<close> leads on.  Requests and
  interrupts come only while the device works, since the framework holds them back otherwise; a
  process may exit at any time between \<open>PrepareHardware\<close> and \<open>ReleaseHardware\<close>.\<close>

datatype phase = Stopped | Asleep | Awake | Failed

datatype life_event =
    Prepare platform
  | Enter platform
  | Work event
  | Leave
  | Release
  | Exit_asleep u32

text \<open>What the \<open>ASSERT\<close>s of \<open>PrepareHardware\<close> expect: a configuration the allocator can serve, no more
  queues than interrupts, and memory from the pool.\<close>

definition asserted :: "platform \<Rightarrow> hardware \<Rightarrow> bool" where
  "asserted pl hw \<longleftrightarrow> config_ok (dr_config (hw_driver hw)) (pl_memory pl)
     \<and> unat (cfg_num_queues (dr_config (hw_driver hw))) \<le> MAX_INTERRUPT_COUNT \<and> pool_served pl"

inductive life_step :: "env \<Rightarrow> phase \<times> hardware \<Rightarrow> life_event \<Rightarrow> phase \<times> hardware \<Rightarrow> bool" for e where
  prepared: "VirtioVgpuDevicePrepareHardware pl hw = (status, hw') \<Longrightarrow> NT_SUCCESS status \<Longrightarrow> asserted pl hw \<Longrightarrow>
    life_step e (Stopped, hw) (Prepare pl) (Asleep, hw')"
| not_prepared: "VirtioVgpuDevicePrepareHardware pl hw = (status, hw') \<Longrightarrow> \<not> NT_SUCCESS status \<Longrightarrow>
    life_step e (Stopped, hw) (Prepare pl) (Failed, hw')"
| entered: "VirtioVgpuDeviceD0Entry pl hw = (status, hw') \<Longrightarrow> NT_SUCCESS status \<Longrightarrow>
    life_step e (Asleep, hw) (Enter pl) (Awake, hw')"
| not_entered: "VirtioVgpuDeviceD0Entry pl hw = (status, hw') \<Longrightarrow> \<not> NT_SUCCESS status \<Longrightarrow>
    life_step e (Asleep, hw) (Enter pl) (Failed, hw')"
| works: "step e (hw_driver hw) ev d \<Longrightarrow> life_step e (Awake, hw) (Work ev) (Awake, hw\<lparr>hw_driver := d\<rparr>)"
| leaves: "VirtioVgpuDeviceD0Exit hw = (status, hw') \<Longrightarrow> life_step e (Awake, hw) Leave (Asleep, hw')"
| releases: "ph = Asleep \<or> ph = Failed \<Longrightarrow> VirtioVgpuDeviceReleaseHardware hw = (status, hw') \<Longrightarrow>
    life_step e (ph, hw) Release (Stopped, hw')"
| exits: "life_step e (Asleep, hw) (Exit_asleep pid)
    (Asleep, hw\<lparr>hw_driver := ProcessNotify e pid False (hw_driver hw)\<rparr>)"

inductive_cases life_stepE: "life_step e s ev s'"

inductive life :: "env \<Rightarrow> phase \<times> hardware \<Rightarrow> life_event list \<Rightarrow> phase \<times> hardware \<Rightarrow> bool" for e where
  born: "life e s [] s"
| lives: "life e s evs s1 \<Longrightarrow> life_step e s1 ev s2 \<Longrightarrow> life e s (evs @ [ev]) s2"

definition quiet_exits :: "life_event list \<Rightarrow> bool" where
  "quiet_exits evs \<longleftrightarrow> (\<forall>pid. Exit_asleep pid \<notin> set evs)"

subsection \<open>The queues come and go\<close>

definition requeued :: "nat \<Rightarrow> driver \<Rightarrow> driver" where
  "requeued n = on_dev (\<lambda>dv. dv\<lparr>dv_VirtQueues := replicate n []\<rparr>)"

lemma requeued_simps [simp]:
  "requeued n (on_dev (\<lambda>dv. dv\<lparr>dv_VirtQueues := qs\<rparr>) d) = requeued n d" "requeued n (requeued m d) = requeued n d"
  "next_id (requeued n d) = next_id d" "g_Memory (requeued n d) = g_Memory d" "g_Idrs (requeued n d) = g_Idrs d"
  "g_VirglContextList (requeued n d) = g_VirglContextList d" "k_mdls (requeued n d) = k_mdls d"
  "held g Ps (requeued n d) = held g Ps d" "queue_regions (dr_dev (requeued n d)) = {#}"
  by (simp_all add: requeued_def on_dev_def next_id_def queue_regions_def)

lemma requeued_settled:
  assumes "settled T X [] d" and "2 \<le> n"
  shows "settled T (X + queue_regions (dr_dev d)) [] (requeued n d)"
proof -
  obtain L where inv: "driver_inv L X [] d" using assms(1) by (auto simp: settled_def)
  have e: "concat (replicate n []) = []" by simp
  have "driver_inv (L + image_mset bf_pBuf (mset (concat (dv_VirtQueues (dr_dev d)))))
      (X + queue_regions (dr_dev d)) [] (requeued n d)"
    using inv assms(2)
    by (simp add: requeued_def driver_inv_def device_acct_def queue_regions_def queue_ok_def queue_cmds_def held_def
        listed_def e ac_simps del: mset_concat set_concat mset_replicate)
  moreover have "balanced T (X + queue_regions (dr_dev d)) [] (requeued n d)"
    using assms(1) by (simp add: settled_def balanced_def ac_simps)
  ultimately show ?thesis by (auto simp: settled_def)
qed

lemma D0Exit_driver: "VirtioVgpuDeviceD0Exit hw = (status, hw') \<Longrightarrow>
  hw' = hw\<lparr>hw_driver := on_dev (\<lambda>dv. dv\<lparr>dv_VirtQueues := []\<rparr>) (hw_driver hw), hw_driver_ok := False\<rparr>"
  by (auto simp: VirtioVgpuDeviceD0Exit_def on_driver_def)

lemma D0Entry_driver:
  assumes "VirtioVgpuDeviceD0Entry pl hw = (status, hw')"
  shows "hw_NumVirtQueues hw' = hw_NumVirtQueues hw
    \<and> hw_driver hw' = (if NT_SUCCESS status then requeued (unat (hw_NumVirtQueues hw)) (hw_driver hw) else hw_driver hw)"
  using assms by (auto simp: VirtioVgpuDeviceD0Entry_def requeued_def on_driver_def Let_def split: if_splits)

lemma D0Entry_status:
  "fst (VirtioVgpuDeviceD0Entry pl hw) = (if hw_NumVirtQueues hw = 0 then STATUS_INVALID_PARAMETER
     else if pl_params pl = 0 then STATUS_INSUFFICIENT_RESOURCES else pl_queues pl)"
  by (simp add: VirtioVgpuDeviceD0Entry_def Let_def)

subsection \<open>The invariant of a life\<close>

text \<open>What stays of the invariant while the device is stopped: no buffer is unaccounted for.\<close>

definition idle_acct :: "driver \<Rightarrow> bool" where
  "idle_acct d \<longleftrightarrow> dv_lookaside (dr_dev d) = length (dv_pool (dr_dev d))
     \<and> (\<forall>f \<in> set (dv_faults (dr_dev d)). handler_fault f) \<and> length (g_Idrs d) = IDR_MAX_SIZE"

definition powered :: "(driver \<Rightarrow> driver) \<Rightarrow> nat \<Rightarrow> hardware \<Rightarrow> bool" where
  "powered f n hw \<longleftrightarrow> 2 \<le> unat (hw_NumVirtQueues hw) \<and> next_id (hw_driver hw) \<le> n
     \<and> (\<exists>T X. settled T X [] (f (hw_driver hw)))"

fun life_inv :: "nat \<Rightarrow> phase \<times> hardware \<Rightarrow> bool" where
  "life_inv n (Awake, hw) = powered (\<lambda>d. d) n hw"
| "life_inv n (Asleep, hw) = powered (requeued (unat (hw_NumVirtQueues hw))) n hw"
| "life_inv n (ph, hw) = idle_acct (hw_driver hw)"

lemma inv_idle:
  assumes "driver_inv L X Ps d"
  shows "idle_acct d"
proof -
  have "mset (dv_pool (dr_dev d)) = image_mset bf_pBuf (mset (concat (dv_VirtQueues (dr_dev d)))) + L"
    "dv_lookaside (dr_dev d) = length (concat (dv_VirtQueues (dr_dev d))) + size L"
    using assms by (simp_all add: driver_inv_def device_acct_def)
  from arg_cong [OF this(1), of size] this(2) assms show ?thesis
    by (simp add: idle_acct_def driver_inv_def device_acct_def ids_ok_def del: mset_concat)
qed

lemma idle_requeued [simp]: "idle_acct (requeued n d) = idle_acct d"
  by (simp add: idle_acct_def requeued_def)

lemma powered_idle:
  "powered (\<lambda>d. d) n hw \<Longrightarrow> idle_acct (hw_driver hw)" "powered (requeued m) n hw \<Longrightarrow> idle_acct (hw_driver hw)"
  by (auto simp: powered_def settled_def dest: inv_idle)

lemma prepared_settled:
  assumes "idle_acct d" and "2 \<le> n" and "config_ok (dr_config d) (pl_memory pl)" and "pl_bitmap pl \<noteq> 0"
  shows "settled (account_of (prepared pl d)) {#} [] (requeued n (prepared pl d))" and "next_id (prepared pl d) = 1"
proof -
  let ?d = "requeued n (prepared pl d)" and ?cfg = "dr_config d"
  have e: "concat (replicate n []) = []" by simp
  have dev: "dv_VirtQueues (dr_dev ?d) = replicate n []" "dv_pool (dr_dev ?d) = dv_pool (dr_dev d)"
    "dv_lookaside (dr_dev ?d) = dv_lookaside (dr_dev d)" "dv_faults (dr_dev ?d) = dv_faults (dr_dev d)"
    "caps_inv (g_Capsets (dr_dev ?d))" "g_VirglContextList ?d = []" "g_Idrs ?d = InitializeIdr (g_Idrs d)"
    "g_Memory (prepared pl d) = InitializeVgpuMemory (pl_bitmap pl) (pl_memory pl) (pl_physical pl) (cfg_memory_size ?cfg) (g_Memory d)"
    by (simp_all add: requeued_def prepared_def set_caps_def on_dev_def caps_inv_def Let_def)
  have held: "held g [] ?d = {#}" for g :: "virgl_resource \<Rightarrow> 'x multiset"
    using dev(6) by (simp add: held_def owned_total_def)
  have mem: "mem_owned {#} (g_Memory ?d)"
    using assms(3,4) unfolding requeued_simps dev(8) by (intro initialize_owned) (simp_all add: config_ok_def whole_pages)
  have ids: "length (g_Idrs d) = IDR_MAX_SIZE" using assms(1) by (simp add: idle_acct_def)
  then have id: "next_id ?d = 1" by (simp add: next_id_def dev(7) InitializeIdr_nth idr_consts del: requeued_simps)
  then show "next_id (prepared pl d) = 1" by simp
  have "device_acct (mset (dv_pool (dr_dev d))) (dr_dev ?d)"
    using assms(1,2) by (simp add: device_acct_def dev(1-4) e idle_acct_def del: mset_concat set_concat mset_replicate)
  moreover have "ids_ok (g_Idrs ?d) {#}"
    using ids by (simp add: ids_ok_def issued_once_def dev(7) InitializeIdr_nth idr_consts del: requeued_simps)
  moreover have "queue_cmds (dr_dev ?d) = {}" by (simp add: queue_cmds_def dev(1) e)
  moreover have "queue_regions (dr_dev ?d) = {#}" by simp
  ultimately have "driver_inv (mset (dv_pool (dr_dev d))) {#} [] ?d"
    using mem dev(5,6) by (simp add: driver_inv_def held queue_ok_def listed_def del: requeued_simps)
  moreover have "balanced (account_of (prepared pl d)) {#} [] ?d"
    using held [of res_regions] held [of res_mdls] by (simp add: balanced_def mem_balanced_def account_of_def)
  ultimately show "settled (account_of (prepared pl d)) {#} [] ?d" by (auto simp: settled_def)
qed

lemma step_settled:
  assumes "step e d ev d'" and "settled T X [] d" and "env_ok e" and "next_id d < 2 ^ 32"
  shows "\<exists>Y. settled T Y [] d' \<and> next_id d' \<le> Suc (next_id d)"
proof -
  obtain L where "driver_inv L X [] d" using assms(2) by (auto simp: settled_def)
  from step_kept [OF assms(1) keptI [OF this] assms(3,4)] have "next_id d' \<le> Suc (next_id d)" by simp
  moreover have "\<exists>Y. settled T Y [] d'"
  proof (cases "is_request ev")
    case True
    then obtain code r where ev: "ev = Request code r" by (cases ev) auto
    with assms(1) obtain status n out where "dispatch e code r d = Some (status, n, out, d')"
      by (auto simp: VirtioVgpuIoControl_def split: option.splits prod.splits)
    from dispatch_balance [OF assms(2-4) this] show ?thesis by blast
  next
    case False
    from call_settled [OF assms(1) this assms(2,3)] show ?thesis by blast
  qed
  ultimately show ?thesis by blast
qed

lemma prepare_success:
  "VirtioVgpuDevicePrepareHardware pl hw = (status, hw') \<Longrightarrow> NT_SUCCESS status \<Longrightarrow> status = STATUS_SUCCESS"
  by (auto simp: VirtioVgpuDevicePrepareHardware_def Let_def split: if_splits prod.splits option.splits
      dest!: create_locks_driver)

lemma idle_set_caps [simp]:
  "idle_acct (d\<lparr>k_mem := m\<rparr>) = idle_acct d" "idle_acct (d\<lparr>g_Memory := vm\<rparr>) = idle_acct d"
  "idle_acct (d\<lparr>dr_Capabilities := c\<rparr>) = idle_acct d" "idle_acct (set_caps cfg d) = idle_acct d"
  "idle_acct (d\<lparr>g_VirglContextList := cs\<rparr>) = idle_acct d" "idle_acct (d\<lparr>g_Idrs := InitializeIdr (g_Idrs d)\<rparr>) = idle_acct d"
  "idle_acct (d\<lparr>g_Idrs := UnInitializeIdr (g_Idrs d)\<rparr>) = idle_acct d"
  by (simp_all add: idle_acct_def set_caps_def on_dev_def)

lemma prepare_idle:
  assumes "VirtioVgpuDevicePrepareHardware pl hw = (status, hw')" and "idle_acct (hw_driver hw)" and "\<not> NT_SUCCESS status"
  shows "idle_acct (hw_driver hw')"
  using assms
  by (auto simp: VirtioVgpuDevicePrepareHardware_def Let_def split: if_splits prod.splits option.splits
      dest!: create_locks_driver)

lemma release_idle:
  assumes "VirtioVgpuDeviceReleaseHardware hw = (status, hw')" and "idle_acct (hw_driver hw)"
  shows "idle_acct (hw_driver hw')"
proof -
  have d: "hw_driver (delete_list b h) = hw_driver h" "hw_driver (give_contiguous a h) = hw_driver h" for a b h
    by (simp_all add: delete_list_def give_contiguous_def hw_fault_def)
  show ?thesis using assms by (auto simp: VirtioVgpuDeviceReleaseHardware_def Let_def d idle_acct_def split: if_splits)
qed

lemma powered_entered: "powered (requeued m) n hw \<Longrightarrow> hw_driver hw' = requeued m (hw_driver hw) \<Longrightarrow>
  hw_NumVirtQueues hw' = hw_NumVirtQueues hw \<Longrightarrow> powered (\<lambda>d. d) n hw'"
  by (simp add: powered_def)

lemma powered_Suc: "powered f n hw \<Longrightarrow> powered f (Suc n) hw"
  by (auto simp: powered_def)

lemma life_step_inv:
  assumes "life_step e s ev s'" and "life_inv n s" and "env_ok e" and "n < 2 ^ 32" and "quiet_exits [ev]"
  shows "life_inv (Suc n) s'"
  using assms(1)
proof cases
  case (prepared pl hw status hw')
  then have ok: "VirtioVgpuDevicePrepareHardware pl hw = (STATUS_SUCCESS, hw')" using prepare_success by metis
  note d = prepare_driver [OF ok]
  have cfg: "config_ok (dr_config (hw_driver hw)) (pl_memory pl)" "pl_bitmap pl \<noteq> 0"
    using prepared by (simp_all add: asserted_def pool_served_def)
  then have two: "2 \<le> unat (cfg_num_queues (dr_config (hw_driver hw)))" by (simp add: config_ok_def word_le_nat_alt)
  have "idle_acct (hw_driver hw)" using prepared(1) assms(2) by simp
  from prepared_settled [OF this two cfg] two prepared d show ?thesis by (auto simp: powered_def)
next
  case (not_prepared pl hw status hw')
  with prepare_idle [OF not_prepared(4)] assms(2) show ?thesis by simp
next
  case (entered pl hw status hw')
  with D0Entry_driver [OF entered(4)] assms(2) powered_entered [OF powered_Suc] show ?thesis by simp
next
  case (not_entered pl hw status hw')
  have "powered (requeued (unat (hw_NumVirtQueues hw))) n hw" using not_entered(1) assms(2) by simp
  then have "idle_acct (hw_driver hw)" by (rule powered_idle)
  with D0Entry_driver [OF not_entered(4)] not_entered show ?thesis by simp
next
  case (works hw ev' d)
  then obtain T X where "settled T X [] (hw_driver hw)" "next_id (hw_driver hw) \<le> n" "2 \<le> unat (hw_NumVirtQueues hw)"
    using assms(2) by (auto simp: powered_def)
  moreover from this assms(4) have "next_id (hw_driver hw) < 2 ^ 32" by simp
  ultimately show ?thesis using step_settled [OF works(4) _ assms(3)] works(3) by (fastforce simp: powered_def)
next
  case (leaves hw status hw')
  then obtain T X where s: "settled T X [] (hw_driver hw)" "next_id (hw_driver hw) \<le> n" "2 \<le> unat (hw_NumVirtQueues hw)"
    using assms(2) by (auto simp: powered_def)
  from requeued_settled [OF s(1,3)] s(2,3) leaves(3) D0Exit_driver [OF leaves(4)] show ?thesis
    by (auto simp: powered_def)
next
  case (releases ph hw status hw')
  have "idle_acct (hw_driver hw)" using releases(1,4) assms(2) powered_idle by auto
  with release_idle [OF releases(5)] releases show ?thesis by simp
next
  case (exits hw pid)
  with assms(5) show ?thesis by (simp add: quiet_exits_def)
qed

lemma life_invariant:
  assumes "life e (Stopped, hw0) evs s" and "idle_acct (hw_driver hw0)" and "env_ok e" and "length evs \<le> 2 ^ 32" and "quiet_exits evs"
  shows "life_inv (length evs) s"
  using assms
proof (induction "(Stopped, hw0)" evs s rule: life.induct)
  case (lives evs s1 ev s2)
  then have "life_inv (length evs) s1" "length evs < 2 ^ 32" "quiet_exits [ev]" by (auto simp: quiet_exits_def)
  from life_step_inv [OF lives.hyps(3) this(1) lives.prems(2) this(2,3)] show ?case by simp
qed simp

subsection \<open>Safety\<close>

text \<open>C17: however often the device is prepared, suspended, resumed and released, and whichever of these
  callbacks fail, whenever the device works each page of vgpu memory has at most one owner and owned
  pages are marked as used, resource ids are unique and not 0, no process has two contexts, and
  no buffer was freed twice; provided that no process exits while the device has no power
  (\<open>exit_asleep_uses_queue\<close> is what happens then), that there are at most \<open>2 ^ 32\<close> events, and that
  each request is one step (\<open>init_race_duplicates\<close>: two that overlap can give a process two
  contexts).\<close>

theorem lives_safe:
  assumes "life e (Stopped, hw0) evs (Awake, hw)" and "idle_acct (hw_driver hw0)" and "env_ok e"
    and "length evs \<le> 2 ^ 32" and "quiet_exits evs"
  shows "mem_owned (driver_regions (hw_driver hw)) (g_Memory (hw_driver hw))
    \<and> distinct (concat (map (\<lambda>c. map vr_Id (vc_ResourceList c)) (g_VirglContextList (hw_driver hw))))
    \<and> 0 \<notin> set (concat (map (\<lambda>c. map vr_Id (vc_ResourceList c)) (g_VirglContextList (hw_driver hw))))
    \<and> distinct (map vc_Id (g_VirglContextList (hw_driver hw)))
    \<and> (\<forall>a. Fault_pool_free a \<notin> set (dv_faults (dr_dev (hw_driver hw))))"
proof -
  have "powered (\<lambda>d. d) (length evs) hw" using life_invariant [OF assms] by simp
  then obtain L X where inv: "driver_inv L X [] (hw_driver hw)" by (auto simp: powered_def settled_def)
  then have "mem_owned (driver_regions (hw_driver hw) + X) (g_Memory (hw_driver hw))"
    "distinct (map vc_Id (g_VirglContextList (hw_driver hw)))" "device_acct L (dr_dev (hw_driver hw))"
    by (simp_all add: driver_inv_def driver_regions_def)
  then show ?thesis
    using inv_ids [OF inv_drop [of L "{#}" X "[]" "[]"]] inv mem_owned_mono by (auto simp: device_acct_def)
qed

subsection \<open>What the device holds of the kernel\<close>

text \<open>A platform on which the preparation succeeds.\<close>

definition can_serve :: "platform \<Rightarrow> bool" where
  "can_serve pl \<longleftrightarrow> NT_SUCCESS (pl_initialize pl) \<and> pl_memory pl \<noteq> 0 \<and> (\<forall>i. NT_SUCCESS (pl_lock pl i))"

definition always_served :: "life_event list \<Rightarrow> bool" where
  "always_served evs \<longleftrightarrow> (\<forall>pl. Prepare pl \<in> set evs \<longrightarrow> can_serve pl)"

lemma can_serve_prepares:
  assumes "can_serve pl" and "VirtioVgpuDevicePrepareHardware pl hw = (status, hw')"
  shows "NT_SUCCESS status"
proof -
  have "create_locks pl is h = (x, h') \<Longrightarrow> x = None" for "is" h x h'
    using assms(1) by (induction "is" arbitrary: h) (auto simp: can_serve_def Let_def)
  then show ?thesis
    using assms by (fastforce simp: VirtioVgpuDevicePrepareHardware_def can_serve_def Let_def split: if_splits prod.splits option.splits)
qed

text \<open>Nothing but the driver's own state and the flags of the power callbacks changes.\<close>

definition same_hardware :: "hardware \<Rightarrow> hardware \<Rightarrow> bool" where
  "same_hardware hw hw' \<longleftrightarrow> (\<exists>d ok. hw' = hw\<lparr>hw_driver := d, hw_driver_ok := ok\<rparr>
     \<and> vm_RegionBitmapBuffer (g_Memory d) = vm_RegionBitmapBuffer (g_Memory (hw_driver hw)))"

lemma same_holds: "same_hardware hw hw' \<Longrightarrow> holds pl P C n hw \<Longrightarrow> holds pl P C n hw'"
  by (auto simp: same_hardware_def holds_def)

lemma same_fields: "same_hardware hw hw' \<Longrightarrow> hw_faults hw' = hw_faults hw \<and> hw_WdfInterrupt hw' = hw_WdfInterrupt hw
    \<and> hw_NumVirtQueues hw' = hw_NumVirtQueues hw"
  by (auto simp: same_hardware_def)

lemma bind_interrupts_ok: "\<forall>i \<in> set is. i < length (hw_WdfInterrupt hw) \<Longrightarrow> bind_interrupts is hw = hw"
  by (induction "is") simp_all

lemma D0Entry_same:
  assumes "VirtioVgpuDeviceD0Entry pl hw = (status, hw')" and "unat (hw_NumVirtQueues hw) \<le> length (hw_WdfInterrupt hw)"
  shows "same_hardware hw hw'"
proof -
  have same: "same_hardware hw (hw\<lparr>hw_driver := d, hw_driver_ok := ok\<rparr>)" if "g_Memory d = g_Memory (hw_driver hw)" for d ok
    using that by (auto simp: same_hardware_def)
  have "same_hardware hw hw" using same [of "hw_driver hw" "hw_driver_ok hw"] by simp
  moreover have "give_pool a ((take_pool a hw)\<lparr>hw_driver := d, hw_driver_ok := ok\<rparr>) = hw\<lparr>hw_driver := d, hw_driver_ok := ok\<rparr>"
    "give_pool a (take_pool a hw) = hw" if "a \<noteq> 0" for a d ok
    using that by (simp_all add: take_pool_def give_pool_def)
  moreover have "bind_interrupts [0..<unat (hw_NumVirtQueues hw)] (take_pool a hw) = take_pool a hw" for a
    using assms(2) by (intro bind_interrupts_ok) simp
  ultimately show ?thesis
    using assms(1) same by (auto simp: VirtioVgpuDeviceD0Entry_def on_driver_def Let_def split: if_splits)
qed

lemma D0Exit_same: "VirtioVgpuDeviceD0Exit hw = (status, hw') \<Longrightarrow> same_hardware hw hw'"
  by (auto simp: same_hardware_def dest!: D0Exit_driver intro!: exI)

lemma step_same:
  assumes "step e (hw_driver hw) ev d" and "life_inv n (Awake, hw)" and "env_ok e" and "n < 2 ^ 32"
  shows "same_hardware hw (hw\<lparr>hw_driver := d\<rparr>)"
proof -
  obtain T X where s: "settled T X [] (hw_driver hw)" "next_id (hw_driver hw) < 2 ^ 32"
    using assms(2,4) by (auto simp: powered_def)
  obtain Y where "settled T Y [] d" using step_settled [OF assms(1) s(1) assms(3) s(2)] by blast
  with s(1) have "vm_RegionBitmapBuffer (g_Memory d) = vm_RegionBitmapBuffer (g_Memory (hw_driver hw))"
    by (simp add: settled_def balanced_def mem_balanced_def)
  then show ?thesis by (auto simp: same_hardware_def intro!: exI [of _ d] exI [of _ "hw_driver_ok hw"])
qed

text \<open>What the last preparation of a life was given.\<close>

fun prepared_by :: "life_event \<Rightarrow> platform option \<Rightarrow> platform option" where
  "prepared_by (Prepare pl) former = Some pl"
| "prepared_by ev former = former"

definition last_prepared :: "life_event list \<Rightarrow> platform option" where
  "last_prepared evs = fold prepared_by evs None"

lemma last_prepared_simps [simp]:
  "last_prepared [] = None" "last_prepared (evs @ [ev]) = prepared_by ev (last_prepared evs)"
  by (simp_all add: last_prepared_def)

text \<open>The hardware side of a life that began with \<open>hw0\<close>, \<open>lp\<close> being its last preparation.\<close>

definition hw_inv :: "hardware \<Rightarrow> platform option \<Rightarrow> phase \<times> hardware \<Rightarrow> bool" where
  "hw_inv hw0 lp s \<longleftrightarrow> (case s of (ph, hw) \<Rightarrow>
     hw_faults hw = hw_faults hw0 \<and> length (hw_WdfInterrupt hw) = MAX_INTERRUPT_COUNT
   \<and> (if ph = Stopped then mset (hw_pool hw) = mset (hw_pool hw0) \<and> hw_contiguous hw = hw_contiguous hw0
        \<and> hw_notify hw = hw_notify hw0
      else unat (hw_NumVirtQueues hw) \<le> MAX_INTERRUPT_COUNT
        \<and> (\<exists>pl. lp = Some pl \<and> holds pl (mset (hw_pool hw0)) (hw_contiguous hw0) (hw_notify hw0) hw)))"

lemma hw_inv_same:
  assumes "hw_inv hw0 lp (ph, hw)" and "same_hardware hw hw'" and "ph \<noteq> Stopped" and "ph' \<noteq> Stopped"
  shows "hw_inv hw0 lp (ph', hw')"
proof -
  obtain pl where "lp = Some pl" "holds pl (mset (hw_pool hw0)) (hw_contiguous hw0) (hw_notify hw0) hw"
    using assms(1,3) by (auto simp: hw_inv_def)
  with same_holds [OF assms(2)] assms(1,3,4) same_fields [OF assms(2)] show ?thesis by (simp add: hw_inv_def)
qed

lemma hw_step:
  assumes "life_step e s ev s'" and "hw_inv hw0 lp s" and "life_inv n s" and "env_ok e" and "n < 2 ^ 32"
    and "quiet_exits [ev]" and "always_served [ev]"
  shows "hw_inv hw0 (prepared_by ev lp) s'"
  using assms(1)
proof cases
  case (prepared pl hw status hw')
  then have ok: "VirtioVgpuDevicePrepareHardware pl hw = (STATUS_SUCCESS, hw')" using prepare_success by metis
  have "pool_served pl" using prepared(6) by (simp add: asserted_def)
  note h = prepare_holds [OF ok this]
  have "mset (hw_pool hw) = mset (hw_pool hw0)" "hw_contiguous hw = hw_contiguous hw0" "hw_notify hw = hw_notify hw0"
    "hw_faults hw = hw_faults hw0" "length (hw_WdfInterrupt hw) = MAX_INTERRUPT_COUNT"
    using assms(2) prepared(1) by (simp_all add: hw_inv_def)
  moreover have "unat (hw_NumVirtQueues hw') \<le> MAX_INTERRUPT_COUNT"
    using prepare_driver [OF ok] prepared(6) by (simp add: asserted_def)
  ultimately show ?thesis using h prepared(2,3) by (simp add: hw_inv_def)
next
  case (not_prepared pl hw status hw')
  then show ?thesis using can_serve_prepares assms(7) by (auto simp: always_served_def)
next
  case (entered pl hw status hw')
  have "same_hardware hw hw'"
    using D0Entry_same [OF entered(4)] assms(2) entered(1) by (simp add: hw_inv_def)
  with entered hw_inv_same [OF assms(2) [unfolded entered(1)]] show ?thesis by simp
next
  case (not_entered pl hw status hw')
  have "same_hardware hw hw'"
    using D0Entry_same [OF not_entered(4)] assms(2) not_entered(1) by (simp add: hw_inv_def)
  with not_entered hw_inv_same [OF assms(2) [unfolded not_entered(1)]] show ?thesis by simp
next
  case (works hw ev' d)
  have "same_hardware hw (hw\<lparr>hw_driver := d\<rparr>)"
    using step_same [OF works(4) assms(3) [unfolded works(1)] assms(4,5)] .
  with works hw_inv_same [OF assms(2) [unfolded works(1)]] show ?thesis by simp
next
  case (leaves hw status hw')
  with D0Exit_same [OF leaves(4)] hw_inv_same [OF assms(2) [unfolded leaves(1)]] show ?thesis by simp
next
  case (releases ph hw status hw')
  then have "ph \<noteq> Stopped" by auto
  then obtain pl where "holds pl (mset (hw_pool hw0)) (hw_contiguous hw0) (hw_notify hw0) hw"
    and f: "hw_faults hw = hw_faults hw0" "length (hw_WdfInterrupt hw) = MAX_INTERRUPT_COUNT"
    using assms(2) releases(1) by (auto simp: hw_inv_def)
  from release_gives_back [OF this(1)] releases f show ?thesis by (auto simp: hw_inv_def)
next
  case (exits hw pid)
  with assms(6) show ?thesis by (simp add: quiet_exits_def)
qed

text \<open>C18: in a life in which every preparation succeeds and no process exits while the device has no
  power, the callbacks never free what is not theirs, use a list that was not initialised or write
  past an array; while the device is prepared it holds exactly the four pool blocks, the memory and
  the registration that its last preparation took, and once it is released none of them.  (The spin
  locks, which belong to the framework's device object, are not among what is counted.)\<close>

theorem lives_give_back:
  assumes "life e (Stopped, hw0) evs (ph, hw)" and "idle_acct (hw_driver hw0)" and "env_ok e"
    and "length evs \<le> 2 ^ 32" and "quiet_exits evs" and "always_served evs"
    and "length (hw_WdfInterrupt hw0) = MAX_INTERRUPT_COUNT"
  shows "hw_faults hw = hw_faults hw0
    \<and> (if ph = Stopped then mset (hw_pool hw) = mset (hw_pool hw0) \<and> hw_contiguous hw = hw_contiguous hw0
         \<and> hw_notify hw = hw_notify hw0
       else \<exists>pl. last_prepared evs = Some pl \<and> holds pl (mset (hw_pool hw0)) (hw_contiguous hw0) (hw_notify hw0) hw)"
proof -
  have "hw_inv hw0 (last_prepared evs) s"
    if "life e (Stopped, hw0) evs s" "length evs \<le> 2 ^ 32" "quiet_exits evs" "always_served evs" for evs s
    using that
  proof (induction "(Stopped, hw0)" evs s rule: life.induct)
    case born
    then show ?case using assms(7) by (simp add: hw_inv_def)
  next
    case (lives evs s1 ev s2)
    then have q: "quiet_exits evs" "quiet_exits [ev]" "always_served evs" "always_served [ev]" "length evs < 2 ^ 32"
      by (auto simp: quiet_exits_def always_served_def)
    then have "hw_inv hw0 (last_prepared evs) s1" "life_inv (length evs) s1"
      using lives.hyps(2) life_invariant [OF lives.hyps(1) assms(2,3)] by simp_all
    from hw_step [OF lives.hyps(3) this assms(3) q(5,2,4)] show ?case by simp
  qed
  from this [OF assms(1,4-6)] show ?thesis by (auto simp: hw_inv_def split: if_splits)
qed

subsection \<open>A sample life\<close>

definition sample_life :: "life_event list" where
  "sample_life = [Prepare sample_platform, Enter sample_platform,
     Work (Request IOCTL_VIRTIO_VGPU_CONTEXT_INIT init_request), Leave]"

lemma sample_hardware_facts:
  "idle_acct (hw_driver added_hardware)" "length (hw_WdfInterrupt added_hardware) = MAX_INTERRUPT_COUNT"
  "hw_pool added_hardware = []" "hw_contiguous added_hardware = []" "hw_faults added_hardware = []"
  "hw_notify added_hardware = 0" "dr_config (hw_driver added_hardware) = dr_config sample_start"
  by (simp_all add: added_hardware_def VirtioVgpuDeviceAdd_def sample_framework_def MAX_INTERRUPT_COUNT_def upt_samples
      sample_hardware_def on_driver_def Let_def idle_acct_def sample_device_def Idrs_static_def)

lemma sample_serves: "can_serve sample_platform" "asserted sample_platform added_hardware"
  by (simp_all add: can_serve_def asserted_def sample_platform_def sample_hardware_facts(7) sample_start_def config_ok_def
      MAX_INTERRUPT_COUNT_def pool_served_def)

lemma sample_request_step:
  assumes "g_VirglContextList d = []"
  shows "\<exists>d'. step sample_env d (Request IOCTL_VIRTIO_VGPU_CONTEXT_INIT init_request) d'
    \<and> map vc_Id (g_VirglContextList d') = [7]"
  using assms
  by (simp add: VirtioVgpuIoControl_def dispatch_def CtlInitVirglContext_def init_context_check_def
      init_context_insert_def GetVirglContextFromList_def GetVirglContextFromListUnsafe_def init_request_def
      retrieved_def decode_set_params_def Let_def status_neq)

lemma sample_life_run:
  "\<exists>hw. life sample_env (Stopped, added_hardware) sample_life (Asleep, hw)
    \<and> hw_NumVirtQueues hw = 2 \<and> map vc_Id (g_VirglContextList (hw_driver hw)) = [7]"
proof -
  let ?e = sample_env
  have n: "hw_NumVirtQueues running_hardware = 2"
    using prepare_driver [OF sample_bring_up(2)] D0Entry_driver [OF sample_bring_up(3)] sample_hardware_facts(7)
    by (simp add: sample_start_def)
  have lists: "g_VirglContextList (hw_driver running_hardware) = []"
    using prepare_driver [OF sample_bring_up(2)] D0Entry_driver [OF sample_bring_up(3)]
    by (simp add: prepared_def set_caps_def on_dev_def Let_def)
  then obtain d where d: "step ?e (hw_driver running_hardware) (Request IOCTL_VIRTIO_VGPU_CONTEXT_INIT init_request) d"
    "map vc_Id (g_VirglContextList d) = [7]" using exE [OF sample_request_step [OF lists]] by metis
  let ?hw = "running_hardware\<lparr>hw_driver := d\<rparr>"
  have "life ?e (Stopped, added_hardware) [Prepare sample_platform] (Asleep, prepared_hardware)"
    using life.lives [OF life.born life_step.prepared [OF sample_bring_up(2) _ sample_serves(2)]] by simp
  from life.lives [OF life.lives [OF this life_step.entered [OF sample_bring_up(3)]] life_step.works [OF d(1)]]
  have "life ?e (Stopped, added_hardware) [Prepare sample_platform, Enter sample_platform,
      Work (Request IOCTL_VIRTIO_VGPU_CONTEXT_INIT init_request)] (Awake, ?hw)" by simp
  moreover obtain hw where hw: "VirtioVgpuDeviceD0Exit ?hw = (STATUS_SUCCESS, hw)"
    by (simp add: VirtioVgpuDeviceD0Exit_def)
  ultimately have "life ?e (Stopped, added_hardware) sample_life (Asleep, hw)"
    unfolding sample_life_def using life.lives [OF _ life_step.leaves [OF hw]] by (metis append_Cons append_Nil)
  with D0Exit_driver [OF hw] d(2) n show ?thesis by (intro exI [of _ hw]) simp
qed

lemma sample_life_checks:
  "quiet_exits (sample_life @ [Enter sample_platform])" "quiet_exits (sample_life @ [Release])"
  "always_served (sample_life @ [Release])"
  by (simp_all add: sample_life_def quiet_exits_def always_served_def sample_serves)

theorem lives_safe_witness:
  "\<exists>hw. life sample_env (Stopped, added_hardware) (sample_life @ [Enter sample_platform]) (Awake, hw)
    \<and> map vc_Id (g_VirglContextList (hw_driver hw)) = [7]
    \<and> mem_owned (driver_regions (hw_driver hw)) (g_Memory (hw_driver hw))"
proof -
  obtain hw where hw: "life sample_env (Stopped, added_hardware) sample_life (Asleep, hw)" "hw_NumVirtQueues hw = 2"
    "map vc_Id (g_VirglContextList (hw_driver hw)) = [7]"
    using sample_life_run by metis
  from hw(2) have "fst (VirtioVgpuDeviceD0Entry sample_platform hw) = STATUS_SUCCESS"
    unfolding D0Entry_status hw(2) by (simp add: sample_platform_def)
  then obtain hw' where hw': "VirtioVgpuDeviceD0Entry sample_platform hw = (STATUS_SUCCESS, hw')"
    by (metis prod.collapse)
  from life.lives [OF hw(1) life_step.entered [OF hw']]
  have run: "life sample_env (Stopped, added_hardware) (sample_life @ [Enter sample_platform]) (Awake, hw')" by simp
  have "length (sample_life @ [Enter sample_platform]) \<le> 2 ^ 32" by (simp add: sample_life_def)
  from lives_safe [OF run sample_hardware_facts(1) sample_env_ok(1) this sample_life_checks(1)]
  have "mem_owned (driver_regions (hw_driver hw')) (g_Memory (hw_driver hw'))" by (rule conjunct1)
  moreover have "map vc_Id (g_VirglContextList (hw_driver hw')) = [7]"
    using D0Entry_driver [OF hw'] hw(3) by simp
  ultimately show ?thesis using run by (intro exI [of _ hw'] conjI)
qed

theorem lives_give_back_witness:
  "\<exists>hw. life sample_env (Stopped, added_hardware) (sample_life @ [Release]) (Stopped, hw)
    \<and> hw_pool hw = [] \<and> hw_contiguous hw = [] \<and> hw_notify hw = 0 \<and> hw_faults hw = []"
proof -
  obtain hw where hw: "life sample_env (Stopped, added_hardware) sample_life (Asleep, hw)"
    using sample_life_run by metis
  obtain hw' where "VirtioVgpuDeviceReleaseHardware hw = (STATUS_SUCCESS, hw')"
    by (simp add: VirtioVgpuDeviceReleaseHardware_def Let_def)
  from life.lives [OF hw life_step.releases [OF _ this]]
  have run: "life sample_env (Stopped, added_hardware) (sample_life @ [Release]) (Stopped, hw')" by simp
  have "length (sample_life @ [Release]) \<le> 2 ^ 32" by (simp add: sample_life_def)
  from lives_give_back [OF run sample_hardware_facts(1) sample_env_ok(1) this sample_life_checks(2,3) sample_hardware_facts(2)]
  have "hw_pool hw' = [] \<and> hw_contiguous hw' = [] \<and> hw_notify hw' = 0 \<and> hw_faults hw' = []"
    unfolding sample_hardware_facts(3-6) by (simp only: if_True simp_thms mset.simps mset_zero_iff)
  with run show ?thesis by (intro exI [of _ hw']) (rule conjI)
qed

subsection \<open>A process that exits while the device has no power\<close>

lemma call_length [simp]: "length (dv_VirtQueues (run_call k c d)) = length (dv_VirtQueues d)"
proof -
  obtain cmd r where "run_call k c d = snd (snd (send_command k (cl_queue (spec_of c)) cmd r False d))" "sg_chunks r \<le> 3"
    using gpu.sends [of k c d] by blast
  then show ?thesis by (simp add: send_command_fits Let_def case_prod_beta)
qed

lemmas call_lengths [simp] =
  call_length [of _ "Call_UnMapBlobResource x y z" for x y z, simplified]
  call_length [of _ "Call_DetachResourceBacking x" for x, simplified]
  call_length [of _ "Call_UnrefResource x y" for x y, simplified]

lemma delete_length [simp]: "NumVirtQueues (free_resource ctx (vr_Id r) (DeleteResource e ctx r d)) = NumVirtQueues d"
  by (simp add: NumVirtQueues_def free_resource_def DeleteResource_def DeleteUserShareMemory_def IoFreeMdl_def MmUnmapLockedPages_def
      MmUnmapIoSpace_def fault_at_def Let_def)

lemma destroy_loop_length [simp]: "NumVirtQueues (destroy_loop e ctx rs d) = NumVirtQueues d"
  by (induction rs arbitrary: d) simp_all

lemma send_without_queue:
  assumes "length (dv_VirtQueues d) \<le> q"
  shows "Fault_queue_index q \<in> set (dv_faults (snd (snd (send_command k q cmd r s d))))"
proof -
  have "dv_VirtQueues (check_sg n (snd (AllocateCommandBuffer k a b s 0 d))) = dv_VirtQueues d" for n a b
    by (simp add: check_sg_def alloc_device)
  with assms show ?thesis by (simp add: send_command_def PushQueue_def Let_def case_prod_beta)
qed

text \<open>C29: \<open>D0Exit\<close> destroys the virtqueues, but the process notification stays registered: when a
  process that has a context exits while the device has no power, its commands are pushed on a queue
  that does not exist any more.\<close>

theorem exit_asleep_uses_queue:
  assumes "VirtioVgpuDeviceD0Exit hw = (status, hw1)" and "GetVirglContextFromList pid (hw_driver hw) = Some c"
  shows "Fault_queue_index CONTROL_QUEUE \<in> set (dv_faults (dr_dev (ProcessNotify e pid False (hw_driver hw1))))"
proof -
  have d: "GetVirglContextFromList pid (hw_driver hw1) = Some c" "NumVirtQueues (hw_driver hw1) = 0"
    using assms D0Exit_driver [OF assms(1)]
    by (simp_all add: GetVirglContextFromList_def GetVirglContextFromListUnsafe_def NumVirtQueues_def)
  let ?d = "destroy_loop e (vc_Id c) (rev (vc_ResourceList c)) ((hw_driver hw1)
    \<lparr>g_VirglContextList := del_first (\<lambda>x. vc_Id x = vc_Id c) (g_VirglContextList (hw_driver hw1))\<rparr>)"
  have "NumVirtQueues ?d = NumVirtQueues (hw_driver hw1)" unfolding destroy_loop_length by (simp add: NumVirtQueues_def)
  with d(2) have "length (dv_VirtQueues (dr_dev ?d)) \<le> CONTROL_QUEUE" unfolding NumVirtQueues_def by simp
  from send_without_queue [OF this] d(1) show ?thesis
    by (simp add: ProcessNotify_def CtlDestroyVirglContext_def free_context_def DestroyVirglContext_def Let_def case_prod_beta)
qed

theorem exit_asleep_uses_queue_witness:
  "Fault_queue_index CONTROL_QUEUE \<in> set (dv_faults (dr_dev (ProcessNotify sample_env 7 False
    (hw_driver (snd (VirtioVgpuDeviceD0Exit (running_hardware\<lparr>hw_driver := sample_driver\<rparr>)))))))"
proof -
  let ?hw = "running_hardware\<lparr>hw_driver := sample_driver\<rparr>"
  have "GetVirglContextFromList 7 (hw_driver ?hw) = Some sample_context"
    by (simp add: GetVirglContextFromList_def GetVirglContextFromListUnsafe_def sample_context_def)
  from exit_asleep_uses_queue [OF _ this] show ?thesis by (metis surjective_pairing)
qed

end
