(* ===== verification/Spec2Isabelle.thy ===== *)
theory Spec2Isabelle
  imports Vgpu_Prelude Vgpu_Global Vgpu_Idr Vgpu_Memory Vgpu_Wire Vgpu_Ioctl Vgpu_Command
    Vgpu_Control Vgpu_Ownership Vgpu_Handlers Vgpu_Driver
    Vgpu_System Vgpu_Samples Vgpu_Requests Vgpu_Lifetimes Vgpu_Reachable
    Vgpu_Submissions Vgpu_Replies Vgpu_Refinement Vgpu_Lifecycle
    Vgpu_Threads Vgpu_Interleaving Vgpu_Careful Vgpu_Races Vgpu_Balance Vgpu_Leaks
    Vgpu_Power
begin

text \<open>
  The mvisor vgpu guest driver (\<open>src/kernelmode/vgpu\<close>) takes OpenGL command streams of Windows
  processes to the host's virglrenderer.  A process talks to it through twelve control codes
  (\<open>ioctl.h\<close>); the driver keeps one context per process with the resources it created, gives
  resources and command streams memory out of one region shared with the host, and sends the host
  commands over two virtqueues; interrupts report which commands the host has finished.

  Which theory models which file:

    \<^item> \<open>Vgpu_Prelude\<close>: words, status codes, page rounding, bytes of integers, lists updated in place.
    \<^item> \<open>Vgpu_Global\<close> (\<open>global.h\<close>): the shared structures and the spin lock wrappers.
    \<^item> \<open>Vgpu_Idr\<close> (\<open>idr.c\<close>): the id counters and the cached allocator; contracts \<open>id_source\<close>, \<open>id_pool\<close>.
    \<^item> \<open>Vgpu_Memory\<close> (\<open>memory.c\<close>): the page bitmap of the shared region; contract \<open>region_allocator\<close>.
    \<^item> \<open>Vgpu_Wire\<close> (\<open>command.h\<close>): the control types and the commands with their bytes.
    \<^item> \<open>Vgpu_Ioctl\<close> (\<open>ioctl.h\<close>): the control codes and the requests with their bytes.
    \<^item> \<open>Vgpu_Command\<close> (\<open>command.c\<close>): the device state, pushing, scatter-gather lists, one builder per
      command, the two queries; contract \<open>command_sender\<close>.
    \<^item> \<open>Vgpu_Control\<close> (\<open>control.c\<close>, \<open>control.h\<close>): the driver state and the handler of every request;
      contract \<open>keyed_list\<close> of the lists of contexts and resources.
    \<^item> \<open>Vgpu_Driver\<close> (\<open>vgpu.c\<close>): completions, interrupts, dispatch, process exit, request stop.
    \<^item> \<open>Vgpu_Lifecycle\<close> (\<open>vgpu.c\<close>): adding, preparing and releasing the device, power transitions.
    \<^item> \<open>Vgpu_Threads\<close> (\<open>control.c\<close>, \<open>vgpu.c\<close>): every handler in two parts, up to the lookup of the
      context or resource and from there on, and the machine of threads that run between them.

  How state and effects are represented.  Records mirror the C structures; machine integers are
  words of their width, so arithmetic wraps where it does in C.  A list with a lock is a list and
  an operation under the lock is one step.  \<open>device\<close> adds a log of what was put on the queues
  and a ledger of pool blocks and lookaside entries; \<open>driver\<close> adds the bytes of the shared memory
  and ledgers of MDLs, mappings into processes (\<open>k_umaps\<close>), I/O mappings, contexts and resources that
  were freed (\<open>k_freed\<close>), object references and signalled events.  What would corrupt
  or stop the kernel (an index out of bounds, a block freed that is not held, a copy past an
  allocation) is recorded as a \<open>fault\<close> and the run goes on.  A handler returns \<open>None\<close> while it waits.
  What is not in the repository is an argument: \<open>kernel\<close> (pool addresses, stale lookaside
  contents, physical addresses, whether the virtqueue takes a buffer, the host's answers),
  \<open>rtl_bitmap_lib\<close> (the bitmap searches), \<open>request\<close> (what the framework and the memory manager
  answer during a request), \<open>platform\<close> and \<open>framework\<close> (the same for the callbacks of
  \<open>Vgpu_Lifecycle\<close>).  \<open>env_ok\<close>, \<open>rtl_ok\<close>, \<open>framework_ok\<close>, \<open>host_answers\<close> and \<open>config_ok\<close> state what
  these document; \<open>accepts_all\<close> says that the virtqueues take every command, which theorems about what
  the host is told suppose.

  What is proved.  \<open>Vgpu_Ownership\<close> states the invariant \<open>driver_inv\<close> of the driver state: each page
  of the shared region has at most one owner among resources and queued submissions, each id,
  MDL and command block one owner, the capability table fits its buffers, queued map commands
  name blobs.  It and \<open>Vgpu_Handlers\<close> show that every operation keeps it, \<open>Vgpu_Driver\<close> that every
  callback does, and \<open>Vgpu_System\<close> that every run of the transition system does; \<open>Vgpu_Reachable\<close>
  draws the conclusions for reachable states.  A pushed command the virtqueue rejects is lost,
  which \<open>kept\<close> allows for.  \<open>Vgpu_Requests\<close>, \<open>Vgpu_Lifetimes\<close> and \<open>Vgpu_Submissions\<close> state what
  the operations do, on the branches that succeed and on those that fail, and that what one
  operation takes another gives back; \<open>Vgpu_Replies\<close> what holds of every request: how often it
  is completed, that it leaves other processes alone (but for oversized submissions), and exactly when
  it does not return.  \<open>driver_inv\<close> says that
  nothing has two owners; \<open>Vgpu_Balance\<close> adds that nothing is without one: available memory and owned
  regions make up the whole, and there are no MDLs but those of mapped resources.  \<open>Vgpu_Leaks\<close> shows
  that every run keeps this, careful runs of many threads included, but for failed submissions,
  which strand their memory for good.
  \<open>Vgpu_Refinement\<close>
  gives the abstract specification, a table of processes and the kinds of their resources, and
  shows that every run of the driver is a run of the table.  \<open>Vgpu_Lifecycle\<close> shows
  that bringing the device up gives the state the runs start from.  \<open>Vgpu_Power\<close> follows the device
  over its whole life, prepared, powered up and down, released and prepared again, with callbacks
  that fail and requests in between: the invariant comes back with every power-up, what the last
  preparation took the next release gives back; \<open>exit_asleep_uses_queue\<close> shows the one event it must leave out,
  a process that exits while the device has no power.  In these theories a request is
  one step; \<open>Vgpu_Threads\<close> lets requests overtake each other at their lookups and while they wait.
  \<open>Vgpu_Interleaving\<close> shows that requests of different processes do not disturb each other, and
  \<open>Vgpu_Careful\<close> which requests of one process do, so that all other runs are runs with requests
  as single steps and everything above holds of them; \<open>Vgpu_Races\<close> and \<open>init_race_duplicates\<close> show
  what the others do: an object freed under another thread, a mapping that is never undone, a second
  context.  The components below have
  theorems of their own: disjoint regions and exact refusals of the allocator, distinct ids,
  round trips of requests through bytes, scatter-gather lists that cover their buffer when it is
  aligned, builders that put on the queues the bytes \<open>command_bytes\<close> specifies for each call.  \<open>Vgpu_Samples\<close> holds the
  concrete machine and states on which the theorems with hypotheses are exercised.

  Bounds.  Ids are unique as long as fewer than \<open>2 ^ 32 - 1\<close> events have happened, since ids keep
  32 bits of a counter (\<open>resource_id_wraps\<close> shows what comes after).  A stream of at most
  \<open>0xFFFFF000\<close> bytes is copied within its allocation (\<open>submit_overruns\<close> shows what happens above).
  No fuel is used: every loop of the code is structural over the data it walks.

  Not modelled.  Handlers interleave at their lookups and where they wait for a resource; each of the
  two parts runs alone, so races inside a part (the lists of contexts and resources searched without
  their locks) are not followed, nor what a thread does to memory that was freed.  What a part did
  before it waits for the host or an in-fence is accounted for in the step in which it returns.  The virtio library
  (\<open>include/virtio\<close>) is third-party and linked as a binary; the ring layout, interrupts
  of the hardware and IRQL rules beyond the spin locks are its and the kernel's.  \<open>DriverEntry\<close> and the
  cleanup callbacks only call the framework or log.  Debug output is left out.  \<open>ASSERT\<close> is void; what
  an \<open>ASSERT\<close> alone checks is supposed where the model would otherwise not be the code: allocations of
  command buffers succeed (\<open>pool_ok\<close>), and the shared memory comes in units of 32K (\<open>config_ok\<close>).
  The user-mode part is a patch to Mesa and no code of this repository.
\<close>

end
